(* ===== verification/Prelude.thy ===== *)
theory Prelude
  imports Main "HOL-Library.Word" "HOL-Library.Sublist" "HOL-Library.Multiset"
begin

text \<open>
  What the components share.

  \<^item> The platform's vocabulary: \<open>HRESULT\<close> values as 32-bit words with the
    documented success test and conversions, byte strings (\<open>char\<close> of the C code)
    and wide strings (16-bit units), faults as values.
  \<^item> The pieces of the C and C++ standard library the source calls: \<open>c_str\<close>,
    \<open>std::string::find\<close> and \<open>substr\<close>, \<open>strtok\<close>, \<open>atoi\<close>,
    decimal and hexadecimal output, and \<open>sprintf_s\<close> restricted to the
    conversions that occur.
  \<^item> The generic lemmas and the \<open>named_theorems\<close> collections the
    component theories rely on.
\<close>

named_theorems hr_simps \<open>evaluation of HRESULT constants and of the success test\<close>
named_theorems res_simps \<open>evaluation of computations that may fault\<close>

unbundle bit_operations_syntax

section \<open>HRESULT and NTSTATUS\<close>

type_synonym HRESULT = "32 word"
type_synonym NTSTATUS = "32 word"
type_synonym DWORD = "32 word"

definition S_OK :: HRESULT where "S_OK = 0"
definition S_FALSE :: HRESULT where "S_FALSE = 1"
definition E_NOTIMPL :: HRESULT where "E_NOTIMPL = 0x80004001"
definition E_NOINTERFACE :: HRESULT where "E_NOINTERFACE = 0x80004002"
definition E_FAIL :: HRESULT where "E_FAIL = 0x80004005"
definition E_OUTOFMEMORY :: HRESULT where "E_OUTOFMEMORY = 0x8007000E"
definition E_INVALIDARG :: HRESULT where "E_INVALIDARG = 0x80070057"
definition CLASS_E_NOAGGREGATION :: HRESULT where "CLASS_E_NOAGGREGATION = 0x80040110"
definition CLASS_E_CLASSNOTAVAILABLE :: HRESULT where "CLASS_E_CLASSNOTAVAILABLE = 0x80040111"

lemmas hresult_defs [hr_simps] = S_OK_def S_FALSE_def E_NOTIMPL_def E_NOINTERFACE_def
  E_FAIL_def E_OUTOFMEMORY_def E_INVALIDARG_def CLASS_E_NOAGGREGATION_def
  CLASS_E_CLASSNOTAVAILABLE_def

text \<open>The SDK's macros: an HRESULT is a success when its sign bit is clear.\<close>

definition SUCCEEDED :: "HRESULT \<Rightarrow> bool" where
  "SUCCEEDED hr \<longleftrightarrow> \<not> bit hr 31"

definition FAILED :: "HRESULT \<Rightarrow> bool" where
  "FAILED hr \<longleftrightarrow> bit hr 31"

definition HRESULT_FROM_WIN32 :: "32 word \<Rightarrow> HRESULT" where
  "HRESULT_FROM_WIN32 x = (if sint x \<le> 0 then x else (x AND 0xFFFF) OR 0x80070000)"

definition HRESULT_FROM_NT :: "NTSTATUS \<Rightarrow> HRESULT" where
  "HRESULT_FROM_NT x = x OR 0x10000000"

lemma FAILED_iff: "FAILED hr \<longleftrightarrow> \<not> SUCCEEDED hr"
  by (simp add: FAILED_def SUCCEEDED_def)

lemma SUCCEEDED_consts [simp, hr_simps]:
  "SUCCEEDED S_OK" "SUCCEEDED S_FALSE"
  "\<not> SUCCEEDED E_NOTIMPL" "\<not> SUCCEEDED E_NOINTERFACE" "\<not> SUCCEEDED E_FAIL"
  "\<not> SUCCEEDED E_OUTOFMEMORY" "\<not> SUCCEEDED E_INVALIDARG"
  "\<not> SUCCEEDED CLASS_E_NOAGGREGATION" "\<not> SUCCEEDED CLASS_E_CLASSNOTAVAILABLE"
  by (simp_all add: SUCCEEDED_def hresult_defs)

lemma FAILED_consts [simp, hr_simps]:
  "\<not> FAILED S_OK" "\<not> FAILED S_FALSE"
  "FAILED E_NOTIMPL" "FAILED E_NOINTERFACE" "FAILED E_FAIL"
  "FAILED E_OUTOFMEMORY" "FAILED E_INVALIDARG"
  by (simp_all add: FAILED_iff)

lemma HRESULT_FROM_WIN32_fails:
  assumes "0 < sint x"
  shows "\<not> SUCCEEDED (HRESULT_FROM_WIN32 x)"
proof -
  have "bit ((x AND 0xFFFF) OR 0x80070000 :: 32 word) 31"
    by (simp add: bit_or_iff)
  with assms show ?thesis by (simp add: HRESULT_FROM_WIN32_def SUCCEEDED_def)
qed

lemma HRESULT_FROM_WIN32_zero [simp]: "HRESULT_FROM_WIN32 0 = S_OK"
  by (simp add: HRESULT_FROM_WIN32_def S_OK_def)


section \<open>Computations that may fault\<close>

text \<open>
  What stops the process or leaves the language's defined behaviour is a value: the
  dereference of a null pointer, a call of the C runtime's invalid-parameter handler
  (the reaction of the \<open>_s\<close> functions to a buffer that is too small), an access
  outside an object, other undefined behaviour, and \<open>exit\<close>.
\<close>

datatype fault = NullDeref | InvalidParameter | OutOfBounds | UndefinedBehaviour | ProcessExit int

type_synonym 'a res = "fault + 'a"

definition bind_res :: "'a res \<Rightarrow> ('a \<Rightarrow> 'b res) \<Rightarrow> 'b res" where
  "bind_res m f = (case m of Inl e \<Rightarrow> Inl e | Inr x \<Rightarrow> f x)"

lemma bind_res_simps [simp, res_simps]:
  "bind_res (Inl e) f = Inl e" "bind_res (Inr x) f = f x"
  by (simp_all add: bind_res_def)

lemma bind_res_Inr [res_simps]: "bind_res m f = Inr y \<longleftrightarrow> (\<exists>x. m = Inr x \<and> f x = Inr y)"
  by (auto simp: bind_res_def split: sum.splits)

lemma bind_resE:
  assumes "bind_res m f = Inr y"
  obtains x where "m = Inr x" and "f x = Inr y"
  using assms by (auto simp: bind_res_def split: sum.splits)

lemma bind_res_Inl: "bind_res m f = Inl e \<longleftrightarrow> m = Inl e \<or> (\<exists>x. m = Inr x \<and> f x = Inl e)"
  by (auto simp: bind_res_def split: sum.splits)

section \<open>C and C++ strings\<close>

text \<open>A \<open>char\<close> string is a list of bytes; reading it through a pointer stops at the first NUL.\<close>

definition c_str :: "string \<Rightarrow> string" where
  "c_str s = takeWhile (\<lambda>c. c \<noteq> CHR 0x00) s"

lemma c_str_id: "CHR 0x00 \<notin> set s \<Longrightarrow> c_str s = s"
  by (auto simp: c_str_def takeWhile_eq_all_conv)

lemma c_str_no_nul [simp]: "CHR 0x00 \<notin> set (c_str s)"
  by (auto simp: c_str_def dest: set_takeWhileD)

lemma length_c_str: "length (c_str s) \<le> length s"
  by (simp add: c_str_def length_takeWhile_le)

lemma c_str_idem [simp]: "c_str (c_str s) = c_str s"
  by (simp add: c_str_id)

lemma c_str_append: "CHR 0x00 \<notin> set s \<Longrightarrow> c_str (s @ t) = s @ c_str t"
  by (induction s) (auto simp: c_str_def)

text \<open>\<open>std::string::find\<close> from position 0; \<open>None\<close> is \<open>npos\<close>.\<close>

fun find_sub :: "'a list \<Rightarrow> 'a list \<Rightarrow> nat option" where
  "find_sub p [] = (if p = [] then Some 0 else None)"
| "find_sub p (x # xs) = (if prefix p (x # xs) then Some 0 else map_option Suc (find_sub p xs))"

lemma find_sub_None: "find_sub p s = None \<longleftrightarrow> \<not> sublist p s"
  by (induction s) (auto simp: sublist_Cons_right)

lemma find_sub_Some: "find_sub p s = Some i \<Longrightarrow> prefix p (drop i s)"
  by (induction s arbitrary: i) (auto split: if_splits)

lemma find_sub_Some_split:
  "find_sub p s = Some i \<Longrightarrow> i + length p \<le> length s \<and> s = take i s @ p @ drop (i + length p) s"
proof (induction s arbitrary: i)
  case Nil
  then show ?case by (auto split: if_splits)
next
  case (Cons x s)
  show ?case
  proof (cases "prefix p (x # s)")
    case True
    with Cons.prems show ?thesis
      using prefix_length_le [OF True] by (auto simp: prefix_def)
  next
    case False
    with Cons show ?thesis by auto
  qed
qed

definition find_char :: "char \<Rightarrow> string \<Rightarrow> nat option" where
  "find_char c s = find_sub [c] s"

lemma find_char_None: "find_char c s = None \<longleftrightarrow> c \<notin> set s"
  by (induction s) (auto simp: find_char_def)

lemma find_char_first: "c \<notin> set a \<Longrightarrow> find_char c (a @ c # b) = Some (length a)"
  by (induction a) (auto simp: find_char_def)

text \<open>
  \<open>npos\<close> is the largest \<open>size_t\<close>: \<open>npos + 1\<close> is 0. \<open>substr\<close> throws when the
  start lies past the end; a length of \<open>None\<close> is \<open>npos\<close>.
\<close>

definition pos_plus1 :: "nat option \<Rightarrow> nat" where
  "pos_plus1 p = (case p of None \<Rightarrow> 0 | Some i \<Rightarrow> i + 1)"

definition substr :: "string \<Rightarrow> nat \<Rightarrow> nat option \<Rightarrow> string res" where
  "substr s p n = (if length s < p then Inl OutOfBounds
     else Inr (case n of None \<Rightarrow> drop p s | Some k \<Rightarrow> take k (drop p s)))"

text \<open>\<open>strtok\<close> with one delimiter: the token, if there is one, and the rest to continue with.\<close>

definition strtok :: "char \<Rightarrow> string \<Rightarrow> string option \<times> string" where
  "strtok d s =
     (let s' = dropWhile (\<lambda>c. c = d) s
      in if s' = [] then (None, [])
         else (Some (takeWhile (\<lambda>c. c \<noteq> d) s'), tl (dropWhile (\<lambda>c. c \<noteq> d) s')))"

lemma strtok_token:
  assumes "a \<noteq> []" and "d \<notin> set a"
  shows "strtok d (a @ d # b) = (Some a, b)"
proof -
  obtain x xs where a: "a = x # xs" using assms(1) by (cases a) auto
  have d: "dropWhile (\<lambda>c. c = d) (a @ d # b) = a @ d # b" using assms(2) a by auto
  have t: "takeWhile (\<lambda>c. c \<noteq> d) (a @ d # b) = a" using assms(2)
    by (subst takeWhile_append2) auto
  have r: "dropWhile (\<lambda>c. c \<noteq> d) (a @ d # b) = d # b" using assms(2)
    by (subst dropWhile_append2) auto
  show ?thesis unfolding strtok_def Let_def d t r using a by simp
qed

lemma strtok_last:
  assumes "a \<noteq> []" and "d \<notin> set a"
  shows "strtok d a = (Some a, [])"
proof -
  obtain x xs where a: "a = x # xs" using assms(1) by (cases a) auto
  have d: "dropWhile (\<lambda>c. c = d) a = a" using assms(2) a by auto
  have t: "takeWhile (\<lambda>c. c \<noteq> d) a = a" and r: "dropWhile (\<lambda>c. c \<noteq> d) a = []"
    using assms(2) by (auto simp: takeWhile_eq_all_conv dropWhile_eq_Nil_conv)
  show ?thesis unfolding strtok_def Let_def d t r using a by simp
qed

lemma strtok_token_nonempty: "strtok d s = (Some t, r) \<Longrightarrow> t \<noteq> []"
proof -
  assume h: "strtok d s = (Some t, r)"
  let ?s = "dropWhile (\<lambda>c. c = d) s"
  have ne: "?s \<noteq> []" and t: "t = takeWhile (\<lambda>c. c \<noteq> d) ?s"
    using h by (auto simp: strtok_def Let_def split: if_splits)
  from ne have "hd ?s \<noteq> d" using hd_dropWhile [of "\<lambda>c. c = d" s] by auto
  with ne t show "t \<noteq> []" by (cases ?s) auto
qed

section \<open>Numbers in text\<close>

definition digit :: "nat \<Rightarrow> char" where
  "digit n = char_of (48 + n)"

fun dec :: "nat \<Rightarrow> string" where
  "dec n = (if n < 10 then [digit n] else dec (n div 10) @ [digit (n mod 10)])"

declare dec.simps [simp del]

text \<open>\<open>%02d\<close> and \<open>%02X\<close>.\<close>

definition dec02 :: "nat \<Rightarrow> string" where
  "dec02 n = (if n < 10 then CHR ''0'' # dec n else dec n)"

definition hex_digit :: "nat \<Rightarrow> char" where
  "hex_digit n = (if n < 10 then char_of (48 + n) else char_of (55 + n))"

definition hex02 :: "8 word \<Rightarrow> string" where
  "hex02 b = [hex_digit (unat b div 16), hex_digit (unat b mod 16)]"

text \<open>Reading a run of decimal digits.\<close>

definition is_digit :: "char \<Rightarrow> bool" where
  "is_digit c \<longleftrightarrow> 48 \<le> (of_char c :: nat) \<and> (of_char c :: nat) \<le> 57"

definition undec :: "string \<Rightarrow> nat" where
  "undec s = foldl (\<lambda>a c. 10 * a + (of_char c - 48)) 0 s"

lemma of_char_digit: "n < 10 \<Longrightarrow> (of_char (digit n) :: nat) = 48 + n"
  by (simp add: digit_def)

lemma is_digit_digit: "n < 10 \<Longrightarrow> is_digit (digit n)"
  by (simp add: is_digit_def of_char_digit)

lemma dec_digits: "c \<in> set (dec n) \<Longrightarrow> is_digit c"
proof (induction n rule: dec.induct)
  case (1 n)
  then show ?case
    by (cases "n < 10") (auto simp: dec.simps [of n] is_digit_digit)
qed

lemma dec_nonempty [simp]: "dec n \<noteq> []"
  by (simp add: dec.simps [of n])

lemma undec_dec [simp]: "undec (dec n) = n"
proof (induction n rule: dec.induct)
  case (1 n)
  show ?case
  proof (cases "n < 10")
    case True
    then show ?thesis by (simp add: dec.simps [of n] undec_def of_char_digit)
  next
    case False
    with 1 have "undec (dec (n div 10)) = n div 10" by simp
    with False show ?thesis
      by (simp add: dec.simps [of n] undec_def of_char_digit)
  qed
qed

text \<open>\<open>atoi\<close>: white space, an optional sign, digits; 0 when there is no digit.\<close>

definition is_space :: "char \<Rightarrow> bool" where
  "is_space c \<longleftrightarrow> of_char c \<in> {9::nat, 10, 11, 12, 13, 32}"

definition atoi :: "string \<Rightarrow> int" where
  "atoi s =
     (let t = dropWhile is_space (c_str s)
      in case t of
           [] \<Rightarrow> 0
         | c # r \<Rightarrow>
             if c = CHR ''-'' then - int (undec (takeWhile is_digit r))
             else if c = CHR ''+'' then int (undec (takeWhile is_digit r))
             else int (undec (takeWhile is_digit t)))"

section \<open>Formatted output\<close>

text \<open>
  \<open>sprintf_s(buf, n, fmt, ...)\<close> where every argument is a \<open>char\<close> pointer. A conversion
  other than \<open>%s\<close> and \<open>%%\<close>, a missing argument and a null argument have no defined
  result; surplus arguments are ignored. The result and its NUL must fit into \<open>n\<close> bytes,
  else the runtime calls the invalid-parameter handler.
\<close>

fun fmt :: "string \<Rightarrow> string option list \<Rightarrow> string res" where
  "fmt [] as = Inr []"
| "fmt (c # r) as =
     (if c \<noteq> CHR ''%'' then bind_res (fmt r as) (\<lambda>t. Inr (c # t))
      else (case r of
              [] \<Rightarrow> Inl UndefinedBehaviour
            | d # r' \<Rightarrow>
                if d = CHR ''%'' then bind_res (fmt r' as) (\<lambda>t. Inr (CHR ''%'' # t))
                else if d = CHR ''s'' then
                  (case as of
                     Some a # as' \<Rightarrow> bind_res (fmt r' as') (\<lambda>t. Inr (a @ t))
                   | _ \<Rightarrow> Inl UndefinedBehaviour)
                else Inl UndefinedBehaviour))"

definition sprintf_s :: "nat \<Rightarrow> string \<Rightarrow> string option list \<Rightarrow> string res" where
  "sprintf_s n f as =
     bind_res (fmt f as) (\<lambda>s. if length s < n then Inr s else Inl InvalidParameter)"

definition strcpy_s :: "nat \<Rightarrow> string \<Rightarrow> string res" where
  "strcpy_s n s = (if length (c_str s) < n then Inr (c_str s) else Inl InvalidParameter)"

lemma fmt_lit: "CHR ''%'' \<notin> set l \<Longrightarrow> fmt (l @ f) as = bind_res (fmt f as) (\<lambda>t. Inr (l @ t))"
proof (induction l)
  case Nil
  then show ?case by (cases "fmt f as") auto
next
  case (Cons c l)
  then show ?case by (cases "fmt f as") auto
qed

lemma fmt_plain: "CHR ''%'' \<notin> set l \<Longrightarrow> fmt l as = Inr l"
  using fmt_lit [of l "[]" as] by simp

lemma fmt_s: "fmt (CHR ''%'' # CHR ''s'' # f) (Some a # as) = bind_res (fmt f as) (\<lambda>t. Inr (a @ t))"
  by simp

lemma sprintf_s_fits: "fmt f as = Inr s \<Longrightarrow> length s < n \<Longrightarrow> sprintf_s n f as = Inr s"
  by (simp add: sprintf_s_def)

lemma sprintf_s_overflow: "fmt f as = Inr s \<Longrightarrow> n \<le> length s \<Longrightarrow> sprintf_s n f as = Inl InvalidParameter"
  by (simp add: sprintf_s_def)

lemma sprintf_s_length: "sprintf_s n f as = Inr s \<Longrightarrow> length s < n"
  by (auto simp: sprintf_s_def bind_res_Inr split: if_splits)

lemma strcpy_s_ok: "strcpy_s n s = Inr t \<longleftrightarrow> t = c_str s \<and> length (c_str s) < n"
  by (auto simp: strcpy_s_def)

end
