(* ===== verification/Task_Memory.thy ===== *)
theory Task_Memory
  imports Prelude
begin

text \<open>
  The memory the credential code works on: the COM task allocator (\<open>CoTaskMemAlloc\<close>,
  \<open>CoTaskMemFree\<close>, \<open>SHStrDupW\<close>) as an explicit store of blocks, the wide strings in
  it, and the SDK's checked string and integer helpers the source calls
  (\<open>StringCchLengthW\<close>, \<open>SizeTToUShort\<close>, \<open>UShortMult\<close>).

  Which allocations fail is the environment's choice: \<open>hp_fails\<close> is an arbitrary
  predicate on the serial number of the allocation, so every statement about the
  error paths holds for every pattern of failures.
\<close>

type_synonym wchar = "16 word"
type_synonym wstr = "wchar list"
type_synonym addr = nat

text \<open>A pointer to task memory; \<open>None\<close> is the null pointer.\<close>

type_synonym ptr = "addr option"

text \<open>The kinds of fields a tile has, and a descriptor whose label is task memory.\<close>

datatype cpft = CPFT_INVALID | CPFT_LARGE_TEXT | CPFT_SMALL_TEXT | CPFT_COMMAND_LINK
  | CPFT_EDIT_TEXT | CPFT_PASSWORD_TEXT | CPFT_TILE_IMAGE | CPFT_CHECKBOX | CPFT_COMBOBOX
  | CPFT_SUBMIT_BUTTON

record field_descriptor =
  dwFieldID :: DWORD
  cpft_of :: cpft
  pszLabel :: ptr

text \<open>
  What a block holds: the characters of a wide string up to its terminator, a descriptor,
  bytes, or nothing yet. \<open>hp_freed\<close> keeps what a block held when it was freed, latest
  first: what a later owner of that memory could still read.
\<close>

datatype block = BStr wstr | BDesc field_descriptor | BBytes "8 word list" | BRaw

record heap =
  hp_blocks :: "addr \<Rightarrow> block option"
  hp_next :: addr
  hp_fails :: "nat \<Rightarrow> bool"
  hp_freed :: "block list"

definition heap_ok :: "heap \<Rightarrow> bool" where
  "heap_ok h \<longleftrightarrow> (\<forall>a \<ge> hp_next h. hp_blocks h a = None)"

definition live :: "heap \<Rightarrow> addr set" where
  "live h = dom (hp_blocks h)"

section \<open>The allocator\<close>

definition task_alloc :: "block \<Rightarrow> heap \<Rightarrow> ptr \<times> heap" where
  "task_alloc b h =
     (if hp_fails h (hp_next h) then (None, h\<lparr>hp_next := Suc (hp_next h)\<rparr>)
      else (Some (hp_next h),
            h\<lparr>hp_blocks := (hp_blocks h)(hp_next h \<mapsto> b), hp_next := Suc (hp_next h)\<rparr>))"

definition task_write :: "addr \<Rightarrow> block \<Rightarrow> heap \<Rightarrow> heap" where
  "task_write a b h = h\<lparr>hp_blocks := (hp_blocks h)(a \<mapsto> b)\<rparr>"

text \<open>Freeing null is allowed; freeing a block that is not live is undefined.\<close>

definition CoTaskMemFree :: "ptr \<Rightarrow> heap \<Rightarrow> heap res" where
  "CoTaskMemFree p h =
     (case p of
        None \<Rightarrow> Inr h
      | Some a \<Rightarrow> (case hp_blocks h a of
                    None \<Rightarrow> Inl UndefinedBehaviour
                  | Some b \<Rightarrow> Inr (h\<lparr>hp_blocks := (hp_blocks h)(a := None), hp_freed := b # hp_freed h\<rparr>)))"

text \<open>A wide string ends at its first NUL.\<close>

definition wcs :: "wstr \<Rightarrow> wstr" where
  "wcs s = takeWhile (\<lambda>c. c \<noteq> 0) s"

text \<open>The string behind a pointer; \<open>None\<close> for the null pointer.\<close>

definition read_str :: "heap \<Rightarrow> ptr \<Rightarrow> wstr option res" where
  "read_str h p =
     (case p of
        None \<Rightarrow> Inr None
      | Some a \<Rightarrow> (case hp_blocks h a of
                    Some (BStr s) \<Rightarrow> Inr (Some (wcs s))
                  | _ \<Rightarrow> Inl UndefinedBehaviour))"

text \<open>\<open>SecureZeroMemory\<close> over the first \<open>n\<close> characters of a string block.\<close>

definition SecureZeroMemory :: "addr \<Rightarrow> nat \<Rightarrow> heap \<Rightarrow> heap res" where
  "SecureZeroMemory a n h =
     (case hp_blocks h a of
        Some (BStr s) \<Rightarrow>
          if n \<le> length s then Inr (task_write a (BStr (replicate n 0 @ drop n s)) h)
          else Inl OutOfBounds
      | _ \<Rightarrow> Inl UndefinedBehaviour)"

text \<open>
  \<open>SHStrDupW\<close> copies the source string into a new block; on failure the destination is
  null. What it returns for a null source is a parameter.
\<close>

definition SHStrDupW :: "HRESULT \<Rightarrow> wstr option \<Rightarrow> heap \<Rightarrow> HRESULT \<times> ptr \<times> heap" where
  "SHStrDupW dup_null src h =
     (case src of
        None \<Rightarrow> (dup_null, None, h)
      | Some s \<Rightarrow> (let (p, h') = task_alloc (BStr s) h
                   in (if p = None then E_OUTOFMEMORY else S_OK, p, h')))"

section \<open>Checked lengths and sizes\<close>

definition USHORT_MAX :: nat where "USHORT_MAX = 65535"

definition INTSAFE_E_ARITHMETIC_OVERFLOW :: HRESULT where
  "INTSAFE_E_ARITHMETIC_OVERFLOW = 0x80070216"

definition ERROR_ARITHMETIC_OVERFLOW :: "32 word" where "ERROR_ARITHMETIC_OVERFLOW = 534"

text \<open>The length, if the terminator lies within the first \<open>cchMax\<close> characters.\<close>

definition StringCchLengthW :: "wstr option \<Rightarrow> nat \<Rightarrow> HRESULT \<times> nat" where
  "StringCchLengthW psz cchMax =
     (case psz of
        None \<Rightarrow> (E_INVALIDARG, 0)
      | Some s \<Rightarrow> if length s < cchMax then (S_OK, length s) else (E_INVALIDARG, 0))"

definition SizeTToUShort :: "nat \<Rightarrow> HRESULT \<times> 16 word" where
  "SizeTToUShort n = (if n \<le> USHORT_MAX then (S_OK, of_nat n) else (INTSAFE_E_ARITHMETIC_OVERFLOW, 0xFFFF))"

definition UShortMult :: "16 word \<Rightarrow> 16 word \<Rightarrow> HRESULT \<times> 16 word" where
  "UShortMult a b = (if unat a * unat b \<le> USHORT_MAX then (S_OK, a * b)
     else (INTSAFE_E_ARITHMETIC_OVERFLOW, 0xFFFF))"

lemma overflow_fails [simp]: "\<not> SUCCEEDED INTSAFE_E_ARITHMETIC_OVERFLOW"
  by (simp add: SUCCEEDED_def INTSAFE_E_ARITHMETIC_OVERFLOW_def)

lemma overflow_win32 [simp]:
  "HRESULT_FROM_WIN32 ERROR_ARITHMETIC_OVERFLOW = INTSAFE_E_ARITHMETIC_OVERFLOW"
  by (simp add: HRESULT_FROM_WIN32_def ERROR_ARITHMETIC_OVERFLOW_def INTSAFE_E_ARITHMETIC_OVERFLOW_def)

section \<open>Frame lemmas\<close>

named_theorems heap_simps \<open>what the allocator's operations do to the live blocks\<close>

lemma heap_okD: "heap_ok h \<Longrightarrow> hp_blocks h (hp_next h) = None"
  by (simp add: heap_ok_def)

lemma task_alloc_ok: "heap_ok h \<Longrightarrow> task_alloc b h = (p, h') \<Longrightarrow> heap_ok h'"
  by (auto simp: task_alloc_def heap_ok_def split: if_splits)

lemma task_alloc_None:
  "task_alloc b h = (None, h') \<Longrightarrow> hp_blocks h' = hp_blocks h"
  by (auto simp: task_alloc_def split: if_splits)

lemma task_alloc_Some:
  "task_alloc b h = (Some a, h') \<Longrightarrow> a = hp_next h \<and> hp_blocks h' = (hp_blocks h)(a \<mapsto> b)"
  by (auto simp: task_alloc_def split: if_splits)

lemma task_alloc_fails [simp]: "hp_fails (snd (task_alloc b h)) = hp_fails h"
  by (simp add: task_alloc_def)

lemma CoTaskMemFree_live:
  "hp_blocks h a = Some b \<Longrightarrow> CoTaskMemFree (Some a) h = Inr (h\<lparr>hp_blocks := (hp_blocks h)(a := None), hp_freed := b # hp_freed h\<rparr>)"
  by (simp add: CoTaskMemFree_def)

lemma CoTaskMemFree_null [simp]: "CoTaskMemFree None h = Inr h"
  by (simp add: CoTaskMemFree_def)

lemma heap_ok_free: "heap_ok h \<Longrightarrow> heap_ok (h\<lparr>hp_blocks := (hp_blocks h)(a := None)\<rparr>)"
  by (simp add: heap_ok_def)

lemma CoTaskMemFree_ok: "heap_ok h \<Longrightarrow> CoTaskMemFree p h = Inr h' \<Longrightarrow> heap_ok h'"
  by (auto simp: CoTaskMemFree_def heap_ok_def split: option.splits)

lemma SHStrDupW_ok: "heap_ok h \<Longrightarrow> SHStrDupW n src h = (hr, p, h') \<Longrightarrow> heap_ok h'"
  by (auto simp: SHStrDupW_def split: option.splits prod.splits dest: task_alloc_ok)

text \<open>The three outcomes of duplicating a string.\<close>

lemma SHStrDupW_cases:
  assumes "SHStrDupW n (Some s) h = (hr, p, h')"
  obtains (ok) "hr = S_OK" and "p = Some (hp_next h)"
      and "hp_blocks h' = (hp_blocks h)(hp_next h \<mapsto> BStr s)" and "hp_next h' = Suc (hp_next h)"
      and "hp_fails h' = hp_fails h" and "\<not> hp_fails h (hp_next h)"
    | (oom) "hr = E_OUTOFMEMORY" and "p = None" and "hp_blocks h' = hp_blocks h"
      and "hp_next h' = Suc (hp_next h)" and "hp_fails h' = hp_fails h" and "hp_fails h (hp_next h)"
proof (cases "hp_fails h (hp_next h)")
  case True
  with assms show ?thesis by (intro oom) (auto simp: SHStrDupW_def task_alloc_def)
next
  case False
  with assms show ?thesis by (intro ok) (auto simp: SHStrDupW_def task_alloc_def)
qed

lemma read_str_null [simp]: "read_str h None = Inr None"
  by (simp add: read_str_def)

lemma wcs_id: "0 \<notin> set s \<Longrightarrow> wcs s = s"
  by (auto simp: wcs_def takeWhile_eq_all_conv)

lemma wcs_no_nul [simp]: "0 \<notin> set (wcs s)"
  by (auto simp: wcs_def dest: set_takeWhileD)

lemma wcs_Nil [simp]: "wcs [] = []"
  by (simp add: wcs_def)

lemma wcs_idem [simp]: "wcs (wcs s) = wcs s"
  by (simp add: wcs_id)

lemma length_wcs: "length (wcs s) \<le> length s"
  by (simp add: wcs_def length_takeWhile_le)

lemma read_str_Some: "hp_blocks h a = Some (BStr s) \<Longrightarrow> read_str h (Some a) = Inr (Some (wcs s))"
  by (simp add: read_str_def)

text \<open>A heap for closed examples: empty, with a given set of failing allocations.\<close>

definition empty_heap :: "(nat \<Rightarrow> bool) \<Rightarrow> heap" where
  "empty_heap fails = \<lparr>hp_blocks = (\<lambda>_. None), hp_next = 1, hp_fails = fails, hp_freed = []\<rparr>"

lemma heap_ok_empty [simp]: "heap_ok (empty_heap f)"
  by (simp add: heap_ok_def empty_heap_def)

end
