(* ===== verification/Common.thy ===== *)
theory Common
  imports Task_Memory
begin

text \<open>
  \<open>common.h\<close>: the field indexes of the two tiles, when each field shows, and the
  field descriptors.
\<close>

text \<open>
  A wide string literal from bytes, for the ASCII labels; the labels in Chinese are given
  by their code units.
\<close>

definition wide :: "string \<Rightarrow> wstr" where
  "wide s = map (\<lambda>c. of_nat (of_char c)) s"

section \<open>Field indexes\<close>

datatype SAMPLE_FIELD_ID = SFI_TILEIMAGE | SFI_USERNAME | SFI_PASSWORD | SFI_SUBMIT_BUTTON

fun sfi :: "SAMPLE_FIELD_ID \<Rightarrow> nat" where
  "sfi SFI_TILEIMAGE = 0"
| "sfi SFI_USERNAME = 1"
| "sfi SFI_PASSWORD = 2"
| "sfi SFI_SUBMIT_BUTTON = 3"

definition SFI_NUM_FIELDS :: nat where "SFI_NUM_FIELDS = 4"

datatype SAMPLE_MESSAGE_FIELD_ID = SMFI_MESSAGE

fun smfi :: "SAMPLE_MESSAGE_FIELD_ID \<Rightarrow> nat" where
  "smfi SMFI_MESSAGE = 0"

definition SMFI_NUM_FIELDS :: nat where "SMFI_NUM_FIELDS = 1"

text \<open>The enumerators are ordered by their values.\<close>

instantiation SAMPLE_FIELD_ID :: linorder
begin

definition less_eq_SAMPLE_FIELD_ID :: "SAMPLE_FIELD_ID \<Rightarrow> SAMPLE_FIELD_ID \<Rightarrow> bool" where
  "less_eq_SAMPLE_FIELD_ID a b \<longleftrightarrow> sfi a \<le> sfi b"

definition less_SAMPLE_FIELD_ID :: "SAMPLE_FIELD_ID \<Rightarrow> SAMPLE_FIELD_ID \<Rightarrow> bool" where
  "less_SAMPLE_FIELD_ID a b \<longleftrightarrow> sfi a < sfi b"

instance
proof
  fix x y z :: SAMPLE_FIELD_ID
  show "(x < y) = (x \<le> y \<and> \<not> y \<le> x)"
    by (auto simp: less_eq_SAMPLE_FIELD_ID_def less_SAMPLE_FIELD_ID_def)
  show "x \<le> x" by (simp add: less_eq_SAMPLE_FIELD_ID_def)
  show "x \<le> y \<Longrightarrow> y \<le> z \<Longrightarrow> x \<le> z" by (simp add: less_eq_SAMPLE_FIELD_ID_def)
  show "x \<le> y \<Longrightarrow> y \<le> x \<Longrightarrow> x = y"
    by (cases x; cases y) (auto simp: less_eq_SAMPLE_FIELD_ID_def)
  show "x \<le> y \<or> y \<le> x" by (auto simp: less_eq_SAMPLE_FIELD_ID_def)
qed

end

lemma sfi_inj: "sfi a = sfi b \<longleftrightarrow> a = b"
  by (cases a; cases b) auto

lemma sfi_bound: "sfi a < SFI_NUM_FIELDS"
  by (cases a) (auto simp: SFI_NUM_FIELDS_def)

section \<open>Field states\<close>

datatype cpfs = CPFS_HIDDEN | CPFS_DISPLAY_IN_SELECTED_TILE | CPFS_DISPLAY_IN_DESELECTED_TILE
  | CPFS_DISPLAY_IN_BOTH

datatype cpfis = CPFIS_NONE | CPFIS_READONLY | CPFIS_DISABLED | CPFIS_FOCUSED

record FIELD_STATE_PAIR =
  fsp_cpfs :: cpfs
  fsp_cpfis :: cpfis

definition s_rgFieldStatePairs :: "FIELD_STATE_PAIR list" where
  "s_rgFieldStatePairs =
     [\<lparr>fsp_cpfs = CPFS_DISPLAY_IN_BOTH, fsp_cpfis = CPFIS_NONE\<rparr>,
      \<lparr>fsp_cpfs = CPFS_DISPLAY_IN_BOTH, fsp_cpfis = CPFIS_NONE\<rparr>,
      \<lparr>fsp_cpfs = CPFS_DISPLAY_IN_BOTH, fsp_cpfis = CPFIS_NONE\<rparr>,
      \<lparr>fsp_cpfs = CPFS_DISPLAY_IN_SELECTED_TILE, fsp_cpfis = CPFIS_NONE\<rparr>]"

definition s_rgMessageFieldStatePairs :: "FIELD_STATE_PAIR list" where
  "s_rgMessageFieldStatePairs = [\<lparr>fsp_cpfs = CPFS_DISPLAY_IN_BOTH, fsp_cpfis = CPFIS_NONE\<rparr>]"

section \<open>Field descriptors\<close>

text \<open>A descriptor of the constant tables: its label is a literal, not task memory.\<close>

record const_descriptor =
  cd_dwFieldID :: nat
  cd_cpft :: cpft
  cd_pszLabel :: "wstr option"

definition s_rgCredProvFieldDescriptors :: "const_descriptor list" where
  "s_rgCredProvFieldDescriptors =
     [\<lparr>cd_dwFieldID = sfi SFI_TILEIMAGE, cd_cpft = CPFT_TILE_IMAGE, cd_pszLabel = Some (wide ''Image'')\<rparr>,
      \<lparr>cd_dwFieldID = sfi SFI_USERNAME, cd_cpft = CPFT_LARGE_TEXT, cd_pszLabel = Some (wide ''Username'')\<rparr>,
      \<lparr>cd_dwFieldID = sfi SFI_PASSWORD, cd_cpft = CPFT_PASSWORD_TEXT, cd_pszLabel = Some (wide ''Password'')\<rparr>,
      \<lparr>cd_dwFieldID = sfi SFI_SUBMIT_BUTTON, cd_cpft = CPFT_SUBMIT_BUTTON, cd_pszLabel = Some (wide ''Submit'')\<rparr>]"

definition s_rgMessageCredProvFieldDescriptors :: "const_descriptor list" where
  "s_rgMessageCredProvFieldDescriptors =
     [\<lparr>cd_dwFieldID = smfi SMFI_MESSAGE, cd_cpft = CPFT_LARGE_TEXT,
       cd_pszLabel = Some [0x8bf7, 0x8fde, 0x63a5, 0xff01]\<rparr>]"

text \<open>Each table has one entry for every field, in the order of the indexes.\<close>

lemma field_tables_length:
  "length s_rgFieldStatePairs = SFI_NUM_FIELDS"
  "length s_rgCredProvFieldDescriptors = SFI_NUM_FIELDS"
  "length s_rgMessageFieldStatePairs = SMFI_NUM_FIELDS"
  "length s_rgMessageCredProvFieldDescriptors = SMFI_NUM_FIELDS"
  by (simp_all add: s_rgFieldStatePairs_def s_rgCredProvFieldDescriptors_def
      s_rgMessageFieldStatePairs_def s_rgMessageCredProvFieldDescriptors_def
      SFI_NUM_FIELDS_def SMFI_NUM_FIELDS_def)

lemma field_descriptor_index:
  "i < SFI_NUM_FIELDS \<Longrightarrow> cd_dwFieldID (s_rgCredProvFieldDescriptors ! i) = i"
  by (auto simp: SFI_NUM_FIELDS_def s_rgCredProvFieldDescriptors_def less_Suc_eq numeral_eq_Suc)

lemma sample_field_types:
  "cd_cpft (s_rgCredProvFieldDescriptors ! sfi f) \<in> {CPFT_EDIT_TEXT, CPFT_PASSWORD_TEXT}
     \<longleftrightarrow> f = SFI_PASSWORD"
  by (cases f) (simp_all add: s_rgCredProvFieldDescriptors_def)

lemma labels_present: "cd \<in> set s_rgCredProvFieldDescriptors \<Longrightarrow> cd_pszLabel cd \<noteq> None"
  by (auto simp: s_rgCredProvFieldDescriptors_def)

text \<open>The usage scenarios a provider is asked for.\<close>

datatype cpus = CPUS_INVALID | CPUS_LOGON | CPUS_UNLOCK_WORKSTATION | CPUS_CHANGE_PASSWORD
  | CPUS_CREDUI | CPUS_PLAP

end
