(* ===== verification/Helpers.thy ===== *)
theory Helpers
  imports Common
begin

text \<open>
  \<open>helpers.cpp\<close>: copying field descriptors, building and packing the
  \<open>KERB_INTERACTIVE_UNLOCK_LOGON\<close> that Winlogon consumes, looking up the
  authentication package, protecting the password.

  The services behind it are parameters: \<open>dup_null\<close> is what \<open>SHStrDupW\<close> returns for
  a null source, \<open>cred_api\<close> the answers of \<open>CredProtectW\<close> and
  \<open>CredIsProtectedW\<close>, \<open>lsa_api\<close> those of the local security authority.
\<close>

section \<open>Field descriptors\<close>

definition FieldDescriptorCoAllocCopy ::
  "HRESULT \<Rightarrow> const_descriptor \<Rightarrow> heap \<Rightarrow> (HRESULT \<times> ptr \<times> heap) res" where
  "FieldDescriptorCoAllocCopy dup_null rcpfd h =
     (let (pcpfd, h1) = task_alloc BRaw h
      in case pcpfd of
           Some a \<Rightarrow>
             (let (hr, label, h2) =
                    (case cd_pszLabel rcpfd of
                       Some l \<Rightarrow> SHStrDupW dup_null (Some l) h1
                     | None \<Rightarrow> (S_OK, None, h1));
                  h3 = task_write a (BDesc \<lparr>dwFieldID = of_nat (cd_dwFieldID rcpfd),
                         cpft_of = cd_cpft rcpfd, pszLabel = label\<rparr>) h2
              in if SUCCEEDED hr then Inr (hr, Some a, h3)
                 else bind_res (CoTaskMemFree (Some a) h3) (\<lambda>h4. Inr (hr, None, h4)))
         | None \<Rightarrow> bind_res (CoTaskMemFree None h1) (\<lambda>h2. Inr (E_OUTOFMEMORY, None, h2)))"

text \<open>The descriptor is stored through \<open>pcpfd\<close> on success only.\<close>

definition FieldDescriptorCopy ::
  "HRESULT \<Rightarrow> const_descriptor \<Rightarrow> heap \<Rightarrow> HRESULT \<times> field_descriptor option \<times> heap" where
  "FieldDescriptorCopy dup_null rcpfd h =
     (let (hr, label, h1) =
            (case cd_pszLabel rcpfd of
               Some l \<Rightarrow> SHStrDupW dup_null (Some l) h
             | None \<Rightarrow> (S_OK, None, h));
          cpfd = \<lparr>dwFieldID = of_nat (cd_dwFieldID rcpfd), cpft_of = cd_cpft rcpfd, pszLabel = label\<rparr>
      in (hr, if SUCCEEDED hr then Some cpfd else None, h1))"

section \<open>Building the logon structure\<close>

text \<open>
  A \<open>UNICODE_STRING\<close> that refers to a string elsewhere: \<open>us_Buffer\<close> is that string.
\<close>

record UNICODE_STRING =
  us_Length :: "16 word"
  us_MaximumLength :: "16 word"
  us_Buffer :: "wstr option"

definition zero_unicode_string :: UNICODE_STRING where
  "zero_unicode_string = \<lparr>us_Length = 0, us_MaximumLength = 0, us_Buffer = None\<rparr>"

definition UnicodeStringInitWithString ::
  "wstr option \<Rightarrow> UNICODE_STRING \<Rightarrow> HRESULT \<times> UNICODE_STRING" where
  "UnicodeStringInitWithString pwz pus =
     (case pwz of
        Some s \<Rightarrow>
          (let (hr, lenString) = StringCchLengthW pwz USHORT_MAX
           in if SUCCEEDED hr then
                (let (hr, usCharCount) = SizeTToUShort lenString
                 in if SUCCEEDED hr then
                      (let (hr, usSize) = SizeTToUShort 2
                       in if SUCCEEDED hr then
                            (let (hr, len) = UShortMult usCharCount usSize;
                                 pus1 = pus\<lparr>us_Length := len\<rparr>
                             in if SUCCEEDED hr
                                then (S_OK, pus1\<lparr>us_MaximumLength := us_Length pus1, us_Buffer := pwz\<rparr>)
                                else (HRESULT_FROM_WIN32 ERROR_ARITHMETIC_OVERFLOW, pus1))
                          else (hr, pus))
                    else (hr, pus))
              else (hr, pus))
      | None \<Rightarrow> (E_INVALIDARG, pus))"

text \<open>The values of \<open>KERB_LOGON_SUBMIT_TYPE\<close> the source uses.\<close>

definition KerbInteractiveLogon :: "32 word" where "KerbInteractiveLogon = 2"
definition KerbWorkstationUnlockLogon :: "32 word" where "KerbWorkstationUnlockLogon = 7"

record KERB_INTERACTIVE_UNLOCK_LOGON =
  kil_MessageType :: "32 word"
  kil_LogonDomainName :: UNICODE_STRING
  kil_UserName :: UNICODE_STRING
  kil_Password :: UNICODE_STRING
  kiul_LogonId :: "64 word"

definition zero_kiul :: KERB_INTERACTIVE_UNLOCK_LOGON where
  "zero_kiul = \<lparr>kil_MessageType = 0, kil_LogonDomainName = zero_unicode_string,
     kil_UserName = zero_unicode_string, kil_Password = zero_unicode_string, kiul_LogonId = 0\<rparr>"

text \<open>The structure is stored through \<open>pkiul\<close> on success only.\<close>

definition KerbInteractiveUnlockLogonInit ::
  "wstr option \<Rightarrow> wstr option \<Rightarrow> wstr option \<Rightarrow> cpus \<Rightarrow> HRESULT \<times> KERB_INTERACTIVE_UNLOCK_LOGON option" where
  "KerbInteractiveUnlockLogonInit pwzDomain pwzUsername pwzPassword cpus =
     (let kiul = zero_kiul;
          (hr, dom) = UnicodeStringInitWithString pwzDomain (kil_LogonDomainName kiul)
      in if SUCCEEDED hr then
           (let (hr, usr) = UnicodeStringInitWithString pwzUsername (kil_UserName kiul)
            in if SUCCEEDED hr then
                 (let (hr, pwd) = UnicodeStringInitWithString pwzPassword (kil_Password kiul)
                  in if SUCCEEDED hr then
                       (let (hr, mt) = (case cpus of
                              CPUS_UNLOCK_WORKSTATION \<Rightarrow> (S_OK, KerbWorkstationUnlockLogon)
                            | CPUS_LOGON \<Rightarrow> (S_OK, KerbInteractiveLogon)
                            | CPUS_CREDUI \<Rightarrow> (S_OK, 0)
                            | _ \<Rightarrow> (E_FAIL, kil_MessageType kiul))
                        in if SUCCEEDED hr
                           then (hr, Some (kiul\<lparr>kil_MessageType := mt, kil_LogonDomainName := dom,
                                   kil_UserName := usr, kil_Password := pwd\<rparr>))
                           else (hr, None))
                     else (hr, None))
               else (hr, None))
         else (hr, None))"

section \<open>Packing it\<close>

text \<open>
  In the packed form \<open>Buffer\<close> is a byte offset into the whole buffer. The model keeps
  the structure's members as a record and the bytes behind it, the extra space, as a list;
  \<open>sz\<close> is \<open>sizeof(KERB_INTERACTIVE_UNLOCK_LOGON)\<close>, which depends on the target.
\<close>

record packed_string =
  ps_Length :: "16 word"
  ps_MaximumLength :: "16 word"
  ps_Buffer :: nat

record packed_logon =
  pk_MessageType :: "32 word"
  pk_LogonDomainName :: packed_string
  pk_UserName :: packed_string
  pk_Password :: packed_string
  pk_LogonId :: "64 word"
  pk_extra :: "8 word list"

text \<open>The bytes of a wide string, low byte first.\<close>

definition le16 :: "16 word \<Rightarrow> 8 word list" where
  "le16 w = [ucast w, ucast (drop_bit 8 w)]"

definition wstr_bytes :: "wstr \<Rightarrow> 8 word list" where
  "wstr_bytes s = concat (map le16 s)"

definition copy_bytes :: "'a list \<Rightarrow> nat \<Rightarrow> 'a list \<Rightarrow> 'a list" where
  "copy_bytes dst off src = take off dst @ src @ drop (off + length src) dst"

text \<open>
  \<open>_UnicodeStringPackedUnicodeStringCopy\<close> with the position in the extra space; the
  bytes readable behind \<open>rus.Buffer\<close> are the string and its terminator.
\<close>

definition UnicodeStringPackedUnicodeStringCopy ::
  "UNICODE_STRING \<Rightarrow> nat \<Rightarrow> 8 word list \<Rightarrow> (packed_string \<times> 8 word list) res" where
  "UnicodeStringPackedUnicodeStringCopy rus pos extra =
     (let n = unat (us_Length rus);
          src = (case us_Buffer rus of None \<Rightarrow> [] | Some s \<Rightarrow> wstr_bytes s @ [0, 0])
      in if n \<le> length src \<and> pos + n \<le> length extra
         then Inr (\<lparr>ps_Length = us_Length rus, ps_MaximumLength = us_Length rus, ps_Buffer = pos\<rparr>,
                   copy_bytes extra pos (take n src))
         else Inl OutOfBounds)"

text \<open>
  \<open>junk\<close> is what the fresh allocation holds. On success the result is the new block, the
  packed structure and its size.
\<close>

definition KerbInteractiveUnlockLogonPack ::
  "nat \<Rightarrow> (nat \<Rightarrow> 8 word) \<Rightarrow> KERB_INTERACTIVE_UNLOCK_LOGON \<Rightarrow> heap \<Rightarrow>
     (HRESULT \<times> (addr \<times> packed_logon \<times> DWORD) option \<times> heap) res" where
  "KerbInteractiveUnlockLogonPack sz junk rkiulIn h =
     (let cb = (of_nat sz + ucast (us_Length (kil_LogonDomainName rkiulIn)) +
                ucast (us_Length (kil_UserName rkiulIn)) +
                ucast (us_Length (kil_Password rkiulIn)) :: DWORD);
          (pkiulOut, h1) = task_alloc BRaw h
      in case pkiulOut of
           None \<Rightarrow> Inr (E_OUTOFMEMORY, None, h1)
         | Some a \<Rightarrow>
             (let pbBuffer = 0;
                  extra = map junk [0..<unat cb - sz]
              in bind_res (UnicodeStringPackedUnicodeStringCopy (kil_LogonDomainName rkiulIn) pbBuffer extra)
                 (\<lambda>(d, extra).
                 let d = d\<lparr>ps_Buffer := sz + pbBuffer\<rparr>;
                     pbBuffer = pbBuffer + unat (ps_Length d)
                 in bind_res (UnicodeStringPackedUnicodeStringCopy (kil_UserName rkiulIn) pbBuffer extra)
                 (\<lambda>(u, extra).
                 let u = u\<lparr>ps_Buffer := sz + pbBuffer\<rparr>;
                     pbBuffer = pbBuffer + unat (ps_Length u)
                 in bind_res (UnicodeStringPackedUnicodeStringCopy (kil_Password rkiulIn) pbBuffer extra)
                 (\<lambda>(p, extra).
                 let p = p\<lparr>ps_Buffer := sz + pbBuffer\<rparr>
                 in Inr (S_OK,
                      Some (a, \<lparr>pk_MessageType = kil_MessageType rkiulIn, pk_LogonDomainName = d,
                                pk_UserName = u, pk_Password = p, pk_LogonId = 0, pk_extra = extra\<rparr>, cb),
                      task_write a (BBytes extra) h1))))))"

section \<open>The authentication package\<close>

record LSA_STRING =
  ls_Length :: "16 word"
  ls_MaximumLength :: "16 word"
  ls_Buffer :: string

definition LsaInitString :: "LSA_STRING option \<Rightarrow> string \<Rightarrow> HRESULT \<times> LSA_STRING option" where
  "LsaInitString dst src =
     (let (hr, cch) = (if length (c_str src) < USHORT_MAX then (S_OK, length (c_str src)) else (E_INVALIDARG, 0))
      in if SUCCEEDED hr then
           (let (hr, usLength) = SizeTToUShort cch
            in if SUCCEEDED hr
               then (S_OK, Some \<lparr>ls_Length = usLength, ls_MaximumLength = usLength + 1, ls_Buffer = src\<rparr>)
               else (hr, dst))
         else (hr, dst))"

text \<open>
  The LSA's answers: the status of the connection, and the status and package number of a
  look-up of a name (\<open>None\<close>: the uninitialised name).
\<close>

record lsa_api =
  lsa_connect :: NTSTATUS
  lsa_lookup :: "LSA_STRING option \<Rightarrow> NTSTATUS \<times> 32 word"

definition NEGOSSP_NAME :: string where "NEGOSSP_NAME = ''Negotiate''"

text \<open>The result, the package stored through the pointer, the LSA handles left open.\<close>

definition RetrieveNegotiateAuthPackage :: "lsa_api \<Rightarrow> HRESULT \<times> 32 word option \<times> nat" where
  "RetrieveNegotiateAuthPackage api =
     (let status = lsa_connect api
      in if SUCCEEDED (HRESULT_FROM_NT status) then
           (let handles = (1::nat);
                name = snd (LsaInitString None NEGOSSP_NAME);
                (status, ulAuthPackage) = lsa_lookup api name;
                (hr, out) = (if SUCCEEDED (HRESULT_FROM_NT status) then (S_OK, Some ulAuthPackage)
                             else (HRESULT_FROM_NT status, None))
            in (hr, out, handles - 1))
         else (HRESULT_FROM_NT status, None, 0))"

section \<open>Protecting the password\<close>

datatype CRED_PROTECTION_TYPE = CredUnprotected | CredUserProtection | CredTrustedProtection
  | CredForSystemProtection

text \<open>
  \<open>protect_size\<close>: the first call, with no output buffer: whether it returned true, the
  last error, the size it reported. \<open>protect_fill\<close>: the second call with a buffer of
  that size: the protected text or nothing, and the last error. \<open>is_protected\<close>: the
  protection type when \<open>CredIsProtectedW\<close> succeeds.
\<close>

record cred_api =
  protect_size :: "wstr \<Rightarrow> bool \<times> 32 word \<times> DWORD"
  protect_fill :: "wstr \<Rightarrow> DWORD \<Rightarrow> wstr option \<times> 32 word"
  is_protected :: "wstr \<Rightarrow> CRED_PROTECTION_TYPE option"

definition ERROR_INSUFFICIENT_BUFFER :: "32 word" where "ERROR_INSUFFICIENT_BUFFER = 122"

definition ProtectAndCopyString :: "cred_api \<Rightarrow> wstr \<Rightarrow> heap \<Rightarrow> (HRESULT \<times> ptr \<times> heap) res" where
  "ProtectAndCopyString api pwz h =
     (let (ok, dwErr, cchProtected) = protect_size api pwz
      in if \<not> ok then
           (if ERROR_INSUFFICIENT_BUFFER = dwErr \<and> 0 < cchProtected then
              (let (pwzProtected, h1) = task_alloc BRaw h
               in case pwzProtected of
                    Some a \<Rightarrow>
                      (case protect_fill api pwz cchProtected of
                         (Some t, _) \<Rightarrow> Inr (S_OK, Some a, task_write a (BStr t) h1)
                       | (None, dwErr) \<Rightarrow>
                           bind_res (CoTaskMemFree (Some a) h1)
                             (\<lambda>h2. Inr (HRESULT_FROM_WIN32 dwErr, None, h2)))
                  | None \<Rightarrow> Inr (E_OUTOFMEMORY, None, h1))
            else Inr (HRESULT_FROM_WIN32 dwErr, None, h))
         else Inr (E_FAIL, None, h))"

definition ProtectIfNecessaryAndCopyPassword ::
  "HRESULT \<Rightarrow> cred_api \<Rightarrow> wstr option \<Rightarrow> cpus \<Rightarrow> heap \<Rightarrow> (HRESULT \<times> ptr \<times> heap) res" where
  "ProtectIfNecessaryAndCopyPassword dup_null api pwzPassword cpus h =
     (case pwzPassword of
        Some (c # cs) \<Rightarrow>
          (let bCredAlreadyEncrypted =
                 (case is_protected api (c # cs) of
                    Some protectionType \<Rightarrow> CredUnprotected \<noteq> protectionType
                  | None \<Rightarrow> False)
           in if CPUS_CREDUI = cpus \<or> bCredAlreadyEncrypted
              then Inr (SHStrDupW dup_null pwzPassword h)
              else ProtectAndCopyString api (c # cs) h)
      | _ \<Rightarrow> Inr (SHStrDupW dup_null (Some []) h))"

end
