(* ===== verification/Helpers_Correct.thy ===== *)
theory Helpers_Correct
  imports Helpers
begin

text \<open>
  What \<open>helpers.cpp\<close> guarantees: the length limits of the logon strings, the round trip
  through the packed logon structure, and the allocation behaviour of the copying
  functions (a fresh block on success, nothing leaked on failure).
\<close>

section \<open>Bytes of wide strings\<close>

fun bytes_wstr :: "8 word list \<Rightarrow> wstr" where
  "bytes_wstr (a # b # r) = (ucast a OR push_bit 8 (ucast b)) # bytes_wstr r"
| "bytes_wstr _ = []"

lemma length_wstr_bytes [simp]: "length (wstr_bytes s) = 2 * length s"
  by (induction s) (auto simp: wstr_bytes_def le16_def)

lemma le16_inverse: "(ucast (ucast w :: 8 word) :: 16 word) OR push_bit 8 (ucast (ucast (drop_bit 8 w) :: 8 word)) = w"
  by (rule bit_word_eqI) (auto simp: bit_simps)

lemma bytes_wstr_bytes [simp]: "bytes_wstr (wstr_bytes s) = s"
  by (induction s) (simp_all add: wstr_bytes_def le16_def le16_inverse)

lemma copy_bytes_middle:
  "length dn = off \<Longrightarrow> length src \<le> length rest \<Longrightarrow>
     copy_bytes (dn @ rest) off src = (dn @ src) @ drop (length src) rest"
  by (simp add: copy_bytes_def)

section \<open>The logon structure\<close>

lemma unat_of_nat16: "n < 65536 \<Longrightarrow> unat (of_nat n :: 16 word) = n"
  by (simp add: unat_of_nat)

lemma twice_of_nat: "(of_nat n :: 16 word) * 2 = of_nat (2 * n)"
  by simp

lemma UnicodeStringInit_ok:
  assumes "length s < 32768"
  shows "UnicodeStringInitWithString (Some s) pus =
    (S_OK, pus\<lparr>us_Length := of_nat (2 * length s), us_MaximumLength := of_nat (2 * length s),
       us_Buffer := Some s\<rparr>)"
  using assms
  by (simp add: UnicodeStringInitWithString_def StringCchLengthW_def SizeTToUShort_def
      UShortMult_def USHORT_MAX_def unat_of_nat16)

lemma UnicodeStringInit_fails:
  assumes "\<not> length s < 32768"
  shows "\<not> SUCCEEDED (fst (UnicodeStringInitWithString (Some s) pus))"
proof (cases "length s < USHORT_MAX")
  case True
  then have "unat (of_nat (length s) :: 16 word) = length s"
    by (simp add: USHORT_MAX_def unat_of_nat16)
  with True assms show ?thesis
    by (simp add: UnicodeStringInitWithString_def StringCchLengthW_def SizeTToUShort_def
        UShortMult_def USHORT_MAX_def)
next
  case False
  then show ?thesis by (simp add: UnicodeStringInitWithString_def StringCchLengthW_def)
qed

lemma UnicodeStringInit_null: "UnicodeStringInitWithString None pus = (E_INVALIDARG, pus)"
  by (simp add: UnicodeStringInitWithString_def)

text \<open>The strings \<open>UNICODE_STRING\<close> can carry: 32767 characters at most.\<close>

definition fits_unicode_string :: "wstr option \<Rightarrow> bool" where
  "fits_unicode_string pwz = (case pwz of None \<Rightarrow> False | Some s \<Rightarrow> length s < 32768)"

definition as_unicode_string :: "wstr \<Rightarrow> UNICODE_STRING" where
  "as_unicode_string s = \<lparr>us_Length = of_nat (2 * length s), us_MaximumLength = of_nat (2 * length s),
     us_Buffer = Some s\<rparr>"

lemma UnicodeStringInit_cases:
  "fits_unicode_string pwz \<Longrightarrow>
     UnicodeStringInitWithString pwz zero_unicode_string = (S_OK, as_unicode_string (the pwz))"
  "\<not> fits_unicode_string pwz \<Longrightarrow>
     \<not> SUCCEEDED (fst (UnicodeStringInitWithString pwz pus))"
  using UnicodeStringInit_fails
  by (auto simp: fits_unicode_string_def UnicodeStringInit_ok UnicodeStringInit_null
      as_unicode_string_def zero_unicode_string_def split: option.splits)

text \<open>The message type of a scenario; \<open>None\<close> where \<open>Init\<close> refuses it.\<close>

fun message_type :: "cpus \<Rightarrow> 32 word option" where
  "message_type CPUS_UNLOCK_WORKSTATION = Some KerbWorkstationUnlockLogon"
| "message_type CPUS_LOGON = Some KerbInteractiveLogon"
| "message_type CPUS_CREDUI = Some 0"
| "message_type _ = None"

definition logon_of :: "32 word \<Rightarrow> wstr \<Rightarrow> wstr \<Rightarrow> wstr \<Rightarrow> KERB_INTERACTIVE_UNLOCK_LOGON" where
  "logon_of mt d u p = \<lparr>kil_MessageType = mt, kil_LogonDomainName = as_unicode_string d,
     kil_UserName = as_unicode_string u, kil_Password = as_unicode_string p, kiul_LogonId = 0\<rparr>"

lemma logon_init_cases:
  shows "fits_unicode_string d \<Longrightarrow> fits_unicode_string u \<Longrightarrow> fits_unicode_string p \<Longrightarrow>
      message_type cpus = Some mt \<Longrightarrow>
      KerbInteractiveUnlockLogonInit d u p cpus = (S_OK, Some (logon_of mt (the d) (the u) (the p)))"
    and "\<not> (fits_unicode_string d \<and> fits_unicode_string u \<and> fits_unicode_string p \<and>
        message_type cpus \<noteq> None) \<Longrightarrow>
      \<exists>hr. \<not> SUCCEEDED hr \<and> KerbInteractiveUnlockLogonInit d u p cpus = (hr, None)"
  using UnicodeStringInit_cases(2) [of d zero_unicode_string]
    UnicodeStringInit_cases(2) [of u zero_unicode_string]
    UnicodeStringInit_cases(2) [of p zero_unicode_string]
  by (auto simp: KerbInteractiveUnlockLogonInit_def zero_kiul_def UnicodeStringInit_cases(1) Let_def
      logon_of_def split: prod.splits if_splits cpus.splits)

text \<open>C15: \<open>KerbInteractiveUnlockLogonInit\<close> succeeds exactly when domain, user name and
  password are non-null strings of at most 32767 characters (the limit a 16-bit byte count
  imposes) and the scenario is logon, unlock or CredUI; it then stores the structure with the
  byte lengths, the strings and the message type of the scenario, and it stores nothing when it
  fails.\<close>

theorem logon_init_spec:
  "KerbInteractiveUnlockLogonInit d u p cpus = (hr, out) \<Longrightarrow>
     (SUCCEEDED hr \<longleftrightarrow> out \<noteq> None) \<and>
     (out = (if fits_unicode_string d \<and> fits_unicode_string u \<and> fits_unicode_string p
             then map_option (\<lambda>mt. \<lparr>kil_MessageType = mt,
                    kil_LogonDomainName = as_unicode_string (the d),
                    kil_UserName = as_unicode_string (the u),
                    kil_Password = as_unicode_string (the p), kiul_LogonId = 0\<rparr>) (message_type cpus)
             else None))"
  using logon_init_cases [of d u p cpus] by (cases "message_type cpus") (auto simp: logon_of_def)

theorem logon_init_spec_witness:
  "SUCCEEDED (fst (KerbInteractiveUnlockLogonInit (Some [65]) (Some [66, 67]) (Some []) CPUS_LOGON))
   \<and> snd (KerbInteractiveUnlockLogonInit (Some [65]) None (Some []) CPUS_LOGON) = None"
proof -
  obtain hr out where r: "KerbInteractiveUnlockLogonInit (Some [65]) (Some [66, 67]) (Some []) CPUS_LOGON = (hr, out)"
    by (cases "KerbInteractiveUnlockLogonInit (Some [65]) (Some [66, 67]) (Some []) CPUS_LOGON")
  obtain hr' out' where r': "KerbInteractiveUnlockLogonInit (Some [65]) None (Some []) CPUS_LOGON = (hr', out')"
    by (cases "KerbInteractiveUnlockLogonInit (Some [65]) None (Some []) CPUS_LOGON")
  show ?thesis using logon_init_spec [OF r] logon_init_spec [OF r'] r r'
    by (simp add: fits_unicode_string_def)
qed


section \<open>Packing\<close>

text \<open>
  Reading a member of the packed structure back, the way \<open>helpers.cpp\<close> documents the
  format: \<open>Length\<close> bytes at the byte offset \<open>Buffer\<close> of the whole buffer.
\<close>

definition read_packed :: "nat \<Rightarrow> packed_logon \<Rightarrow> packed_string \<Rightarrow> wstr" where
  "read_packed sz pk ps = bytes_wstr (take (unat (ps_Length ps)) (drop (ps_Buffer ps - sz) (pk_extra pk)))"

lemma packed_copy_step:
  assumes "length s < 32768" and "length dn = pos" and "2 * length s \<le> length rest"
  shows "UnicodeStringPackedUnicodeStringCopy (as_unicode_string s) pos (dn @ rest) =
    Inr (\<lparr>ps_Length = of_nat (2 * length s), ps_MaximumLength = of_nat (2 * length s), ps_Buffer = pos\<rparr>,
         (dn @ wstr_bytes s) @ drop (2 * length s) rest)"
proof -
  have u: "unat (of_nat (2 * length s) :: 16 word) = 2 * length s"
    using assms(1) by (intro unat_of_nat16) simp
  have t: "take (2 * length s) (wstr_bytes s @ [0, 0]) = wstr_bytes s" by simp
  have c: "copy_bytes (dn @ rest) pos (wstr_bytes s) = (dn @ wstr_bytes s) @ drop (2 * length s) rest"
    using copy_bytes_middle [of dn pos "wstr_bytes s" rest] assms by simp
  show ?thesis using assms(2,3)
    by (simp add: UnicodeStringPackedUnicodeStringCopy_def as_unicode_string_def u t c
        Let_def del: of_nat_mult of_nat_add append_assoc)
qed

definition packed_size :: "nat \<Rightarrow> wstr \<Rightarrow> wstr \<Rightarrow> wstr \<Rightarrow> nat" where
  "packed_size sz d u p = sz + 2 * length d + 2 * length u + 2 * length p"

lemma packed_cb:
  assumes "sz \<le> 65536" and "length d < 32768" and "length u < 32768" and "length p < 32768"
  shows "unat (of_nat sz + ucast (us_Length (as_unicode_string d)) + ucast (us_Length (as_unicode_string u))
     + ucast (us_Length (as_unicode_string p)) :: DWORD) = packed_size sz d u p"
proof -
  have e: "(ucast (of_nat (2 * length s) :: 16 word) :: 32 word) = of_nat (2 * length s)"
    if "length s < 32768" for s :: wstr
  proof -
    have "(of_nat (unat (of_nat (2 * length s) :: 16 word)) :: 32 word) = of_nat (2 * length s)"
      using that by (subst unat_of_nat16) auto
    then show ?thesis by (metis of_nat_unat)
  qed
  have "(of_nat sz + ucast (us_Length (as_unicode_string d)) + ucast (us_Length (as_unicode_string u))
     + ucast (us_Length (as_unicode_string p)) :: DWORD) = of_nat (packed_size sz d u p)"
    using e [OF assms(2)] e [OF assms(3)] e [OF assms(4)]
    by (simp add: as_unicode_string_def packed_size_def)
  moreover have "packed_size sz d u p < 2 ^ 32"
    using assms by (simp add: packed_size_def)
  ultimately show ?thesis by (simp add: unat_of_nat)
qed

definition packed_at :: "wstr \<Rightarrow> nat \<Rightarrow> packed_string" where
  "packed_at s off = \<lparr>ps_Length = of_nat (2 * length s), ps_MaximumLength = of_nat (2 * length s),
     ps_Buffer = off\<rparr>"

text \<open>The result of packing, with the whole layout.\<close>

definition packed_of :: "nat \<Rightarrow> 32 word \<Rightarrow> wstr \<Rightarrow> wstr \<Rightarrow> wstr \<Rightarrow> packed_logon" where
  "packed_of sz mt d u p = \<lparr>pk_MessageType = mt, pk_LogonDomainName = packed_at d sz,
     pk_UserName = packed_at u (sz + 2 * length d),
     pk_Password = packed_at p (sz + (2 * length d + 2 * length u)),
     pk_LogonId = 0, pk_extra = wstr_bytes d @ wstr_bytes u @ wstr_bytes p\<rparr>"

lemma pack_eq:
  assumes sz: "sz \<le> 65536" and d: "length d < 32768" and u: "length u < 32768" and p: "length p < 32768"
    and alloc: "\<not> hp_fails h (hp_next h)"
  shows "\<exists>cb. KerbInteractiveUnlockLogonPack sz junk (logon_of mt d u p) h =
      Inr (S_OK, Some (hp_next h, packed_of sz mt d u p, cb),
        task_write (hp_next h) (BBytes (wstr_bytes d @ wstr_bytes u @ wstr_bytes p))
          (snd (task_alloc BRaw h))) \<and>
      unat cb = packed_size sz d u p"
proof -
  let ?cb = "of_nat sz + ucast (us_Length (as_unicode_string d)) + ucast (us_Length (as_unicode_string u))
     + ucast (us_Length (as_unicode_string p)) :: DWORD"
  have cb: "unat ?cb = packed_size sz d u p" by (rule packed_cb [OF sz d u p])
  define extra where "extra = map junk [0..<unat ?cb - sz]"
  have ex: "length extra = 2 * length d + 2 * length u + 2 * length p"
    by (simp add: extra_def cb packed_size_def)
  have l: "unat (of_nat (2 * length s) :: 16 word) = 2 * length s" if "length s < 32768" for s :: wstr
    using that by (intro unat_of_nat16) simp
  let ?C = "UnicodeStringPackedUnicodeStringCopy"
  have s1: "?C (as_unicode_string d) 0 extra = Inr (packed_at d 0, wstr_bytes d @ drop (2 * length d) extra)"
    using packed_copy_step [OF d, of "[]" 0 extra] ex by (simp add: packed_at_def)
  have s2: "?C (as_unicode_string u) (2 * length d) (wstr_bytes d @ drop (2 * length d) extra) =
      Inr (packed_at u (2 * length d), wstr_bytes d @ wstr_bytes u @ drop (2 * length d + 2 * length u) extra)"
    using packed_copy_step [OF u, of "wstr_bytes d" "2 * length d" "drop (2 * length d) extra"] ex
    by (simp add: packed_at_def add.commute)
  have s3: "?C (as_unicode_string p) (2 * length d + 2 * length u)
        (wstr_bytes d @ wstr_bytes u @ drop (2 * length d + 2 * length u) extra) =
      Inr (packed_at p (2 * length d + 2 * length u), wstr_bytes d @ wstr_bytes u @ wstr_bytes p)"
    using packed_copy_step [OF p, of "wstr_bytes d @ wstr_bytes u" "2 * length d + 2 * length u"
        "drop (2 * length d + 2 * length u) extra"] ex
    by (simp add: packed_at_def)
  have lens: "unat (ps_Length (packed_at d off)) = 2 * length d"
    "unat (ps_Length (packed_at u off)) = 2 * length u"
    and off: "(packed_at w off)\<lparr>ps_Buffer := off'\<rparr> = packed_at w off'" for off off' w
    using l [OF d] l [OF u] by (simp_all add: packed_at_def del: of_nat_mult)
  have "KerbInteractiveUnlockLogonPack sz junk (logon_of mt d u p) h =
      Inr (S_OK, Some (hp_next h, packed_of sz mt d u p, ?cb),
        task_write (hp_next h) (BBytes (wstr_bytes d @ wstr_bytes u @ wstr_bytes p))
          (snd (task_alloc BRaw h)))"
    using alloc
    by (simp add: KerbInteractiveUnlockLogonPack_def logon_of_def Let_def task_alloc_def
        extra_def [symmetric] packed_of_def s1 s2 s3 lens off)
  with cb show ?thesis by blast
qed

text \<open>Packing a logon that \<open>Init\<close> built: it fails only when its allocation does.\<close>

lemma pack_total:
  assumes "heap_ok h" and "sz \<le> 65536" and "length d < 32768" and "length u < 32768" and "length p < 32768"
  obtains (oom) h' where "KerbInteractiveUnlockLogonPack sz junk (logon_of mt d u p) h = Inr (E_OUTOFMEMORY, None, h')"
      and "heap_ok h'" and "hp_blocks h' = hp_blocks h" and "hp_fails h (hp_next h)"
    | (ok) cb h' bs where "KerbInteractiveUnlockLogonPack sz junk (logon_of mt d u p) h =
        Inr (S_OK, Some (hp_next h, packed_of sz mt d u p, cb), h')"
      and "heap_ok h'" and "hp_blocks h' = (hp_blocks h)(hp_next h \<mapsto> BBytes bs)"
      and "unat cb = packed_size sz d u p"
proof (cases "hp_fails h (hp_next h)")
  case True
  then show ?thesis using assms(1)
    by (intro oom [of "h\<lparr>hp_next := Suc (hp_next h)\<rparr>"])
      (auto simp: KerbInteractiveUnlockLogonPack_def task_alloc_def Let_def heap_ok_def)
next
  case False
  let ?bs = "wstr_bytes d @ wstr_bytes u @ wstr_bytes p"
  obtain cb where r: "KerbInteractiveUnlockLogonPack sz junk (logon_of mt d u p) h =
      Inr (S_OK, Some (hp_next h, packed_of sz mt d u p, cb),
        task_write (hp_next h) (BBytes ?bs) (snd (task_alloc BRaw h)))"
    and cb: "unat cb = packed_size sz d u p"
    using pack_eq [OF assms(2-5) False] by blast
  show ?thesis using False assms(1)
    by (intro ok [OF r _ _ cb, of ?bs]) (auto simp: task_write_def task_alloc_def heap_ok_def)
qed

lemma read_packed_of:
  assumes "length d < 32768" and "length u < 32768" and "length p < 32768"
  shows "read_packed sz (packed_of sz mt d u p) (pk_LogonDomainName (packed_of sz mt d u p)) = d"
    and "read_packed sz (packed_of sz mt d u p) (pk_UserName (packed_of sz mt d u p)) = u"
    and "read_packed sz (packed_of sz mt d u p) (pk_Password (packed_of sz mt d u p)) = p"
proof -
  have l: "unat (of_nat (2 * length s) :: 16 word) = 2 * length s" if "length s < 32768" for s :: wstr
    using that by (intro unat_of_nat16) simp
  show "read_packed sz (packed_of sz mt d u p) (pk_LogonDomainName (packed_of sz mt d u p)) = d"
    and "read_packed sz (packed_of sz mt d u p) (pk_UserName (packed_of sz mt d u p)) = u"
    and "read_packed sz (packed_of sz mt d u p) (pk_Password (packed_of sz mt d u p)) = p"
    using l [OF assms(1)] l [OF assms(2)] l [OF assms(3)]
    by (simp_all add: read_packed_def packed_of_def packed_at_def del: of_nat_mult)
qed

text \<open>C6: the packed logon round trip. For three strings \<open>Init\<close> accepts (at most 32767
  characters each) and a successful allocation, packing returns a buffer from which the documented
  reading (length bytes at a byte offset) gives back exactly the domain, the user name and the
  password, with the message type kept and the logon id zeroed; the strings lie one after the
  other behind the structure, they end at \<open>cb\<close>, the 32-bit size does not wrap, and every byte
  of the extra space is written, whatever the allocation held before.\<close>

theorem packed_logon_roundtrip:
  assumes "sz \<le> 65536" and "length d < 32768" and "length u < 32768" and "length p < 32768"
    and "\<not> hp_fails h (hp_next h)"
  shows "\<exists>a pk cb h'.
      KerbInteractiveUnlockLogonPack sz junk (logon_of mt d u p) h = Inr (S_OK, Some (a, pk, cb), h') \<and>
      read_packed sz pk (pk_LogonDomainName pk) = d \<and>
      read_packed sz pk (pk_UserName pk) = u \<and>
      read_packed sz pk (pk_Password pk) = p \<and>
      pk_MessageType pk = mt \<and> pk_LogonId pk = 0 \<and>
      ps_Buffer (pk_LogonDomainName pk) = sz \<and>
      ps_Buffer (pk_UserName pk) = sz + 2 * length d \<and>
      ps_Buffer (pk_Password pk) = sz + 2 * length d + 2 * length u \<and>
      unat cb = sz + length (pk_extra pk) \<and>
      unat cb = ps_Buffer (pk_Password pk) + unat (ps_Length (pk_Password pk))"
proof -
  obtain cb h' where r: "KerbInteractiveUnlockLogonPack sz junk (logon_of mt d u p) h =
      Inr (S_OK, Some (hp_next h, packed_of sz mt d u p, cb), h')"
    and cb: "unat cb = packed_size sz d u p"
    using pack_eq [OF assms] by blast
  have l: "unat (of_nat (2 * length s) :: 16 word) = 2 * length s" if "length s < 32768" for s :: wstr
    using that by (intro unat_of_nat16) simp
  note read_packed_of [OF assms(2-4), of sz mt]
  with r cb l [OF assms(4)] show ?thesis
    by (intro exI [of _ "hp_next h"] exI [of _ "packed_of sz mt d u p"] exI [of _ cb] exI [of _ h'])
      (simp add: packed_of_def packed_at_def packed_size_def del: of_nat_mult)
qed

theorem packed_logon_roundtrip_witness:
  "\<exists>a pk cb h'.
     KerbInteractiveUnlockLogonPack 64 (\<lambda>_. 255) (logon_of 2 [68, 79] [] [0x4e92]) (empty_heap (\<lambda>_. False))
       = Inr (S_OK, Some (a, pk, cb), h') \<and> read_packed 64 pk (pk_Password pk) = [0x4e92] \<and> unat cb = 70"
proof -
  have "(64::nat) \<le> 65536" "length ([68, 79] :: wstr) < 32768" "length ([] :: wstr) < 32768"
    "length ([0x4e92] :: wstr) < 32768"
    "\<not> hp_fails (empty_heap (\<lambda>_. False)) (hp_next (empty_heap (\<lambda>_. False)))"
    by (simp_all add: empty_heap_def)
  from packed_logon_roundtrip [OF this, of "\<lambda>_. 255" 2] obtain a pk cb h' where
    r: "KerbInteractiveUnlockLogonPack 64 (\<lambda>_. 255) (logon_of 2 [68, 79] [] [0x4e92]) (empty_heap (\<lambda>_. False))
        = Inr (S_OK, Some (a, pk, cb), h')"
      "read_packed 64 pk (pk_Password pk) = [0x4e92]" by blast
  have "unat cb = 70"
    using pack_eq [of 64 "[68, 79]" "[]" "[0x4e92]" "empty_heap (\<lambda>_. False)" "\<lambda>_. 255" 2] r(1)
    by (auto simp: empty_heap_def packed_size_def)
  with r show ?thesis by blast
qed


section \<open>Allocation behaviour\<close>

text \<open>
  A new string block \<open>a\<close> holding \<open>s\<close> and nothing else changed; the heap's blocks
  unchanged.
\<close>

definition adds_string :: "heap \<Rightarrow> heap \<Rightarrow> ptr \<Rightarrow> wstr \<Rightarrow> bool" where
  "adds_string h h' p s \<longleftrightarrow>
     (\<exists>a. p = Some a \<and> a \<notin> live h \<and> hp_blocks h' = (hp_blocks h)(a \<mapsto> BStr s))"

definition all_or_nothing :: "heap \<Rightarrow> HRESULT \<times> ptr \<times> heap \<Rightarrow> wstr \<Rightarrow> bool" where
  "all_or_nothing h r s \<longleftrightarrow>
     (case r of (hr, p, h') \<Rightarrow> heap_ok h' \<and>
        (if SUCCEEDED hr then adds_string h h' p s else p = None \<and> hp_blocks h' = hp_blocks h))"

lemma all_or_nothingI_fail:
  "heap_ok h' \<Longrightarrow> \<not> SUCCEEDED hr \<Longrightarrow> hp_blocks h' = hp_blocks h \<Longrightarrow> all_or_nothing h (hr, None, h') s"
  by (simp add: all_or_nothing_def)

lemma all_or_nothingI_ok:
  "heap_ok h' \<Longrightarrow> SUCCEEDED hr \<Longrightarrow> a \<notin> live h \<Longrightarrow> hp_blocks h' = (hp_blocks h)(a \<mapsto> BStr s) \<Longrightarrow>
     all_or_nothing h (hr, Some a, h') s"
  by (simp add: all_or_nothing_def adds_string_def)

lemmas all_or_nothingI = all_or_nothingI_fail all_or_nothingI_ok

lemma next_not_live: "heap_ok h \<Longrightarrow> hp_next h \<notin> live h"
  by (auto simp: live_def heap_ok_def)

lemma SHStrDupW_all_or_nothing: "heap_ok h \<Longrightarrow> all_or_nothing h (SHStrDupW n (Some s) h) s"
proof (cases "SHStrDupW n (Some s) h")
  case (fields hr p h')
  assume ok: "heap_ok h"
  from fields show ?thesis
    by (rule SHStrDupW_cases)
      (use fields ok next_not_live [OF ok] SHStrDupW_ok [OF ok fields] in
        \<open>auto simp: all_or_nothing_def adds_string_def\<close>)
qed

text \<open>\<open>FieldDescriptorCoAllocCopy\<close> never faults and never leaks: on success it returns
  a fresh descriptor block with the field's index, type and a fresh copy of its label, and leaves
  every other block alone; when either allocation fails it returns a null pointer and a failure
  code, and the live blocks are those it started with.\<close>

theorem field_descriptor_copy_all_or_nothing:
  assumes "heap_ok h"
  shows "\<exists>hr p h'. FieldDescriptorCoAllocCopy n cd h = Inr (hr, p, h') \<and> heap_ok h' \<and>
    (SUCCEEDED hr \<longleftrightarrow> \<not> hp_fails h (hp_next h) \<and>
       (cd_pszLabel cd = None \<or> \<not> hp_fails h (Suc (hp_next h)))) \<and>
    (if SUCCEEDED hr then
       (\<exists>a l. p = Some a \<and> a \<notin> live h \<and>
          (case cd_pszLabel cd of
             None \<Rightarrow> l = None \<and> hp_blocks h' = (hp_blocks h)(a \<mapsto> BDesc \<lparr>dwFieldID = of_nat (cd_dwFieldID cd),
                  cpft_of = cd_cpft cd, pszLabel = l\<rparr>)
           | Some s \<Rightarrow> (\<exists>b. l = Some b \<and> b \<notin> live h \<and> b \<noteq> a \<and>
                hp_blocks h' = (hp_blocks h)(a \<mapsto> BDesc \<lparr>dwFieldID = of_nat (cd_dwFieldID cd),
                  cpft_of = cd_cpft cd, pszLabel = l\<rparr>, b \<mapsto> BStr s))))
     else p = None \<and> hp_blocks h' = hp_blocks h)"
proof (cases "hp_fails h (hp_next h)")
  case True
  with assms show ?thesis
    by (simp add: FieldDescriptorCoAllocCopy_def task_alloc_def heap_ok_def)
next
  case False
  define a where "a = hp_next h"
  have fresh: "hp_blocks h a = None" "hp_blocks h (Suc a) = None" "a \<notin> live h" "Suc a \<notin> live h"
    using assms by (auto simp: a_def heap_ok_def live_def)
  have upd: "(hp_blocks h)(a := None) = hp_blocks h" using fresh by auto
  show ?thesis
  proof (cases "cd_pszLabel cd")
    case None
    with False assms fresh show ?thesis
      by (auto simp: FieldDescriptorCoAllocCopy_def task_alloc_def task_write_def heap_ok_def a_def)
  next
    case (Some s)
    show ?thesis
    proof (cases "hp_fails h (Suc a)")
      case True
      with False Some assms upd show ?thesis
        by (auto simp: FieldDescriptorCoAllocCopy_def SHStrDupW_def task_alloc_def task_write_def
            heap_ok_def CoTaskMemFree_def a_def)
    next
      case ok: False
      have tw: "(hp_blocks h)(a \<mapsto> BRaw, Suc a \<mapsto> x, a \<mapsto> y) = (hp_blocks h)(a \<mapsto> y, Suc a \<mapsto> x)" for x y
        by auto
      show ?thesis using False Some ok assms fresh
        by (auto simp: FieldDescriptorCoAllocCopy_def SHStrDupW_def task_alloc_def task_write_def
            heap_ok_def a_def [symmetric] tw intro!: exI [of _ a] exI [of _ "Suc a"])
    qed
  qed
qed

theorem field_descriptor_copy_all_or_nothing_witness:
  "heap_ok (empty_heap (\<lambda>k. k = 2)) \<and>
   (\<exists>hr p h'. FieldDescriptorCoAllocCopy 0 (s_rgCredProvFieldDescriptors ! 1) (empty_heap (\<lambda>k. k = 2))
      = Inr (hr, p, h') \<and> \<not> SUCCEEDED hr \<and> p = None)"
proof -
  have h: "heap_ok (empty_heap (\<lambda>k. k = 2))" by simp
  have "cd_pszLabel (s_rgCredProvFieldDescriptors ! 1) \<noteq> None"
    by (simp add: s_rgCredProvFieldDescriptors_def)
  with h field_descriptor_copy_all_or_nothing [OF h, of 0 "s_rgCredProvFieldDescriptors ! 1"]
  show ?thesis by (auto simp: empty_heap_def)
qed

section \<open>The password\<close>

text \<open>
  What the source relies on: a failing credential-protection call reports an error code, and
  error codes are positive.
\<close>

definition cred_api_ok :: "cred_api \<Rightarrow> bool" where
  "cred_api_ok api \<longleftrightarrow>
     (\<forall>s. \<not> fst (protect_size api s) \<longrightarrow> 0 < sint (fst (snd (protect_size api s)))) \<and>
     (\<forall>s n. fst (protect_fill api s n) = None \<longrightarrow> 0 < sint (snd (protect_fill api s n)))"

text \<open>
  The text a copy of the password holds: nothing for no password, the password itself for
  CredUI and when it is already encrypted, else what \<open>CredProtectW\<close> makes of it.
\<close>

definition already_encrypted :: "cred_api \<Rightarrow> wstr \<Rightarrow> bool" where
  "already_encrypted api s \<longleftrightarrow> is_protected api s \<notin> {None, Some CredUnprotected}"

definition protected_text :: "cred_api \<Rightarrow> cpus \<Rightarrow> wstr option \<Rightarrow> wstr" where
  "protected_text api cpus pwz =
     (case pwz of
        None \<Rightarrow> []
      | Some s \<Rightarrow> if s = [] then []
          else if cpus = CPUS_CREDUI \<or> already_encrypted api s then s
          else the (fst (protect_fill api s (snd (snd (protect_size api s))))))"

lemma ProtectAndCopyString_all_or_nothing:
  assumes "heap_ok h" and "cred_api_ok api"
  shows "\<exists>r. ProtectAndCopyString api s h = Inr r \<and>
    all_or_nothing h r (the (fst (protect_fill api s (snd (snd (protect_size api s))))))"
proof -
  obtain ok e n where sz: "protect_size api s = (ok, e, n)" by (cases "protect_size api s")
  obtain t e' where fl: "protect_fill api s n = (t, e')" by (cases "protect_fill api s n")
  have e: "\<not> ok \<Longrightarrow> \<not> SUCCEEDED (HRESULT_FROM_WIN32 e)"
    using assms(2) sz by (intro HRESULT_FROM_WIN32_fails) (auto simp: cred_api_ok_def dest: spec [of _ s])
  have e': "t = None \<Longrightarrow> \<not> SUCCEEDED (HRESULT_FROM_WIN32 e')"
    using assms(2) fl unfolding cred_api_ok_def
    by (intro HRESULT_FROM_WIN32_fails) (metis fst_conv snd_conv)
  have fresh: "hp_blocks h (hp_next h) = None" "hp_next h \<notin> live h"
    and upd: "(hp_blocks h)(hp_next h := None) = hp_blocks h"
    using assms(1) by (auto simp: heap_ok_def live_def)
  have ok': "heap_ok (h\<lparr>hp_next := Suc (hp_next h)\<rparr>)"
    "\<And>x. heap_ok (h\<lparr>hp_next := Suc (hp_next h), hp_freed := x\<rparr>)"
    "\<And>x. heap_ok (h\<lparr>hp_next := Suc (hp_next h), hp_blocks := (hp_blocks h)(hp_next h := x)\<rparr>)"
    using assms(1) by (auto simp: heap_ok_def)
  show ?thesis
  proof (cases "\<not> ok \<and> ERROR_INSUFFICIENT_BUFFER = e \<and> 0 < n")
    case False
    then show ?thesis using assms(1) e sz
      by (cases ok) (auto simp: ProtectAndCopyString_def intro!: all_or_nothingI
          simp del: split_paired_Ex)
  next
    case call: True
    show ?thesis
    proof (cases "hp_fails h (hp_next h)")
      case True
      with call show ?thesis using ok'
        by (auto simp: ProtectAndCopyString_def sz task_alloc_def intro!: all_or_nothingI
            simp del: split_paired_Ex)
    next
      case False
      with call show ?thesis using ok' e' fresh upd
        by (cases t) (auto simp: ProtectAndCopyString_def sz fl task_alloc_def task_write_def
            CoTaskMemFree_def intro!: all_or_nothingI simp del: split_paired_Ex)
    qed
  qed
qed

text \<open>Copying the password never faults and never leaks. Whatever allocation or protection
  call fails, the function returns; on success the caller owns one fresh block that holds the text
  the usage scenario asks for (empty for no password, the password unchanged for CredUI or when it
  is already protected, the protected text otherwise), and on failure the pointer is null and the
  live blocks are unchanged.\<close>

lemma protect_password_all_or_nothing:
  assumes "heap_ok h" and "cred_api_ok api"
  shows "\<exists>r. ProtectIfNecessaryAndCopyPassword n api pwz cpus h = Inr r \<and>
    all_or_nothing h r (protected_text api cpus pwz)"
proof (cases "pwz = None \<or> pwz = Some []")
  case True
  then have "ProtectIfNecessaryAndCopyPassword n api pwz cpus h = Inr (SHStrDupW n (Some []) h)"
    and "protected_text api cpus pwz = []"
    by (auto simp: ProtectIfNecessaryAndCopyPassword_def protected_text_def)
  then show ?thesis using SHStrDupW_all_or_nothing [OF assms(1), of n "[]"]
    by (simp del: split_paired_Ex)
next
  case False
  then obtain c cs where pwz: "pwz = Some (c # cs)"
    by (metis neq_Nil_conv option.exhaust)
  have enc: "(case is_protected api (c # cs) of Some p \<Rightarrow> CredUnprotected \<noteq> p | None \<Rightarrow> False)
      = already_encrypted api (c # cs)"
    by (auto simp: already_encrypted_def split: option.splits)
  let ?plain = "cpus = CPUS_CREDUI \<or> already_encrypted api (c # cs)"
  have "ProtectIfNecessaryAndCopyPassword n api pwz cpus h =
      (if ?plain then Inr (SHStrDupW n (Some (c # cs)) h) else ProtectAndCopyString api (c # cs) h)"
    by (auto simp: ProtectIfNecessaryAndCopyPassword_def pwz enc Let_def)
  moreover have "?plain \<Longrightarrow> protected_text api cpus pwz = c # cs"
    and "\<not> ?plain \<Longrightarrow> protected_text api cpus pwz =
      the (fst (protect_fill api (c # cs) (snd (snd (protect_size api (c # cs))))))"
    by (simp_all add: protected_text_def pwz)
  ultimately show ?thesis
    using SHStrDupW_all_or_nothing [OF assms(1), of n "c # cs"]
      ProtectAndCopyString_all_or_nothing [OF assms, of "c # cs"]
    by (cases ?plain) (simp_all del: split_paired_Ex)
qed

text \<open>A protection service for closed examples: it reverses the text.\<close>

definition example_cred_api :: cred_api where
  "example_cred_api = \<lparr>protect_size = (\<lambda>s. (False, ERROR_INSUFFICIENT_BUFFER, of_nat (length s) + 1)),
     protect_fill = (\<lambda>s n. (Some (rev s), 0)), is_protected = (\<lambda>s. Some CredUnprotected)\<rparr>"

lemma example_cred_api_ok: "cred_api_ok example_cred_api"
  by (simp add: cred_api_ok_def example_cred_api_def ERROR_INSUFFICIENT_BUFFER_def)

text \<open>
  The package look-up succeeds exactly when both LSA calls do, asks for the name
  \<open>Negotiate\<close>, and closes its handle on every path.
\<close>

lemma negotiate_name: "snd (LsaInitString None NEGOSSP_NAME) =
    Some \<lparr>ls_Length = 9, ls_MaximumLength = 10, ls_Buffer = ''Negotiate''\<rparr>"
  by (simp add: LsaInitString_def NEGOSSP_NAME_def c_str_def USHORT_MAX_def SizeTToUShort_def)

lemma negotiate_handles: "snd (snd (RetrieveNegotiateAuthPackage api)) = 0"
  by (auto simp: RetrieveNegotiateAuthPackage_def Let_def split: prod.splits)

lemma HRESULT_FROM_NT_SUCCEEDED: "SUCCEEDED (HRESULT_FROM_NT s) \<longleftrightarrow> \<not> bit s 31"
  by (simp add: SUCCEEDED_def HRESULT_FROM_NT_def bit_or_iff)

lemma negotiate_succeeds_iff:
  "RetrieveNegotiateAuthPackage api = (hr, out, k) \<Longrightarrow>
     (SUCCEEDED hr \<longleftrightarrow> out \<noteq> None) \<and>
     (SUCCEEDED hr \<longleftrightarrow> \<not> bit (lsa_connect api) 31 \<and>
        \<not> bit (fst (lsa_lookup api (snd (LsaInitString None NEGOSSP_NAME)))) 31)"
  by (auto simp: RetrieveNegotiateAuthPackage_def Let_def HRESULT_FROM_NT_SUCCEEDED
      split: prod.splits if_splits)

end
