(* ===== verification/Refcount.thy ===== *)
theory Refcount
  imports Prelude
begin

text \<open>
  The reference-counting contract the program's four COM classes share (the class factory
  in \<open>Dll.cpp\<close>, the provider in \<open>CSampleProvider.h\<close>, the two credentials in
  \<open>CSampleCredential.h\<close> and \<open>MessageCredential.h\<close>), as a locale: \<open>AddRef\<close> returns
  the old count and increments it, \<open>Release\<close> returns the old count, decrements it and
  deletes the object when the count it \<^emph>\<open>found\<close> was 0. Each class interprets the locale
  on its own model. The lemmas about whole histories of calls are proved once, here.
\<close>

text \<open>Interface identifiers: the SDK's, which the source only compares.\<close>

datatype iid = IID_IUnknown | IID_IClassFactory | IID_ICredentialProvider
  | IID_ICredentialProviderCredential | IID_other nat

datatype ref_op = AddRefCall | ReleaseCall

text \<open>A history of calls on one object; \<open>None\<close> once it has been deleted.\<close>

fun run_refs ::
  "('o \<Rightarrow> 32 word \<times> 'o) \<Rightarrow> ('o \<Rightarrow> 32 word \<times> 'o option) \<Rightarrow> ref_op list \<Rightarrow> 'o option \<Rightarrow> 'o option" where
  "run_refs addref release [] ob = ob"
| "run_refs addref release (c # cs) None = None"
| "run_refs addref release (AddRefCall # cs) (Some ob) =
     run_refs addref release cs (Some (snd (addref ob)))"
| "run_refs addref release (ReleaseCall # cs) (Some ob) =
     run_refs addref release cs (snd (release ob))"

text \<open>
  How far a history moves the count, and whether the count stays in \<open>[0, 2^31)\<close> all the
  way, so that the \<open>LONG\<close> counter does not overflow.
\<close>

fun ref_balance :: "ref_op list \<Rightarrow> int" where
  "ref_balance [] = 0"
| "ref_balance (AddRefCall # cs) = 1 + ref_balance cs"
| "ref_balance (ReleaseCall # cs) = ref_balance cs - 1"

fun ref_in_range :: "int \<Rightarrow> ref_op list \<Rightarrow> bool" where
  "ref_in_range n [] \<longleftrightarrow> 0 \<le> n \<and> n < 2 ^ 31"
| "ref_in_range n (AddRefCall # cs) \<longleftrightarrow> 0 \<le> n \<and> n < 2 ^ 31 \<and> ref_in_range (n + 1) cs"
| "ref_in_range n (ReleaseCall # cs) \<longleftrightarrow> 0 \<le> n \<and> n < 2 ^ 31 \<and> ref_in_range (n - 1) cs"

lemma ref_in_range_start: "ref_in_range n cs \<Longrightarrow> 0 \<le> n \<and> n < 2 ^ 31"
  by (cases cs; cases "hd cs") auto

lemma ref_in_range_end: "ref_in_range n cs \<Longrightarrow> 0 \<le> n + ref_balance cs"
  by (induction n cs rule: ref_in_range.induct) (auto simp: algebra_simps)

lemma ref_in_range_append:
  "ref_in_range n (cs @ ds) \<longleftrightarrow> ref_in_range n cs \<and> ref_in_range (n + ref_balance cs) ds"
proof (induction n cs rule: ref_in_range.induct)
  case (1 n)
  then show ?case using ref_in_range_start [of n ds] by auto
qed (auto simp: algebra_simps)

lemma run_refs_append:
  "run_refs a r (cs @ ds) ob = run_refs a r ds (run_refs a r cs ob)"
proof (induction a r cs ob rule: run_refs.induct)
  case (2 a r c cs)
  then show ?case by (cases ds) auto
qed auto

lemma unat_plus1: "uint (w :: 32 word) < 2 ^ 31 \<Longrightarrow> uint (w + 1) = uint w + 1"
  by (simp add: uint_word_ariths)

lemma unat_minus1:
  assumes "w \<noteq> (0 :: 32 word)"
  shows "uint (w - 1) = uint w - 1"
proof -
  have "uint w \<noteq> 0" using assms by (simp add: uint_0_iff)
  moreover have "0 \<le> uint w" by simp
  ultimately have "1 \<le> uint w" by linarith
  then show ?thesis by (simp add: uint_sub_if')
qed

locale com_refcount =
  fixes cref :: "'o \<Rightarrow> 32 word"
    and addref :: "'o \<Rightarrow> 32 word \<times> 'o"
    and release :: "'o \<Rightarrow> 32 word \<times> 'o option"
  assumes addref_returns: "fst (addref ob) = cref ob"
    and addref_counts: "cref (snd (addref ob)) = cref ob + 1"
    and release_returns: "fst (release ob) = cref ob"
    and release_deletes: "snd (release ob) = None \<longleftrightarrow> cref ob = 0"
    and release_counts: "snd (release ob) = Some ob' \<Longrightarrow> cref ob' = cref ob - 1"
begin

lemma history_keeps_alive:
  "ref_in_range (uint (cref ob)) cs \<Longrightarrow>
     \<exists>ob'. run_refs addref release cs (Some ob) = Some ob' \<and>
           uint (cref ob') = uint (cref ob) + ref_balance cs"
proof (induction cs arbitrary: ob)
  case Nil
  then show ?case by simp
next
  case (Cons c cs)
  show ?case
  proof (cases c)
    case AddRefCall
    then have "uint (cref (snd (addref ob))) = uint (cref ob) + 1"
      using Cons.prems by (simp add: addref_counts unat_plus1)
    then show ?thesis using Cons.IH [of "snd (addref ob)"] Cons.prems AddRefCall
      by (auto simp: algebra_simps)
  next
    case ReleaseCall
    then have pos: "cref ob \<noteq> 0"
      using Cons.prems ref_in_range_start by force
    then obtain ob' where ob': "snd (release ob) = Some ob'"
      using release_deletes by (cases "snd (release ob)") auto
    then have u: "uint (cref ob') = uint (cref ob) - 1"
      using release_counts [OF ob'] unat_minus1 [OF pos] by simp
    show ?thesis using Cons.IH [of ob'] Cons.prems ReleaseCall ob' u
      by (auto simp: algebra_simps)
  qed
qed

text \<open>
  The client that follows COM's rules (one \<open>Release\<close> for its own reference and one for
  every \<open>AddRef\<close>) brings the count to 0 and the object stays: it is deleted only by a
  further \<open>Release\<close>.
\<close>

lemma balanced_history_leaves_object:
  assumes "ref_in_range (uint (cref ob)) cs" and "uint (cref ob) + ref_balance cs = 0"
  shows "\<exists>ob'. run_refs addref release cs (Some ob) = Some ob' \<and> cref ob' = 0"
  using history_keeps_alive [OF assms(1)] assms(2) by (auto simp: uint_0_iff)

lemma extra_release_deletes:
  assumes "ref_in_range (uint (cref ob)) cs" and "uint (cref ob) + ref_balance cs = 0"
  shows "run_refs addref release (cs @ [ReleaseCall]) (Some ob) = None"
proof -
  obtain ob' where "run_refs addref release cs (Some ob) = Some ob'" and "cref ob' = 0"
    using balanced_history_leaves_object [OF assms] by blast
  then show ?thesis by (simp add: run_refs_append release_deletes)
qed

end

end
