(* ===== verification/Dll.thy ===== *)
theory Dll
  imports Refcount
begin

text \<open>
  \<open>Dll.cpp\<close>: the DLL's global reference count and entry points, and the class factory.

  A call that may write through \<open>void** ppv\<close> takes whether \<open>ppv\<close> is non-null and
  returns what was stored: \<open>None\<close> nothing, \<open>Some False\<close> a null pointer,
  \<open>Some True\<close> the object.
\<close>

section \<open>Class identifiers\<close>

record GUID =
  Data1 :: "32 word"
  Data2 :: "16 word"
  Data3 :: "16 word"
  Data4 :: "8 word list"

text \<open>\<open>DEFINE_GUID\<close> in \<open>guid.h\<close>, and the class \<open>Register.reg\<close> registers the DLL for.\<close>

definition CLSID_CSampleProvider :: GUID where
  "CLSID_CSampleProvider = \<lparr>Data1 = 0xa9fd7240, Data2 = 0x14ea, Data3 = 0x4dcb,
     Data4 = [0xaa, 0xbb, 0xd5, 0xa1, 0x9a, 0x68, 0x8f, 0x82]\<rparr>"

definition Register_reg_CLSID :: GUID where
  "Register_reg_CLSID = \<lparr>Data1 = 0x75A22DF0, Data2 = 0xB81D, Data3 = 0x46ed,
     Data4 = [0xB1, 0x19, 0xCD, 0x30, 0x50, 0x7B, 0xD6, 0x15]\<rparr>"

section \<open>The DLL's reference count\<close>

record dll =
  g_cRef :: "32 word"
  g_hinst :: "nat option"
  thread_calls :: bool

text \<open>The static initialisers; \<open>thread_calls\<close>: thread attach and detach are still delivered.\<close>

definition dll_init :: dll where
  "dll_init = \<lparr>g_cRef = 0, g_hinst = None, thread_calls = True\<rparr>"

definition DllAddRef :: "dll \<Rightarrow> dll" where
  "DllAddRef d = d\<lparr>g_cRef := g_cRef d + 1\<rparr>"

definition DllRelease :: "dll \<Rightarrow> dll" where
  "DllRelease d = d\<lparr>g_cRef := g_cRef d - 1\<rparr>"

definition DllCanUnloadNow :: "dll \<Rightarrow> HRESULT" where
  "DllCanUnloadNow d = (if 0 < sint (g_cRef d) then S_FALSE else S_OK)"

datatype dll_reason = DLL_PROCESS_ATTACH | DLL_PROCESS_DETACH | DLL_THREAD_ATTACH | DLL_THREAD_DETACH

definition DllMain :: "nat option \<Rightarrow> dll_reason \<Rightarrow> dll \<Rightarrow> bool \<times> dll" where
  "DllMain hinstDll dwReason d =
     (let d1 = (case dwReason of
                  DLL_PROCESS_ATTACH \<Rightarrow> d\<lparr>thread_calls := False\<rparr>
                | DLL_PROCESS_DETACH \<Rightarrow> d
                | DLL_THREAD_ATTACH \<Rightarrow> d
                | DLL_THREAD_DETACH \<Rightarrow> d)
      in (True, d1\<lparr>g_hinst := hinstDll\<rparr>))"

section \<open>The class factory\<close>

record class_factory =
  cf_cRef :: "32 word"

definition CClassFactory_new :: class_factory where
  "CClassFactory_new = \<lparr>cf_cRef = 1\<rparr>"

definition CClassFactory_AddRef :: "class_factory \<Rightarrow> 32 word \<times> class_factory" where
  "CClassFactory_AddRef f = (cf_cRef f, f\<lparr>cf_cRef := cf_cRef f + 1\<rparr>)"

definition CClassFactory_Release :: "class_factory \<Rightarrow> 32 word \<times> class_factory option" where
  "CClassFactory_Release f =
     (let cRef = cf_cRef f;
          f' = f\<lparr>cf_cRef := cf_cRef f - 1\<rparr>
      in (cRef, if cRef = 0 then None else Some f'))"

definition CClassFactory_QueryInterface ::
  "iid \<Rightarrow> bool \<Rightarrow> class_factory \<Rightarrow> HRESULT \<times> bool option \<times> class_factory" where
  "CClassFactory_QueryInterface riid ppv f =
     (if ppv then
        (if IID_IClassFactory = riid \<or> IID_IUnknown = riid
         then (S_OK, Some True, snd (CClassFactory_AddRef f))
         else (E_NOINTERFACE, Some False, f))
      else (E_INVALIDARG, None, f))"

text \<open>
  \<open>CClassFactory::CreateInstance\<close>: \<open>create\<close> is \<open>CSampleProvider_CreateInstance\<close>,
  which another file defines, over the state it works on.
\<close>

definition ClassFactory_CreateInstance ::
  "(iid \<Rightarrow> 's \<Rightarrow> HRESULT \<times> 's) \<Rightarrow> bool \<Rightarrow> iid \<Rightarrow> 's \<Rightarrow> HRESULT \<times> 's" where
  "ClassFactory_CreateInstance create pUnkOuter riid s =
     (if \<not> pUnkOuter then create riid s else (CLASS_E_NOAGGREGATION, s))"

definition ClassFactory_LockServer :: "bool \<Rightarrow> dll \<Rightarrow> HRESULT \<times> dll" where
  "ClassFactory_LockServer bLock d = (S_OK, if bLock then DllAddRef d else DllRelease d)"

text \<open>
  The free function: \<open>alloc_ok\<close> is whether \<open>new\<close> gave an object. The last component is
  the factory that is left after the function's own \<open>Release\<close>.
\<close>

definition CClassFactory_CreateInstance ::
  "bool \<Rightarrow> GUID \<Rightarrow> iid \<Rightarrow> bool \<Rightarrow> HRESULT \<times> bool option \<times> class_factory option" where
  "CClassFactory_CreateInstance alloc_ok rclsid riid ppv =
     (if CLSID_CSampleProvider = rclsid then
        (if alloc_ok then
           (let (hr, out, pcf) = CClassFactory_QueryInterface riid ppv CClassFactory_new
            in (hr, out, snd (CClassFactory_Release pcf)))
         else (E_OUTOFMEMORY, None, None))
      else (CLASS_E_CLASSNOTAVAILABLE, None, None))"

definition DllGetClassObject ::
  "bool \<Rightarrow> GUID \<Rightarrow> iid \<Rightarrow> bool \<Rightarrow> HRESULT \<times> bool option \<times> class_factory option" where
  "DllGetClassObject alloc_ok rclsid riid ppv = CClassFactory_CreateInstance alloc_ok rclsid riid ppv"

lemmas factory_defs = CClassFactory_AddRef_def CClassFactory_Release_def
  CClassFactory_QueryInterface_def CClassFactory_new_def

interpretation cf: com_refcount cf_cRef CClassFactory_AddRef CClassFactory_Release
  by unfold_locales (auto simp: factory_defs Let_def split: if_splits)

section \<open>Lemmas\<close>

lemma sint_uint_small: "uint (w :: 32 word) < 2 ^ 31 \<Longrightarrow> sint w = uint w"
  by (simp add: sint_uint signed_take_bit_int_eq_self_iff order_trans [OF _ uint_ge_0])

text \<open>A history of lock and unlock calls moves the DLL's count by the balance.\<close>

fun run_locks :: "bool list \<Rightarrow> dll \<Rightarrow> dll" where
  "run_locks [] d = d"
| "run_locks (b # bs) d = run_locks bs (snd (ClassFactory_LockServer b d))"

fun lock_history :: "bool list \<Rightarrow> ref_op list" where
  "lock_history bs = map (\<lambda>b. if b then AddRefCall else ReleaseCall) bs"

lemma run_locks_count:
  "ref_in_range (uint (g_cRef d)) (lock_history bs) \<Longrightarrow>
     uint (g_cRef (run_locks bs d)) = uint (g_cRef d) + ref_balance (lock_history bs)"
proof (induction bs arbitrary: d)
  case Nil
  then show ?case by simp
next
  case (Cons b bs)
  show ?case
  proof (cases b)
    case True
    then have "uint (g_cRef (DllAddRef d)) = uint (g_cRef d) + 1"
      using Cons.prems by (simp add: DllAddRef_def unat_plus1)
    then show ?thesis using Cons.IH [of "DllAddRef d"] Cons.prems True
      by (simp add: ClassFactory_LockServer_def algebra_simps)
  next
    case False
    then have "g_cRef d \<noteq> 0" using Cons.prems ref_in_range_start by force
    then have "uint (g_cRef (DllRelease d)) = uint (g_cRef d) - 1"
      by (simp add: DllRelease_def unat_minus1)
    moreover from this have "uint (g_cRef (run_locks bs (DllRelease d))) =
        uint (g_cRef (DllRelease d)) + ref_balance (lock_history bs)"
      using Cons.IH [of "DllRelease d"] Cons.prems False by simp
    ultimately show ?thesis using False by (simp add: ClassFactory_LockServer_def)
  qed
qed

lemma DllCanUnloadNow_iff:
  "uint (g_cRef d) < 2 ^ 31 \<Longrightarrow> DllCanUnloadNow d = S_OK \<longleftrightarrow> g_cRef d = 0"
  by (auto simp: DllCanUnloadNow_def sint_uint_small S_OK_def S_FALSE_def uint_0_iff
        not_less order_antisym)

end
