(* ===== verification/Tile.thy ===== *)
theory Tile
  imports Dll Helpers
begin

text \<open>
  What the two credential classes have in common: the arrays behind a tile (descriptors,
  states, strings), who owns the task memory they point to, and the contract of a COM object
  whose client may call its operations in any order.
\<close>

section \<open>Objects under an arbitrary client\<close>

text \<open>
  \<open>step\<close> runs one call and either faults or returns a result and the new state;
  \<open>allowed\<close> are the calls the interface's rules let a client make. A class whose
  invariant is kept by every allowed call survives every sequence of them.
\<close>

fun run_calls :: "('c \<Rightarrow> 's \<Rightarrow> ('r \<times> 's) res) \<Rightarrow> 'c list \<Rightarrow> 's \<Rightarrow> ('r list \<times> 's) res" where
  "run_calls step [] s = Inr ([], s)"
| "run_calls step (c # cs) s =
     bind_res (step c s) (\<lambda>(r, s1). bind_res (run_calls step cs s1) (\<lambda>(rs, s2). Inr (r # rs, s2)))"

locale safe_object =
  fixes step :: "'c \<Rightarrow> 's \<Rightarrow> ('r \<times> 's) res"
    and allowed :: "'c \<Rightarrow> bool"
    and inv :: "'s \<Rightarrow> bool"
  assumes step_safe: "inv s \<Longrightarrow> allowed c \<Longrightarrow> \<exists>r s'. step c s = Inr (r, s') \<and> inv s'"
begin

lemma run_calls_safe:
  "inv s \<Longrightarrow> list_all allowed cs \<Longrightarrow>
     \<exists>rs s'. run_calls step cs s = Inr (rs, s') \<and> length rs = length cs \<and> inv s'"
proof (induction cs arbitrary: s)
  case Nil
  then show ?case by simp
next
  case (Cons c cs)
  from Cons.prems step_safe [of s c] obtain r s1
    where 1: "step c s = Inr (r, s1)" and inv1: "inv s1" by auto
  from Cons.IH [OF inv1] Cons.prems obtain rs s2
    where "run_calls step cs s1 = Inr (rs, s2)" and "length rs = length cs" and "inv s2" by auto
  with 1 show ?case by simp
qed

end

section \<open>Owned task memory\<close>

fun addrs :: "ptr list \<Rightarrow> addr list" where
  "addrs [] = []"
| "addrs (None # ps) = addrs ps"
| "addrs (Some a # ps) = a # addrs ps"

text \<open>The pointers of a list are null or point to distinct live strings.\<close>

definition is_str :: "heap \<Rightarrow> addr \<Rightarrow> bool" where
  "is_str h a \<longleftrightarrow> (case hp_blocks h a of Some (BStr _) \<Rightarrow> True | _ \<Rightarrow> False)"

definition owns :: "heap \<Rightarrow> ptr list \<Rightarrow> bool" where
  "owns h ps \<longleftrightarrow> distinct (addrs ps) \<and> list_all (is_str h) (addrs ps)"

text \<open>\<open>CoTaskMemFree\<close> over a list of pointers, in its order.\<close>

fun free_all :: "ptr list \<Rightarrow> heap \<Rightarrow> heap res" where
  "free_all [] h = Inr h"
| "free_all (p # ps) h = bind_res (CoTaskMemFree p h) (free_all ps)"

lemma addrs_append [simp]: "addrs (ps @ qs) = addrs ps @ addrs qs"
  by (induction ps rule: addrs.induct) auto

lemma addrs_None [simp]: "addrs (replicate n None) = []"
  by (induction n) auto

lemma set_addrs: "set (addrs ps) = {a. Some a \<in> set ps}"
  by (induction ps rule: addrs.induct) auto

lemma set_addrs_update:
  "set (addrs (ps[j := None])) \<subseteq> set (addrs ps)"
  "set (addrs (ps[j := Some x])) \<subseteq> insert x (set (addrs ps))"
  using set_update_subset_insert [of ps j] by (fastforce simp: set_addrs)+

lemma is_str_iff: "is_str h a \<longleftrightarrow> (\<exists>s. hp_blocks h a = Some (BStr s))"
  by (auto simp: is_str_def split: option.splits block.splits)

lemma owns_simps [simp]:
  "owns h []"
  "owns h (None # ps) \<longleftrightarrow> owns h ps"
  "owns h (Some a # ps) \<longleftrightarrow> is_str h a \<and> a \<notin> set (addrs ps) \<and> owns h ps"
  by (auto simp: owns_def)

lemma owns_None [simp]: "owns h (replicate n None)"
  by (simp add: owns_def)

lemma owns_mset:
  assumes "mset ps = mset qs"
  shows "owns h ps \<longleftrightarrow> owns h qs"
proof -
  have m: "mset (addrs ps) = image_mset the (filter_mset (\<lambda>p. p \<noteq> None) (mset ps))" for ps
    by (induction ps rule: addrs.induct) auto
  have "mset (addrs ps) = mset (addrs qs)" using assms by (simp add: m)
  then have "distinct (addrs ps) = distinct (addrs qs)" and "set (addrs ps) = set (addrs qs)"
    by (auto dest: mset_eq_imp_distinct_iff mset_eq_setD)
  then show ?thesis by (simp add: owns_def list_all_iff)
qed

text \<open>Bringing the pointer at an index to the front: an update then changes the head only.\<close>

lemma mset_front: "i < length ps \<Longrightarrow> mset ps = mset (ps ! i # take i ps @ drop (Suc i) ps)"
  by (subst (1) id_take_nth_drop [of i ps]) auto

lemma owns_front:
  "i < length ps \<Longrightarrow> owns h ps \<longleftrightarrow> owns h (ps ! i # take i ps @ drop (Suc i) ps)"
  by (rule owns_mset) (rule mset_front)

lemma owns_update_front:
  "i < length ps \<Longrightarrow> owns h (ps[i := q]) \<longleftrightarrow> owns h (q # take i ps @ drop (Suc i) ps)"
  using owns_front [of i "ps[i := q]" h] by simp

lemma owns_frame:
  assumes "owns h ps" and "\<And>a. a \<in> set (addrs ps) \<Longrightarrow> is_str h a \<Longrightarrow> is_str h' a"
  shows "owns h' ps"
  using assms by (auto simp: owns_def list_all_iff)

lemma owns_same_blocks: "hp_blocks h' = hp_blocks h \<Longrightarrow> owns h' ps = owns h ps"
  by (simp add: owns_def is_str_def [abs_def])

lemma owns_tail: "owns h (p # ps) \<Longrightarrow> owns h ps"
  by (cases p) auto

lemma fresh_not_owned: "heap_ok h \<Longrightarrow> owns h ps \<Longrightarrow> hp_next h \<le> a \<Longrightarrow> a \<notin> set (addrs ps)"
  by (auto simp: heap_ok_def owns_def list_all_iff is_str_iff)

lemma owns_distinct:
  assumes "owns h ps" and "i < length ps" and "j < length ps" and "i \<noteq> j" and "ps ! i = Some a"
  shows "ps ! j \<noteq> Some a"
proof
  assume "ps ! j = Some a"
  then have "ps[i := None] ! j = Some a" using assms(4) by simp
  moreover have "j < length (ps[i := None])" using assms(3) by simp
  ultimately have "Some a \<in> set (ps[i := None])" by (metis nth_mem)
  then have "a \<in> set (addrs (ps[i := None]))" by (simp add: set_addrs)
  moreover have "mset (ps[i := None]) = mset (None # take i ps @ drop (Suc i) ps)"
    using mset_front [of i "ps[i := None]"] assms(2) by simp
  then have "set (ps[i := None]) = set (None # take i ps @ drop (Suc i) ps)" by (rule mset_eq_setD)
  ultimately have "a \<in> set (addrs (take i ps @ drop (Suc i) ps))" by (auto simp: set_addrs)
  moreover have "owns h (Some a # take i ps @ drop (Suc i) ps)"
    using assms(1,2,5) owns_front by metis
  ultimately show False by simp
qed

text \<open>Storing a null pointer, or the pointer to a block that was just allocated.\<close>

lemma owns_set_None: "owns h ps \<Longrightarrow> owns h (ps[i := None])"
  by (cases "i < length ps")
    (auto simp: owns_update_front owns_front [of i ps] list_update_beyond not_less intro: owns_tail)

lemma owns_set_fresh:
  assumes "owns h ps" and "heap_ok h" and "hp_blocks h' = (hp_blocks h)(hp_next h \<mapsto> BStr s)"
  shows "owns h' (ps[i := Some (hp_next h)])"
proof -
  have f: "a \<in> set (addrs ps) \<Longrightarrow> is_str h a \<Longrightarrow> is_str h' a" for a
    using assms(3) by (auto simp: is_str_iff)
  have o: "owns h' ps" using owns_frame [OF assms(1)] f by blast
  show ?thesis
  proof (cases "i < length ps")
    case True
    let ?r = "take i ps @ drop (Suc i) ps"
    have "owns h ?r" using assms(1) True owns_front [of i ps h] by (auto intro: owns_tail)
    then have n: "hp_next h \<notin> set (addrs ?r)" using fresh_not_owned [OF assms(2)] by blast
    have "owns h' ?r" using o True owns_front [of i ps h'] by (auto intro: owns_tail)
    moreover have "is_str h' (hp_next h)" using assms(3) by (simp add: is_str_iff)
    ultimately show ?thesis using n True by (subst owns_update_front) simp_all
  next
    case False
    with o show ?thesis by (simp add: list_update_beyond)
  qed
qed

text \<open>Freeing one owned pointer and nulling it.\<close>

lemma owns_free:
  assumes "owns h ps" and "i < length ps"
  shows "\<exists>h'. CoTaskMemFree (ps ! i) h = Inr h' \<and> owns h' (ps[i := None]) \<and>
    hp_blocks h' = (hp_blocks h) |` (- set_option (ps ! i)) \<and> hp_next h' = hp_next h \<and>
    hp_fails h' = hp_fails h"
proof (cases "ps ! i")
  case None
  then show ?thesis using assms owns_set_None [of h ps i]
    by (simp add: restrict_map_def)
next
  case (Some a)
  let ?r = "take i ps @ drop (Suc i) ps"
  have o: "owns h (Some a # ?r)" using assms Some owns_front [of i ps h] by simp
  then obtain s where s: "hp_blocks h a = Some (BStr s)" by (auto simp: is_str_iff)
  let ?h = "h\<lparr>hp_blocks := (hp_blocks h)(a := None), hp_freed := BStr s # hp_freed h\<rparr>"
  have "owns ?h ?r" using owns_tail [OF o]
    by (rule owns_frame) (use o in \<open>auto simp: is_str_iff\<close>)
  then have "owns ?h (ps[i := None])" using assms(2) by (simp add: owns_update_front)
  moreover have "(hp_blocks h)(a := None) = (hp_blocks h) |` (- {a})"
    by (auto simp: restrict_map_def)
  ultimately show ?thesis using s Some by (simp add: CoTaskMemFree_live)
qed

text \<open>Freeing all of them: nothing is freed twice and nothing else is touched.\<close>

lemma owns_free_all:
  "owns h ps \<Longrightarrow> \<exists>h'. free_all ps h = Inr h' \<and>
     hp_blocks h' = hp_blocks h |` (- set (addrs ps)) \<and> hp_next h' = hp_next h"
proof (induction ps arbitrary: h)
  case Nil
  then show ?case by (simp add: restrict_map_def)
next
  case (Cons p ps)
  show ?case
  proof (cases p)
    case None
    with Cons show ?thesis by simp
  next
    case (Some a)
    with Cons.prems obtain s where s: "hp_blocks h a = Some (BStr s)"
      by (auto simp: is_str_iff)
    let ?h = "h\<lparr>hp_blocks := (hp_blocks h)(a := None), hp_freed := BStr s # hp_freed h\<rparr>"
    have "owns h ps" using Cons.prems Some by simp
    then have "owns ?h ps"
      by (rule owns_frame) (use Cons.prems Some in \<open>auto simp: is_str_iff\<close>)
    from Cons.IH [OF this] obtain h' where h': "free_all ps ?h = Inr h'"
      and b: "hp_blocks h' = hp_blocks ?h |` (- set (addrs ps))" and n: "hp_next h' = hp_next ?h"
      by blast
    have "hp_blocks h' = hp_blocks h |` (- set (addrs (p # ps)))"
      using b Some by (auto simp: restrict_map_def fun_eq_iff)
    with h' n s Some show ?thesis by (simp add: CoTaskMemFree_live)
  qed
qed

section \<open>Tiles\<close>

record tile =
  tl_cRef :: "32 word"
  tl_descs :: "field_descriptor list"
  tl_states :: "FIELD_STATE_PAIR list"
  tl_strings :: "ptr list"

text \<open>What \<open>ZeroMemory\<close> makes of the arrays.\<close>

definition zero_descriptor :: field_descriptor where
  "zero_descriptor = \<lparr>dwFieldID = 0, cpft_of = CPFT_INVALID, pszLabel = None\<rparr>"

definition zero_state :: FIELD_STATE_PAIR where
  "zero_state = \<lparr>fsp_cpfs = CPFS_HIDDEN, fsp_cpfis = CPFIS_NONE\<rparr>"

definition tile_ptrs :: "'a tile_scheme \<Rightarrow> ptr list" where
  "tile_ptrs t = tl_strings t @ map pszLabel (tl_descs t)"

text \<open>
  The invariant of a tile with \<open>n\<close> fields: its arrays have their declared length, and it
  owns the strings and labels it points to.
\<close>

definition tile_ok :: "nat \<Rightarrow> heap \<Rightarrow> 'a tile_scheme \<Rightarrow> bool" where
  "tile_ok n h t \<longleftrightarrow> heap_ok h \<and> length (tl_descs t) = n \<and> length (tl_states t) = n \<and>
     length (tl_strings t) = n \<and> owns h (tile_ptrs t)"

text \<open>
  The loop both \<open>Initialize\<close> methods start with: copy state and descriptor of each field
  until one fails.
\<close>

fun init_fields ::
  "HRESULT \<Rightarrow> const_descriptor list \<Rightarrow> FIELD_STATE_PAIR list \<Rightarrow> nat list \<Rightarrow>
     HRESULT \<times> 'a tile_scheme \<times> heap \<Rightarrow> HRESULT \<times> 'a tile_scheme \<times> heap" where
  "init_fields dup_null rgcpfd rgfsp [] (hr, t, h) = (hr, t, h)"
| "init_fields dup_null rgcpfd rgfsp (i # is) (hr, t, h) =
     (if SUCCEEDED hr then
        (let t1 = t\<lparr>tl_states := (tl_states t)[i := rgfsp ! i]\<rparr>;
             (hr1, cpfd, h1) = FieldDescriptorCopy dup_null (rgcpfd ! i) h;
             t2 = (case cpfd of Some d \<Rightarrow> t1\<lparr>tl_descs := (tl_descs t1)[i := d]\<rparr> | None \<Rightarrow> t1)
         in init_fields dup_null rgcpfd rgfsp is (hr1, t2, h1))
      else (hr, t, h))"

text \<open>\<open>hr = SHStrDupW(s, &_rgFieldStrings[i])\<close>.\<close>

definition dup_into ::
  "HRESULT \<Rightarrow> wstr option \<Rightarrow> nat \<Rightarrow> 'a tile_scheme \<times> heap \<Rightarrow> HRESULT \<times> 'a tile_scheme \<times> heap" where
  "dup_into dup_null s i = (\<lambda>(t, h).
     let (hr, p, h1) = SHStrDupW dup_null s h
     in (hr, t\<lparr>tl_strings := (tl_strings t)[i := p]\<rparr>, h1))"

text \<open>The loop at the end of both destructors.\<close>

definition free_fields :: "nat \<Rightarrow> 'a tile_scheme \<Rightarrow> heap \<Rightarrow> heap res" where
  "free_fields n t h =
     free_all (concat (map (\<lambda>i. [tl_strings t ! i, pszLabel (tl_descs t ! i)]) [0..<n])) h"

text \<open>Both classes count references the same way; deleting the object is left to the caller.\<close>

definition tile_AddRef :: "'a tile_scheme \<Rightarrow> 32 word \<times> 'a tile_scheme" where
  "tile_AddRef t = (tl_cRef t, t\<lparr>tl_cRef := tl_cRef t + 1\<rparr>)"

definition tile_Release :: "'a tile_scheme \<Rightarrow> 32 word \<times> 'a tile_scheme option" where
  "tile_Release t =
     (let cRef = tl_cRef t;
          t' = t\<lparr>tl_cRef := tl_cRef t - 1\<rparr>
      in (cRef, if cRef = 0 then None else Some t'))"

definition tile_QueryInterface ::
  "iid \<Rightarrow> bool \<Rightarrow> 'a tile_scheme \<Rightarrow> HRESULT \<times> bool option \<times> 'a tile_scheme" where
  "tile_QueryInterface riid ppv t =
     (if ppv then
        (if IID_IUnknown = riid \<or> IID_ICredentialProviderCredential = riid
         then (S_OK, Some True, snd (tile_AddRef t))
         else (E_NOINTERFACE, Some False, t))
      else (E_INVALIDARG, None, t))"

interpretation tile_rc: com_refcount tl_cRef tile_AddRef tile_Release
  by unfold_locales (auto simp: tile_AddRef_def tile_Release_def Let_def split: if_splits)

text \<open>
  The two accessors the classes share. Both pointers of \<open>GetFieldState\<close> must be non-null;
  the state is what they receive.
\<close>

definition tile_GetFieldState ::
  "nat \<Rightarrow> DWORD \<Rightarrow> bool \<Rightarrow> bool \<Rightarrow> 'a tile_scheme \<Rightarrow> HRESULT \<times> FIELD_STATE_PAIR option" where
  "tile_GetFieldState n fid pcpfs pcpfis t =
     (if unat fid < n \<and> pcpfs \<and> pcpfis
      then (S_OK, Some (tl_states t ! unat fid))
      else (E_INVALIDARG, None))"

definition tile_GetStringValue ::
  "HRESULT \<Rightarrow> nat \<Rightarrow> DWORD \<Rightarrow> bool \<Rightarrow> 'a tile_scheme \<Rightarrow> heap \<Rightarrow>
     (HRESULT \<times> ptr option \<times> heap) res" where
  "tile_GetStringValue dup_null n fid ppwsz t h =
     (if unat fid < n \<and> ppwsz
      then bind_res (read_str h (tl_strings t ! unat fid)) (\<lambda>s.
             let (hr, p, h1) = SHStrDupW dup_null s h in Inr (hr, Some p, h1))
      else Inr (E_INVALIDARG, None, h))"

section \<open>Lemmas on tiles\<close>

lemma tile_okD: "tile_ok n h t \<Longrightarrow> heap_ok h" "tile_ok n h t \<Longrightarrow> owns h (tile_ptrs t)"
  by (simp_all add: tile_ok_def)

lemma tile_ptrs_string:
  "i < length (tl_strings t) \<Longrightarrow> tile_ptrs (t\<lparr>tl_strings := (tl_strings t)[i := p]\<rparr>) = (tile_ptrs t)[i := p]"
  by (simp add: tile_ptrs_def list_update_append)

lemma tile_ptrs_nth: "i < length (tl_strings t) \<Longrightarrow> tile_ptrs t ! i = tl_strings t ! i"
  by (simp add: tile_ptrs_def nth_append)

lemma tile_ptrs_desc:
  "tile_ptrs (t\<lparr>tl_descs := (tl_descs t)[i := d]\<rparr>) =
     (tile_ptrs t)[length (tl_strings t) + i := pszLabel d]"
  by (simp add: tile_ptrs_def list_update_append map_update)

lemma owns_read:
  assumes "owns h ps" and "i < length ps"
  shows "\<exists>s. read_str h (ps ! i) = Inr s \<and> (s = None \<longleftrightarrow> ps ! i = None)"
proof (cases "ps ! i")
  case (Some a)
  then have "owns h (Some a # take i ps @ drop (Suc i) ps)" using assms owns_front by metis
  then obtain s where "hp_blocks h a = Some (BStr s)" by (auto simp: is_str_iff)
  then show ?thesis using Some by (simp add: read_str_Some)
qed simp

lemma tile_ptrs_state_desc:
  "tile_ptrs (t\<lparr>tl_states := x, tl_descs := (tl_descs t)[i := d]\<rparr>) =
     (tile_ptrs t)[length (tl_strings t) + i := pszLabel d]"
  by (simp add: tile_ptrs_def list_update_append map_update)

lemma tile_ptrs_states [simp]: "tile_ptrs (t\<lparr>tl_states := s\<rparr>) = tile_ptrs t"
  "tile_ptrs (t\<lparr>tl_cRef := c\<rparr>) = tile_ptrs t"
  by (simp_all add: tile_ptrs_def)

lemma dup_into_ok:
  assumes "tile_ok n h t" and "i < n" and "dup_into dn s i (t, h) = (hr, t', h')"
  shows "tile_ok n h' t'"
proof -
  have ok: "heap_ok h" and o: "owns h (tile_ptrs t)" using assms(1) by (auto dest: tile_okD)
  show ?thesis
  proof (cases s)
    case None
    then have "t' = t\<lparr>tl_strings := (tl_strings t)[i := None]\<rparr>" "h' = h"
      using assms(3) by (auto simp: dup_into_def SHStrDupW_def)
    with assms(1,2) owns_set_None [OF o, of i] show ?thesis
      by (simp add: tile_ok_def tile_ptrs_string)
  next
    case (Some x)
    obtain p where d: "SHStrDupW dn (Some x) h = (hr, p, h')"
      and t': "t' = t\<lparr>tl_strings := (tl_strings t)[i := p]\<rparr>"
      using assms(3) Some by (auto simp: dup_into_def split: prod.splits)
    have ok': "heap_ok h'" using SHStrDupW_ok [OF ok d] .
    from d show ?thesis
    proof (cases rule: SHStrDupW_cases)
      case ok
      with assms(1,2) ok' t' owns_set_fresh [OF o _ ok(3), of i] \<open>heap_ok h\<close> show ?thesis
        by (simp add: tile_ok_def tile_ptrs_string)
    next
      case oom
      have "owns h' (tile_ptrs t)" using o owns_same_blocks [OF oom(3)] by simp
      with assms(1,2) ok' t' oom owns_set_None [of h' "tile_ptrs t" i] show ?thesis
        by (simp add: tile_ok_def tile_ptrs_string)
    qed
  qed
qed

lemma FieldDescriptorCopy_cases:
  assumes "FieldDescriptorCopy dn cd h = (hr, d, h')" and "heap_ok h"
  obtains (null) d' where "d = Some d'" and "pszLabel d' = None" and "h' = h" and "hr = S_OK"
    | (ok) d' s where "d = Some d'" and "pszLabel d' = Some (hp_next h)" and "hr = S_OK" and "heap_ok h'"
      and "hp_blocks h' = (hp_blocks h)(hp_next h \<mapsto> BStr s)"
    | (oom) "d = None" and "hp_blocks h' = hp_blocks h" and "heap_ok h'" and "hr = E_OUTOFMEMORY"
proof (cases "cd_pszLabel cd")
  case None
  with assms(1) null show ?thesis by (auto simp: FieldDescriptorCopy_def)
next
  case (Some l)
  obtain p where d: "SHStrDupW dn (Some l) h = (hr, p, h')"
    using assms(1) Some by (auto simp: FieldDescriptorCopy_def split: prod.splits)
  have h': "heap_ok h'" using SHStrDupW_ok [OF assms(2) d] .
  have e: "d = (if SUCCEEDED hr then Some \<lparr>dwFieldID = of_nat (cd_dwFieldID cd), cpft_of = cd_cpft cd, pszLabel = p\<rparr> else None)"
    using assms(1) Some d by (auto simp: FieldDescriptorCopy_def)
  from d show ?thesis
  proof (cases rule: SHStrDupW_cases)
    case ok
    with e h' that(2) show ?thesis by auto
  next
    case oom
    with e h' that(3) show ?thesis by auto
  qed
qed

lemma SHStrDupW_owns:
  assumes "heap_ok h" and "owns h ps" and "SHStrDupW dn s h = (hr, p, h')"
  shows "heap_ok h'" and "owns h' ps" and "\<And>a. a < hp_next h \<Longrightarrow> hp_blocks h' a = hp_blocks h a"
    and "p = None \<or> p = Some (hp_next h)" and "hp_next h \<le> hp_next h'"
proof -
  show "heap_ok h'" using assms SHStrDupW_ok by blast
  have b: "hp_blocks h' = hp_blocks h \<or> (\<exists>x. hp_blocks h' = (hp_blocks h)(hp_next h \<mapsto> BStr x))"
    using assms(3) by (auto simp: SHStrDupW_def task_alloc_def Let_def split: option.splits if_splits)
  then show "owns h' ps" using assms(2) owns_frame [OF assms(2), of h']
    by (auto simp: is_str_iff)
  show "\<And>a. a < hp_next h \<Longrightarrow> hp_blocks h' a = hp_blocks h a" using b by auto
  show "p = None \<or> p = Some (hp_next h)" and "hp_next h \<le> hp_next h'"
    using assms(3) by (auto simp: SHStrDupW_def task_alloc_def Let_def split: option.splits if_splits)
qed

lemma tile_GetStringValue_ok:
  assumes "tile_ok n h t"
  shows "\<exists>hr p h'. tile_GetStringValue dn n i b t h = Inr (hr, p, h') \<and> tile_ok n h' t"
proof (cases "unat i < n \<and> b")
  case True
  then obtain s where s: "read_str h (tl_strings t ! unat i) = Inr s"
    using owns_read [OF tile_okD(2) [OF assms], of "unat i"] assms
    by (auto simp: tile_ok_def tile_ptrs_nth tile_ptrs_def nth_append)
  obtain hr p h' where d: "SHStrDupW dn s h = (hr, p, h')" by (cases "SHStrDupW dn s h")
  then have "tile_ok n h' t"
    using assms SHStrDupW_owns [OF tile_okD(1) [OF assms] tile_okD(2) [OF assms] d]
    by (simp add: tile_ok_def)
  with True s d show ?thesis by (simp add: tile_GetStringValue_def)
next
  case False
  with assms show ?thesis by (auto simp: tile_GetStringValue_def)
qed

lemma init_fields_ok:
  "tile_ok n h t \<Longrightarrow> set is \<subseteq> {..<n} \<Longrightarrow> init_fields dn ds ss is (hr, t, h) = (hr', t', h') \<Longrightarrow>
     tile_ok n h' t'"
proof (induction "is" arbitrary: hr t h)
  case Nil
  then show ?case by simp
next
  case (Cons i "is")
  show ?case
  proof (cases "SUCCEEDED hr")
    case False
    with Cons.prems show ?thesis by simp
  next
    case True
    let ?t = "t\<lparr>tl_states := (tl_states t)[i := ss ! i]\<rparr>"
    obtain hr1 d h1 where c: "FieldDescriptorCopy dn (ds ! i) h = (hr1, d, h1)"
      by (cases "FieldDescriptorCopy dn (ds ! i) h")
    let ?t2 = "case d of Some d \<Rightarrow> ?t\<lparr>tl_descs := (tl_descs ?t)[i := d]\<rparr> | None \<Rightarrow> ?t"
    have t1: "tile_ok n h ?t" using Cons.prems(1) by (simp add: tile_ok_def)
    have hok: "heap_ok h" using t1 by (rule tile_okD)
    have "tile_ok n h1 ?t2"
      using c hok
    proof (cases rule: FieldDescriptorCopy_cases)
      case (null d')
      with t1 show ?thesis
        by (simp add: tile_ok_def tile_ptrs_state_desc owns_set_None)
    next
      case (ok d' s)
      with t1 owns_set_fresh [OF tile_okD(2) [OF t1] hok ok(5)] show ?thesis
        by (simp add: tile_ok_def tile_ptrs_state_desc)
    next
      case oom
      have "owns h1 (tile_ptrs t)"
        using tile_okD(2) [OF t1] owns_same_blocks [OF oom(2)] by simp
      with t1 oom show ?thesis by (simp add: tile_ok_def)
    qed
    with Cons.IH [of h1 ?t2 hr1] Cons.prems True c show ?thesis by (simp add: Let_def)
  qed
qed

lemma mset_concat_pairs:
  "mset (concat (map (\<lambda>i. [f i, g i]) xs)) = mset (map f xs @ map g xs)"
  by (induction xs) auto

text \<open>Deleting a tile frees exactly what it owns.\<close>

lemma free_fields_ok:
  assumes "tile_ok n h t"
  shows "\<exists>h'. free_fields n t h = Inr h' \<and>
    hp_blocks h' = hp_blocks h |` (- set (addrs (tile_ptrs t))) \<and> hp_next h' = hp_next h"
proof -
  let ?ps = "concat (map (\<lambda>i. [tl_strings t ! i, pszLabel (tl_descs t ! i)]) [0..<n])"
  have m: "mset ?ps = mset (tile_ptrs t)"
  proof -
    have s: "map ((!) (tl_strings t)) [0..<n] = tl_strings t"
      using assms map_nth [of "tl_strings t"] by (simp add: tile_ok_def)
    have "map (\<lambda>i. pszLabel (tl_descs t ! i)) [0..<n] = map pszLabel (map ((!) (tl_descs t)) [0..<n])"
      by simp
    also have "\<dots> = map pszLabel (tl_descs t)"
      using assms map_nth [of "tl_descs t"] by (simp only: tile_ok_def)
    finally show ?thesis using s by (simp add: mset_concat_pairs tile_ptrs_def)
  qed
  have "set (addrs ?ps) = set (addrs (tile_ptrs t))"
    using mset_eq_setD [OF m] by (auto simp: set_addrs)
  moreover have "owns h ?ps" using owns_mset [OF m] assms by (simp add: tile_ok_def)
  ultimately show ?thesis using owns_free_all [of h ?ps] by (simp add: free_fields_def)
qed

end
