(* ===== verification/Sample_Credential.thy ===== *)
theory Sample_Credential
  imports Tile
begin

text \<open>
  \<open>CSampleCredential\<close>: the tile shown while the system is connected. Every method of the
  class is a definition of its own name. A method works on the credential and the heap; the
  calls it makes on LogonUI's callback interface are part of its result. Strings handed in are
  given by their characters up to the terminator.
\<close>

record sample_credential = tile +
  sc_cpus :: "cpus option"
  sc_events :: "nat option"

record world =
  w_heap :: heap
  w_dll :: dll

text \<open>Calls on \<open>ICredentialProviderCredentialEvents\<close>; the first argument is the interface.\<close>

datatype ui_call = EvAddRef nat | EvRelease nat
  | EvSetFieldString nat nat "wstr option"
  | EvSetFieldInteractiveState nat nat cpfis

section \<open>Construction and destruction\<close>

text \<open>\<open>_cpus\<close> is not initialised by the constructor.\<close>

definition CSampleCredential_new :: "dll \<Rightarrow> sample_credential \<times> dll" where
  "CSampleCredential_new d =
     (\<lparr>tl_cRef = 1,
       tl_descs = replicate SFI_NUM_FIELDS zero_descriptor,
       tl_states = replicate SFI_NUM_FIELDS zero_state,
       tl_strings = replicate SFI_NUM_FIELDS None,
       sc_cpus = None, sc_events = None\<rparr>, DllAddRef d)"

text \<open>Overwriting the password with zeros if its terminator lies within 128 characters.\<close>

definition wipe_password :: "ptr \<Rightarrow> heap \<Rightarrow> (HRESULT \<times> heap) res" where
  "wipe_password p h =
     bind_res (read_str h p) (\<lambda>s.
       let (hr, lenPassword) = StringCchLengthW s 128
       in if SUCCEEDED hr
          then bind_res (SecureZeroMemory (the p) lenPassword h) (\<lambda>h1. Inr (hr, h1))
          else Inr (hr, h))"

definition CSampleCredential_delete :: "sample_credential \<Rightarrow> world \<Rightarrow> world res" where
  "CSampleCredential_delete c w =
     (let pwd = tl_strings c ! sfi SFI_PASSWORD
      in bind_res (if pwd \<noteq> None
                   then bind_res (wipe_password pwd (w_heap w)) (\<lambda>(_, h1). Inr h1)
                   else Inr (w_heap w)) (\<lambda>h1.
         bind_res (free_fields SFI_NUM_FIELDS c h1) (\<lambda>h2.
         Inr \<lparr>w_heap = h2, w_dll = DllRelease (w_dll w)\<rparr>)))"

definition CSampleCredential_AddRef :: "sample_credential \<Rightarrow> 32 word \<times> sample_credential" where
  "CSampleCredential_AddRef c = tile_AddRef c"

definition CSampleCredential_Release ::
  "sample_credential \<Rightarrow> world \<Rightarrow> (32 word \<times> sample_credential option \<times> world) res" where
  "CSampleCredential_Release c w =
     (let (cRef, c') = tile_Release c
      in case c' of
           Some c' \<Rightarrow> Inr (cRef, Some c', w)
         | None \<Rightarrow> bind_res (CSampleCredential_delete c w) (\<lambda>w1. Inr (cRef, None, w1)))"

definition CSampleCredential_QueryInterface ::
  "iid \<Rightarrow> bool \<Rightarrow> sample_credential \<Rightarrow> HRESULT \<times> bool option \<times> sample_credential" where
  "CSampleCredential_QueryInterface riid ppv c = tile_QueryInterface riid ppv c"

text \<open>
  The user name is shown as a fixed label: "CSIC" and four Chinese characters; the initial
  password is the literal the class always submits.
\<close>

definition username_label :: wstr where
  "username_label = wide ''CSIC'' @ [0x4e92, 0x8054, 0x8ba4, 0x8bc1]"

definition password_literal :: wstr where
  "password_literal = wide ''12345678-a''"

definition CSampleCredential_Initialize ::
  "HRESULT \<Rightarrow> cpus \<Rightarrow> const_descriptor list \<Rightarrow> FIELD_STATE_PAIR list \<Rightarrow>
     sample_credential \<times> heap \<Rightarrow> HRESULT \<times> sample_credential \<times> heap" where
  "CSampleCredential_Initialize dup_null cpus rgcpfd rgfsp = (\<lambda>(c, h).
     let (hr, c, h) = init_fields dup_null rgcpfd rgfsp [0..<SFI_NUM_FIELDS]
                        (S_OK, c\<lparr>sc_cpus := Some cpus\<rparr>, h);
         (hr, c, h) = (if SUCCEEDED hr
                       then dup_into dup_null (Some username_label) (sfi SFI_USERNAME) (c, h)
                       else (hr, c, h));
         (hr, c, h) = (if SUCCEEDED hr
                       then dup_into dup_null (Some password_literal) (sfi SFI_PASSWORD) (c, h)
                       else (hr, c, h));
         (hr, c, h) = (if SUCCEEDED hr
                       then dup_into dup_null (Some (wide ''Submit'')) (sfi SFI_SUBMIT_BUTTON) (c, h)
                       else (hr, c, h))
     in (S_OK, c, h))"

section \<open>Events\<close>

definition CSampleCredential_Advise ::
  "nat option \<Rightarrow> sample_credential \<Rightarrow> (HRESULT \<times> ui_call list \<times> sample_credential) res" where
  "CSampleCredential_Advise pcpce c =
     (let old = (case sc_events c of Some e \<Rightarrow> [EvRelease e] | None \<Rightarrow> [])
      in case pcpce of
           None \<Rightarrow> Inl NullDeref
         | Some e \<Rightarrow> Inr (S_OK, old @ [EvAddRef e], c\<lparr>sc_events := Some e\<rparr>))"

definition CSampleCredential_UnAdvise ::
  "sample_credential \<Rightarrow> HRESULT \<times> ui_call list \<times> sample_credential" where
  "CSampleCredential_UnAdvise c =
     (S_OK, case sc_events c of Some e \<Rightarrow> [EvRelease e] | None \<Rightarrow> [], c\<lparr>sc_events := None\<rparr>)"

text \<open>The value stored through \<open>pbAutoLogon\<close>, which must not be null.\<close>

definition CSampleCredential_SetSelected ::
  "bool \<Rightarrow> sample_credential \<Rightarrow> (HRESULT \<times> bool \<times> ui_call list) res" where
  "CSampleCredential_SetSelected pbAutoLogon c =
     (let evs = (case sc_events c of
                   Some e \<Rightarrow> [EvSetFieldInteractiveState e (sfi SFI_PASSWORD) CPFIS_FOCUSED]
                 | None \<Rightarrow> [])
      in if pbAutoLogon then Inr (S_OK, True, evs) else Inl NullDeref)"

definition CSampleCredential_SetDeselected ::
  "HRESULT \<Rightarrow> sample_credential \<times> heap \<Rightarrow> (HRESULT \<times> ui_call list \<times> sample_credential \<times> heap) res" where
  "CSampleCredential_SetDeselected dup_null = (\<lambda>(c, h).
     let pwd = tl_strings c ! sfi SFI_PASSWORD
     in if pwd \<noteq> None then
          bind_res (wipe_password pwd h) (\<lambda>(hr, h1).
          bind_res (if SUCCEEDED hr
                    then bind_res (CoTaskMemFree pwd h1) (\<lambda>h2.
                           Inr (dup_into dup_null (Some []) (sfi SFI_PASSWORD) (c, h2)))
                    else Inr (hr, c, h1)) (\<lambda>(hr, c2, h3).
          (case sc_events c2 of
             Some e \<Rightarrow>
               if SUCCEEDED hr
               then bind_res (read_str h3 (tl_strings c2 ! sfi SFI_PASSWORD)) (\<lambda>s.
                      Inr (hr, [EvSetFieldString e (sfi SFI_PASSWORD) s], c2, h3))
               else Inr (hr, [], c2, h3)
           | None \<Rightarrow> Inr (hr, [], c2, h3))))
        else Inr (S_OK, [], c, h))"

section \<open>Field values\<close>

definition CSampleCredential_GetFieldState ::
  "DWORD \<Rightarrow> bool \<Rightarrow> bool \<Rightarrow> sample_credential \<Rightarrow> HRESULT \<times> FIELD_STATE_PAIR option" where
  "CSampleCredential_GetFieldState fid pcpfs pcpfis c = tile_GetFieldState SFI_NUM_FIELDS fid pcpfs pcpfis c"

definition CSampleCredential_GetStringValue ::
  "HRESULT \<Rightarrow> DWORD \<Rightarrow> bool \<Rightarrow> sample_credential \<Rightarrow> heap \<Rightarrow> (HRESULT \<times> ptr option \<times> heap) res" where
  "CSampleCredential_GetStringValue dup_null fid ppwsz c h =
     tile_GetStringValue dup_null SFI_NUM_FIELDS fid ppwsz c h"

text \<open>\<open>LoadBitmap\<close>'s handle, or the last error.\<close>

definition CSampleCredential_GetBitmapValue ::
  "nat + 32 word \<Rightarrow> DWORD \<Rightarrow> bool \<Rightarrow> HRESULT \<times> nat option" where
  "CSampleCredential_GetBitmapValue load_bitmap fid phbmp =
     (if of_nat (sfi SFI_TILEIMAGE) = fid \<and> phbmp then
        (case load_bitmap of
           Inl hbmp \<Rightarrow> (S_OK, Some hbmp)
         | Inr dwErr \<Rightarrow> (HRESULT_FROM_WIN32 dwErr, None))
      else (E_INVALIDARG, None))"

definition CSampleCredential_GetSubmitButtonValue :: "DWORD \<Rightarrow> bool \<Rightarrow> HRESULT \<times> DWORD option" where
  "CSampleCredential_GetSubmitButtonValue fid pdwAdjacentTo =
     (if of_nat (sfi SFI_SUBMIT_BUTTON) = fid \<and> pdwAdjacentTo
      then (S_OK, Some (of_nat (sfi SFI_PASSWORD)))
      else (E_INVALIDARG, None))"

definition CSampleCredential_SetStringValue ::
  "HRESULT \<Rightarrow> DWORD \<Rightarrow> wstr option \<Rightarrow> sample_credential \<times> heap \<Rightarrow>
     (HRESULT \<times> sample_credential \<times> heap) res" where
  "CSampleCredential_SetStringValue dup_null fid pwz = (\<lambda>(c, h).
     if unat fid < SFI_NUM_FIELDS \<and>
        (CPFT_EDIT_TEXT = cpft_of (tl_descs c ! unat fid) \<or>
         CPFT_PASSWORD_TEXT = cpft_of (tl_descs c ! unat fid))
     then bind_res (CoTaskMemFree (tl_strings c ! unat fid) h) (\<lambda>h1.
            Inr (dup_into dup_null pwz (unat fid) (c, h1)))
     else Inr (E_INVALIDARG, c, h))"

text \<open>The controls the tile does not have.\<close>

definition CSampleCredential_GetCheckboxValue :: "DWORD \<Rightarrow> HRESULT" where
  "CSampleCredential_GetCheckboxValue fid = E_NOTIMPL"

definition CSampleCredential_GetComboBoxValueCount :: "DWORD \<Rightarrow> HRESULT" where
  "CSampleCredential_GetComboBoxValueCount fid = E_NOTIMPL"

definition CSampleCredential_GetComboBoxValueAt :: "DWORD \<Rightarrow> DWORD \<Rightarrow> HRESULT" where
  "CSampleCredential_GetComboBoxValueAt fid dwItem = E_NOTIMPL"

definition CSampleCredential_SetCheckboxValue :: "DWORD \<Rightarrow> bool \<Rightarrow> HRESULT" where
  "CSampleCredential_SetCheckboxValue fid bChecked = E_NOTIMPL"

definition CSampleCredential_SetComboBoxSelectedValue :: "DWORD \<Rightarrow> DWORD \<Rightarrow> HRESULT" where
  "CSampleCredential_SetComboBoxSelectedValue fid dwSelectedItem = E_NOTIMPL"

definition CSampleCredential_CommandLinkClicked :: "DWORD \<Rightarrow> HRESULT" where
  "CSampleCredential_CommandLinkClicked fid = E_NOTIMPL"

section \<open>Serialization\<close>

text \<open>
  What \<open>GetSerialization\<close> reads from outside: the global \<open>strUser\<close>, the computer name
  or the last error, the outcome of \<open>DsRoleGetPrimaryDomainInformation\<close> (\<open>None\<close>: failed;
  otherwise the \<open>DomainNameFlat\<close> pointer), the credential and LSA services, the size of the
  packed structure and what fresh memory holds.
\<close>

record logon_env =
  le_dup_null :: HRESULT
  le_strUser :: string
  le_computer :: "wstr + 32 word"
  le_domain :: "wstr option option"
  le_cred :: cred_api
  le_lsa :: lsa_api
  le_sizeof :: nat
  le_junk :: "nat \<Rightarrow> 8 word"

text \<open>What is stored through \<open>pcpgsr\<close> and \<open>pcpcs\<close>.\<close>

record serialization =
  ser_finished :: bool
  ser_blob :: "(addr \<times> packed_logon \<times> DWORD) option"
  ser_package :: "32 word option"
  ser_clsid :: "GUID option"

definition no_serialization :: serialization where
  "no_serialization = \<lparr>ser_finished = False, ser_blob = None, ser_package = None, ser_clsid = None\<rparr>"

text \<open>\<open>std::wstring(s.begin(), s.end())\<close>: each (signed) \<open>char\<close> is converted to \<open>wchar_t\<close>.\<close>

definition widen :: "string \<Rightarrow> wstr" where
  "widen s = map (\<lambda>c. scast (of_nat (of_char c) :: 8 word)) s"

text \<open>
  The part after the password has been protected: find the domain, build, pack, look up the
  package, free the protected password. A flat name that is null leaves \<open>kiul\<close>
  uninitialised, and it is then read.
\<close>

definition serialize_logon ::
  "logon_env \<Rightarrow> wstr \<Rightarrow> ptr \<Rightarrow> sample_credential \<Rightarrow> heap \<Rightarrow> (HRESULT \<times> serialization \<times> heap) res" where
  "serialize_logon env wsz pwzProtectedPassword c h =
     bind_res (read_str h (tl_strings c ! sfi SFI_USERNAME)) (\<lambda>user.
     bind_res (read_str h pwzProtectedPassword) (\<lambda>pwd.
     bind_res (case le_domain env of
                 None \<Rightarrow> Inr (KerbInteractiveUnlockLogonInit (Some wsz) user pwd (the (sc_cpus c)))
               | Some (Some flat) \<Rightarrow>
                   Inr (KerbInteractiveUnlockLogonInit (Some flat) user pwd (the (sc_cpus c)))
               | Some None \<Rightarrow> Inl UndefinedBehaviour) (\<lambda>(hr, kiul).
     bind_res (if SUCCEEDED hr then
                 bind_res (KerbInteractiveUnlockLogonPack (le_sizeof env) (le_junk env) (the kiul) h)
                   (\<lambda>(hr, blob, h1).
                    if SUCCEEDED hr then
                      (let (hr, package, _) = RetrieveNegotiateAuthPackage (le_lsa env);
                           out = no_serialization\<lparr>ser_blob := blob\<rparr>
                       in if SUCCEEDED hr
                          then Inr (hr, out\<lparr>ser_package := package,
                                   ser_clsid := Some CLSID_CSampleProvider, ser_finished := True\<rparr>, h1)
                          else Inr (hr, out, h1))
                    else Inr (hr, no_serialization, h1))
               else Inr (hr, no_serialization, h)) (\<lambda>(hr, out, h2).
     bind_res (CoTaskMemFree pwzProtectedPassword h2) (\<lambda>h3. Inr (hr, out, h3))))))"

definition CSampleCredential_GetSerialization ::
  "logon_env \<Rightarrow> sample_credential \<times> heap \<Rightarrow>
     (HRESULT \<times> serialization \<times> sample_credential \<times> heap) res" where
  "CSampleCredential_GetSerialization env = (\<lambda>(c, h).
     let wtUser = wcs (widen (le_strUser env));
         dup = le_dup_null env;
         (_, c, h) = dup_into dup (Some wtUser) (sfi SFI_USERNAME) (c, h)
     in bind_res (CSampleCredential_SetStringValue dup (of_nat (sfi SFI_USERNAME)) (Some wtUser) (c, h))
          (\<lambda>(_, c, h).
        bind_res (CSampleCredential_SetStringValue dup (of_nat (sfi SFI_PASSWORD)) (Some password_literal) (c, h))
          (\<lambda>(_, c, h).
        (case le_computer env of
           Inl wsz \<Rightarrow>
             bind_res (read_str h (tl_strings c ! sfi SFI_PASSWORD)) (\<lambda>pwd.
             bind_res (case sc_cpus c of
                         Some cpus \<Rightarrow> ProtectIfNecessaryAndCopyPassword dup (le_cred env) pwd cpus h
                       | None \<Rightarrow> Inl UndefinedBehaviour) (\<lambda>(hr, pwzProtectedPassword, h1).
             if SUCCEEDED hr
             then bind_res (serialize_logon env wsz pwzProtectedPassword c h1)
                    (\<lambda>(hr, out, h2). Inr (hr, out, c, h2))
             else Inr (hr, no_serialization, c, h1)))
         | Inr dwErr \<Rightarrow> Inr (HRESULT_FROM_WIN32 dwErr, no_serialization, c, h)))))"

section \<open>Results\<close>

definition STATUS_SUCCESS :: NTSTATUS where "STATUS_SUCCESS = 0"
definition STATUS_LOGON_FAILURE :: NTSTATUS where "STATUS_LOGON_FAILURE = 0xC000006D"
definition STATUS_ACCOUNT_RESTRICTION :: NTSTATUS where "STATUS_ACCOUNT_RESTRICTION = 0xC000006E"
definition STATUS_ACCOUNT_DISABLED :: NTSTATUS where "STATUS_ACCOUNT_DISABLED = 0xC0000072"

datatype cpsi = CPSI_NONE | CPSI_ERROR | CPSI_WARNING | CPSI_SUCCESS

record REPORT_RESULT_STATUS_INFO =
  ri_ntsStatus :: NTSTATUS
  ri_ntsSubstatus :: NTSTATUS
  ri_pwzMessage :: wstr
  ri_cpsi :: cpsi

definition s_rgLogonStatusInfo :: "REPORT_RESULT_STATUS_INFO list" where
  "s_rgLogonStatusInfo =
     [\<lparr>ri_ntsStatus = STATUS_LOGON_FAILURE, ri_ntsSubstatus = STATUS_SUCCESS,
       ri_pwzMessage = [0x7528, 0x6237, 0x540d, 0x6216, 0x5bc6, 0x7801, 0x9519, 0x8bef, 0xff01,
                        0x8bf7, 0x91cd, 0x65b0, 0x8f93, 0x5165, 0xff01],
       ri_cpsi = CPSI_ERROR\<rparr>,
      \<lparr>ri_ntsStatus = STATUS_ACCOUNT_RESTRICTION, ri_ntsSubstatus = STATUS_ACCOUNT_DISABLED,
       ri_pwzMessage = [0x7528, 0x6237, 0x4e0d, 0x5b58, 0x5728], ri_cpsi = CPSI_WARNING\<rparr>]"

text \<open>The search for the first matching row; \<open>None\<close> is the code's \<open>(DWORD)-1\<close>.\<close>

fun find_status :: "NTSTATUS \<Rightarrow> NTSTATUS \<Rightarrow> REPORT_RESULT_STATUS_INFO list \<Rightarrow> REPORT_RESULT_STATUS_INFO option" where
  "find_status st sub [] = None"
| "find_status st sub (r # rs) =
     (if ri_ntsStatus r = st \<and> ri_ntsSubstatus r = sub then Some r else find_status st sub rs)"

text \<open>The result, the status text, the icon, the calls on the UI, the heap.\<close>

definition CSampleCredential_ReportResult ::
  "HRESULT \<Rightarrow> NTSTATUS \<Rightarrow> NTSTATUS \<Rightarrow> sample_credential \<Rightarrow> heap \<Rightarrow>
     HRESULT \<times> ptr \<times> cpsi \<times> ui_call list \<times> heap" where
  "CSampleCredential_ReportResult dup_null ntsStatus ntsSubstatus c h =
     (let (text, icon, h1) =
            (case find_status ntsStatus ntsSubstatus s_rgLogonStatusInfo of
               Some r \<Rightarrow>
                 (let (hr, p, h1) = SHStrDupW dup_null (Some (ri_pwzMessage r)) h
                  in (p, if SUCCEEDED hr then ri_cpsi r else CPSI_NONE, h1))
             | None \<Rightarrow> (None, CPSI_NONE, h));
          evs = (if \<not> SUCCEEDED (HRESULT_FROM_NT ntsStatus) then
                   (case sc_events c of
                      Some e \<Rightarrow> [EvSetFieldString e (sfi SFI_PASSWORD) (Some [])]
                    | None \<Rightarrow> [])
                 else [])
      in (S_OK, text, icon, evs, h1))"

end
