(* ===== verification/Sample_Credential_Correct.thy ===== *)
theory Sample_Credential_Correct
  imports Sample_Credential Helpers_Correct
begin

text \<open>
  What \<open>CSampleCredential\<close> guarantees: no sequence of LogonUI's calls makes it fault,
  deleting it frees each block it owns once, deselecting the tile wipes a password
  shorter than 128 characters before it is freed, and what it serializes is the global user name with the
  literal password, whatever was typed into the tile.
\<close>

section \<open>The calls of a client\<close>

datatype cred_call = CallAdvise "nat option" | CallUnAdvise | CallSetSelected bool | CallSetDeselected
  | CallGetFieldState DWORD bool bool | CallGetStringValue DWORD bool
  | CallSetStringValue DWORD "wstr option" | CallGetSerialization logon_env
  | CallReportResult NTSTATUS NTSTATUS

fun sample_step :: "HRESULT \<Rightarrow> cred_call \<Rightarrow> sample_credential \<times> heap \<Rightarrow>
    (HRESULT \<times> sample_credential \<times> heap) res" where
  "sample_step n (CallAdvise e) (c, h) =
     bind_res (CSampleCredential_Advise e c) (\<lambda>(hr, _, c'). Inr (hr, c', h))"
| "sample_step n CallUnAdvise (c, h) = (let (hr, _, c') = CSampleCredential_UnAdvise c in Inr (hr, c', h))"
| "sample_step n (CallSetSelected b) (c, h) =
     bind_res (CSampleCredential_SetSelected b c) (\<lambda>(hr, _, _). Inr (hr, c, h))"
| "sample_step n CallSetDeselected (c, h) =
     bind_res (CSampleCredential_SetDeselected n (c, h)) (\<lambda>(hr, _, c', h'). Inr (hr, c', h'))"
| "sample_step n (CallGetFieldState i a b) (c, h) =
     Inr (fst (CSampleCredential_GetFieldState i a b c), c, h)"
| "sample_step n (CallGetStringValue i b) (c, h) =
     bind_res (CSampleCredential_GetStringValue n i b c h) (\<lambda>(hr, _, h'). Inr (hr, c, h'))"
| "sample_step n (CallSetStringValue i s) (c, h) = CSampleCredential_SetStringValue n i s (c, h)"
| "sample_step n (CallGetSerialization env) (c, h) =
     bind_res (CSampleCredential_GetSerialization env (c, h)) (\<lambda>(hr, _, c', h'). Inr (hr, c', h'))"
| "sample_step n (CallReportResult st sub) (c, h) =
     (let (hr, _, _, _, h') = CSampleCredential_ReportResult n st sub c h in Inr (hr, c, h'))"

text \<open>
  An environment \<open>GetSerialization\<close> can work with: the credential service and
  \<open>GetComputerNameW\<close> report errors as positive codes, the machine's domain information has a flat name when it is delivered, and the
  structure has a plausible size.
\<close>

definition logon_env_ok :: "logon_env \<Rightarrow> bool" where
  "logon_env_ok env \<longleftrightarrow> cred_api_ok (le_cred env) \<and> le_domain env \<noteq> Some None \<and> le_sizeof env \<le> 65536 \<and>
     (case le_computer env of Inl _ \<Rightarrow> True | Inr dwErr \<Rightarrow> 0 < sint dwErr)"

text \<open>The interface's rules: the pointers the class dereferences are not null.\<close>

fun call_allowed :: "cred_call \<Rightarrow> bool" where
  "call_allowed (CallAdvise e) \<longleftrightarrow> e \<noteq> None"
| "call_allowed (CallSetSelected b) \<longleftrightarrow> b"
| "call_allowed (CallGetSerialization env) \<longleftrightarrow> logon_env_ok env"
| "call_allowed _ \<longleftrightarrow> True"

definition sample_inv :: "sample_credential \<times> heap \<Rightarrow> bool" where
  "sample_inv = (\<lambda>(c, h). tile_ok SFI_NUM_FIELDS h c \<and> sc_cpus c \<noteq> None)"

section \<open>Lemmas\<close>

lemma sample_tile_okD:
  assumes "tile_ok SFI_NUM_FIELDS h (c :: sample_credential)" and "i < SFI_NUM_FIELDS"
  shows "i < length (tl_strings c)" and "i < length (tile_ptrs c)" and "tile_ptrs c ! i = tl_strings c ! i"
  using assms by (auto simp: tile_ok_def tile_ptrs_def nth_append)

lemma password_index: "sfi SFI_PASSWORD < SFI_NUM_FIELDS" "sfi SFI_USERNAME < SFI_NUM_FIELDS"
    "unat (of_nat (sfi SFI_PASSWORD) :: DWORD) = sfi SFI_PASSWORD"
    "unat (of_nat (sfi SFI_USERNAME) :: DWORD) = sfi SFI_USERNAME"
  by (simp_all add: SFI_NUM_FIELDS_def)

lemma owned_string:
  assumes "tile_ok SFI_NUM_FIELDS h (c :: sample_credential)" and "i < SFI_NUM_FIELDS"
    and "tl_strings c ! i = Some a"
  shows "\<exists>s. hp_blocks h a = Some (BStr s)"
proof -
  have "owns h (tile_ptrs c)" using assms(1) by (rule tile_okD)
  then have "owns h (Some a # take i (tile_ptrs c) @ drop (Suc i) (tile_ptrs c))"
    using sample_tile_okD [OF assms(1,2)] owns_front [of i "tile_ptrs c" h] assms(3) by simp
  then show ?thesis by (auto simp: is_str_iff)
qed

lemma wipe_password_eq:
  assumes "hp_blocks h a = Some (BStr s)"
  shows "wipe_password (Some a) h =
    (if length (wcs s) < 128
     then Inr (S_OK, task_write a (BStr (replicate (length (wcs s)) 0 @ drop (length (wcs s)) s)) h)
     else Inr (E_INVALIDARG, h))"
  using assms length_wcs [of s]
  by (simp add: wipe_password_def read_str_Some StringCchLengthW_def SecureZeroMemory_def)

lemma tile_ok_write:
  assumes "tile_ok n h t" and "is_str h a"
  shows "tile_ok n (task_write a (BStr s) h) t"
proof -
  have "heap_ok (task_write a (BStr s) h)"
    using assms by (auto simp: tile_ok_def heap_ok_def task_write_def is_str_iff)
  moreover have "owns (task_write a (BStr s) h) (tile_ptrs t)"
    by (rule owns_frame [OF tile_okD(2) [OF assms(1)]]) (auto simp: is_str_iff task_write_def)
  ultimately show ?thesis using assms(1) by (simp add: tile_ok_def)
qed

text \<open>Freeing the string of a field and storing a copy of another one.\<close>

lemma free_then_dup:
  assumes "tile_ok n h t" and "i < n"
  shows "\<exists>h1 hr t' h'. CoTaskMemFree (tl_strings t ! i) h = Inr h1 \<and>
    dup_into dn s i (t, h1) = (hr, t', h') \<and> tile_ok n h' t'"
proof -
  have i: "i < length (tl_strings t)" "i < length (tile_ptrs t)"
    using assms by (auto simp: tile_ok_def tile_ptrs_def)
  obtain h1 where f: "CoTaskMemFree (tl_strings t ! i) h = Inr h1"
    and o: "owns h1 ((tile_ptrs t)[i := None])"
    using owns_free [OF tile_okD(2) [OF assms(1)] i(2)] by (auto simp: tile_ptrs_nth [OF i(1)])
  let ?t = "t\<lparr>tl_strings := (tl_strings t)[i := None]\<rparr>"
  have "tile_ok n h1 ?t"
    using assms(1) o CoTaskMemFree_ok [OF tile_okD(1) [OF assms(1)] f]
    by (simp add: tile_ok_def tile_ptrs_string [OF i(1)])
  moreover obtain hr t' h' where d: "dup_into dn s i (t, h1) = (hr, t', h')"
    by (cases "dup_into dn s i (t, h1)")
  moreover from d have "dup_into dn s i (?t, h1) = (hr, t', h')"
    by (auto simp: dup_into_def split: prod.splits)
  ultimately show ?thesis using f dup_into_ok assms(2) by blast
qed

lemma dup_into_frame:
  assumes "dup_into dn s i (t, h) = (hr, t', h')"
  shows "tl_descs t' = tl_descs t" and "tl_states t' = tl_states t" and "tl_cRef t' = tl_cRef t"
    and "tile.more t' = tile.more t"
    and "j \<noteq> i \<Longrightarrow> tl_strings t' ! j = tl_strings t ! j"
    and "length (tl_strings t') = length (tl_strings t)"
  using assms by (auto simp: dup_into_def split: prod.splits)

lemma dup_into_sample:
  "dup_into dn s i (t, h) = (hr, t', h') \<Longrightarrow> sc_cpus t' = sc_cpus t"
  "dup_into dn s i (t, h) = (hr, t', h') \<Longrightarrow> sc_events t' = sc_events t"
  by (auto simp: dup_into_def split: prod.splits)

lemma SetStringValue_ok:
  assumes "sample_inv (c, h)"
  shows "\<exists>hr c' h'. CSampleCredential_SetStringValue dn i s (c, h) = Inr (hr, c', h') \<and> sample_inv (c', h')"
proof (cases "unat i < SFI_NUM_FIELDS")
  case True
  have t: "tile_ok SFI_NUM_FIELDS h c" using assms by (simp add: sample_inv_def)
  from free_then_dup [OF t True, of dn s] obtain h1 hr c' h'
    where "CoTaskMemFree (tl_strings c ! unat i) h = Inr h1"
      and d: "dup_into dn s (unat i) (c, h1) = (hr, c', h')" and "tile_ok SFI_NUM_FIELDS h' c'"
    by blast
  with assms dup_into_sample(1) [OF d] show ?thesis
    by (auto simp: CSampleCredential_SetStringValue_def sample_inv_def)
next
  case False
  with assms show ?thesis by (simp add: CSampleCredential_SetStringValue_def)
qed

lemma SetDeselected_ok:
  assumes "sample_inv (c, h)"
  shows "\<exists>hr evs c' h'. CSampleCredential_SetDeselected dn (c, h) = Inr (hr, evs, c', h') \<and> sample_inv (c', h')"
proof (cases "tl_strings c ! sfi SFI_PASSWORD")
  case None
  with assms show ?thesis by (simp add: CSampleCredential_SetDeselected_def)
next
  case (Some a)
  have t: "tile_ok SFI_NUM_FIELDS h c" using assms by (simp add: sample_inv_def)
  obtain s where s: "hp_blocks h a = Some (BStr s)" using owned_string [OF t password_index(1) Some] by blast
  show ?thesis
  proof (cases "length (wcs s) < 128")
    case False
    with Some s assms show ?thesis
      by (auto simp: CSampleCredential_SetDeselected_def wipe_password_eq split: option.splits)
  next
    case True
    let ?h = "task_write a (BStr (replicate (length (wcs s)) 0 @ drop (length (wcs s)) s)) h"
    have "tile_ok SFI_NUM_FIELDS ?h c" by (rule tile_ok_write [OF t]) (simp add: is_str_iff s)
    from free_then_dup [OF this password_index(1), of dn "Some []"] obtain h1 hr c' h'
      where f: "CoTaskMemFree (Some a) ?h = Inr h1" 
        and d: "dup_into dn (Some []) (sfi SFI_PASSWORD) (c, h1) = (hr, c', h')"
        and t': "tile_ok SFI_NUM_FIELDS h' c'"
      unfolding Some by blast
    obtain r where r: "read_str h' (tl_strings c' ! sfi SFI_PASSWORD) = Inr r"
      using owns_read [OF tile_okD(2) [OF t'] sample_tile_okD(2) [OF t' password_index(1)]]
      unfolding sample_tile_okD(3) [OF t' password_index(1)] by blast
    have "sc_cpus c' = sc_cpus c" by (rule dup_into_sample(1) [OF d])
    then have "sample_inv (c', h')" using t' assms by (simp add: sample_inv_def)
    moreover have "\<exists>evs. CSampleCredential_SetDeselected dn (c, h) = Inr (hr, evs, c', h')"
      using Some s True f d r
      by (cases "sc_events c'"; cases "SUCCEEDED hr")
        (simp_all add: CSampleCredential_SetDeselected_def wipe_password_eq)
    ultimately show ?thesis by blast
  qed
qed

lemma GetStringValue_ok:
  assumes "sample_inv (c, h)"
  shows "\<exists>hr p h'. CSampleCredential_GetStringValue dn i b c h = Inr (hr, p, h') \<and> sample_inv (c, h')"
  using tile_GetStringValue_ok [of SFI_NUM_FIELDS h c dn i b] assms
  by (auto simp: CSampleCredential_GetStringValue_def sample_inv_def)

lemma ReportResult_ok:
  assumes "sample_inv (c, h)" and "CSampleCredential_ReportResult dn st sub c h = (hr, p, ic, evs, h')"
  shows "sample_inv (c, h')"
proof (cases "find_status st sub s_rgLogonStatusInfo")
  case None
  with assms show ?thesis by (auto simp: CSampleCredential_ReportResult_def)
next
  case (Some r)
  have t: "tile_ok SFI_NUM_FIELDS h c" using assms by (simp add: sample_inv_def)
  obtain hr1 q where d: "SHStrDupW dn (Some (ri_pwzMessage r)) h = (hr1, q, h')"
    using assms(2) Some by (auto simp: CSampleCredential_ReportResult_def Let_def split: prod.splits)
  show ?thesis using SHStrDupW_owns(1,2) [OF tile_okD [OF t] d] assms(1)
    by (simp add: sample_inv_def tile_ok_def)
qed

section \<open>Serialization\<close>

lemma tile_ok_same_blocks:
  assumes "tile_ok n h t" and "heap_ok h'"
    and "\<And>a. a \<in> set (addrs (tile_ptrs t)) \<Longrightarrow> hp_blocks h' a = hp_blocks h a"
  shows "tile_ok n h' t"
proof -
  have "owns h' (tile_ptrs t)"
    by (rule owns_frame [OF tile_okD(2) [OF assms(1)]]) (use assms(3) in \<open>auto simp: is_str_iff\<close>)
  with assms show ?thesis by (simp add: tile_ok_def)
qed

lemma tile_ok_fresh: "tile_ok n h t \<Longrightarrow> hp_next h \<le> a \<Longrightarrow> a \<notin> set (addrs (tile_ptrs t))"
  using fresh_not_owned tile_okD by blast

text \<open>What a finished serialization contains.\<close>

definition submits :: "nat \<Rightarrow> wstr \<Rightarrow> wstr \<Rightarrow> wstr \<Rightarrow> 32 word \<Rightarrow> serialization \<Rightarrow> bool" where
  "submits sz dm user pwd mt out \<longleftrightarrow>
     ser_finished out \<and> ser_clsid out = Some CLSID_CSampleProvider \<and> ser_package out \<noteq> None \<and>
     (case ser_blob out of
        None \<Rightarrow> False
      | Some (_, pk, cb) \<Rightarrow>
          read_packed sz pk (pk_LogonDomainName pk) = dm \<and>
          read_packed sz pk (pk_UserName pk) = user \<and>
          read_packed sz pk (pk_Password pk) = pwd \<and> pk_MessageType pk = mt \<and>
          unat cb = sz + length (pk_extra pk))"

definition logon_domain :: "logon_env \<Rightarrow> wstr \<Rightarrow> wstr" where
  "logon_domain env wsz = (case le_domain env of Some (Some flat) \<Rightarrow> flat | _ \<Rightarrow> wsz)"

text \<open>Freeing a block of its own leaves a tile as it was.\<close>

lemma tile_free_other:
  assumes t: "tile_ok SFI_NUM_FIELDS h c" and p: "hp_blocks h p = Some (BStr s)" and np: "p \<notin> set (addrs (tile_ptrs c))"
    and h1: "heap_ok h1" "\<And>a. a < hp_next h \<Longrightarrow> hp_blocks h1 a = hp_blocks h a"
  shows "\<exists>h2. CoTaskMemFree (Some p) h1 = Inr h2 \<and> tile_ok SFI_NUM_FIELDS h2 c \<and>
      (\<forall>a. a \<noteq> p \<longrightarrow> a < hp_next h \<longrightarrow> hp_blocks h2 a = hp_blocks h a)"
proof -
  have lt: "a < hp_next h" if "a \<in> set (addrs (tile_ptrs c))" for a
    using tile_ok_fresh [OF t, of a] that by (meson not_less)
  have "p < hp_next h" using p tile_okD(1) [OF t] by (auto simp: heap_ok_def not_less [symmetric])
  then have "hp_blocks h1 p = Some (BStr s)" using h1 p by simp
  then have f: "CoTaskMemFree (Some p) h1 =
      Inr (h1\<lparr>hp_blocks := (hp_blocks h1)(p := None), hp_freed := BStr s # hp_freed h1\<rparr>)" (is "_ = Inr ?h2")
    by (rule CoTaskMemFree_live)
  have "tile_ok SFI_NUM_FIELDS ?h2 c"
    by (rule tile_ok_same_blocks [OF t]) (use h1 lt np in \<open>auto simp: heap_ok_def\<close>)
  with f h1 show ?thesis by simp
qed

text \<open>The domain is the machine's own or its domain's.\<close>

lemma domain_init:
  assumes "logon_env_ok env"
  shows "(case le_domain env of
       None \<Rightarrow> Inr (KerbInteractiveUnlockLogonInit (Some wsz) u pw cp)
     | Some (Some flat) \<Rightarrow> Inr (KerbInteractiveUnlockLogonInit (Some flat) u pw cp)
     | Some None \<Rightarrow> Inl UndefinedBehaviour) =
     Inr (KerbInteractiveUnlockLogonInit (Some (logon_domain env wsz)) u pw cp)"
  using assms by (auto simp: logon_env_ok_def logon_domain_def split: option.splits)

lemma serialize_logon_ok:
  assumes t: "tile_ok SFI_NUM_FIELDS h c" and p: "hp_blocks h p = Some (BStr s)"
    and np: "p \<notin> set (addrs (tile_ptrs c))" and env: "logon_env_ok env"
    and cp: "sc_cpus c = Some cp" and u: "read_str h (tl_strings c ! sfi SFI_USERNAME) = Inr u"
  shows "\<exists>hr out h'. serialize_logon env wsz (Some p) c h = Inr (hr, out, h') \<and> tile_ok SFI_NUM_FIELDS h' c \<and>
    (\<forall>a. a \<noteq> p \<longrightarrow> a < hp_next h \<longrightarrow> hp_blocks h' a = hp_blocks h a) \<and>
    (SUCCEEDED hr \<longrightarrow> (u \<noteq> None \<and> (\<exists>mt. message_type cp = Some mt \<and>
       submits (le_sizeof env) (logon_domain env wsz) (the u) (wcs s) mt out)))"
proof -
  let ?d = "logon_domain env wsz"
  let ?fits = "fits_unicode_string (Some ?d) \<and> fits_unicode_string u \<and> fits_unicode_string (Some (wcs s)) \<and>
    message_type cp \<noteq> None"
  have rp: "read_str h (Some p) = Inr (Some (wcs s))" using p by (rule read_str_Some)
  note init = domain_init [OF env, of wsz u "Some (wcs s)" "the (sc_cpus c)"]
  note free = tile_free_other [OF t p np]
  show ?thesis
  proof (cases ?fits)
    case False
    then obtain hr where "\<not> SUCCEEDED hr"
      and "KerbInteractiveUnlockLogonInit (Some ?d) u (Some (wcs s)) cp = (hr, None)"
      using logon_init_cases(2) by blast
    with free [of h] tile_okD(1) [OF t] show ?thesis
      by (auto simp: serialize_logon_def u rp cp init simp del: sfi.simps)
  next
    case True
    then obtain x mt where ux: "u = Some x" and mt: "message_type cp = Some mt"
      by (cases u) (auto simp: fits_unicode_string_def)
    have len: "length ?d < 32768" "length x < 32768" "length (wcs s) < 32768" "le_sizeof env \<le> 65536"
      using True env ux by (auto simp: fits_unicode_string_def logon_env_ok_def)
    have k: "KerbInteractiveUnlockLogonInit (Some ?d) u (Some (wcs s)) cp = (S_OK, Some (logon_of mt ?d x (wcs s)))"
      using logon_init_cases(1) [of "Some ?d" u "Some (wcs s)" cp mt] True mt ux by simp
    obtain nhr npk nk where neg: "RetrieveNegotiateAuthPackage (le_lsa env) = (nhr, npk, nk)"
      by (cases "RetrieveNegotiateAuthPackage (le_lsa env)")
    show ?thesis
    proof (rule pack_total [OF tile_okD(1) [OF t] len(4) len(1) len(2) len(3), of "le_junk env" mt])
      fix h' assume 1: "KerbInteractiveUnlockLogonPack (le_sizeof env) (le_junk env) (logon_of mt ?d x (wcs s)) h =
          Inr (E_OUTOFMEMORY, None, h')" and 2: "heap_ok h'" "hp_blocks h' = hp_blocks h"
      from free [OF 2(1)] 2(2) 1 show ?thesis
        by (auto simp: serialize_logon_def u [unfolded ux] rp cp init [unfolded ux] k [unfolded ux]
             simp del: sfi.simps)
    next
      fix cb h' bs
      assume 1: "KerbInteractiveUnlockLogonPack (le_sizeof env) (le_junk env) (logon_of mt ?d x (wcs s)) h =
          Inr (S_OK, Some (hp_next h, packed_of (le_sizeof env) mt ?d x (wcs s), cb), h')"
        and 2: "heap_ok h'" "hp_blocks h' = (hp_blocks h)(hp_next h \<mapsto> BBytes bs)"
        and cb: "unat cb = packed_size (le_sizeof env) ?d x (wcs s)"
      have n: "SUCCEEDED nhr \<longleftrightarrow> npk \<noteq> None" using negotiate_succeeds_iff [OF neg] by simp
      have r: "pk_MessageType (packed_of sz mt d u p) = mt"
        "packed_size sz d u p = sz + length (pk_extra (packed_of sz mt d u p))" for sz mt d u p
        by (simp_all add: packed_of_def packed_size_def)
      obtain h2 where f: "CoTaskMemFree (Some p) h' = Inr h2" "tile_ok SFI_NUM_FIELDS h2 c"
        "\<forall>a. a \<noteq> p \<longrightarrow> a < hp_next h \<longrightarrow> hp_blocks h2 a = hp_blocks h a"
        using free [OF 2(1)] 2(2) by auto
      show ?thesis
        using f 1 neg cb n mt read_packed_of [OF len(1-3), of "le_sizeof env" mt]
        by (cases "SUCCEEDED nhr")
          (auto simp: serialize_logon_def u [unfolded ux] rp cp init [unfolded ux] k [unfolded ux] ux
             submits_def no_serialization_def r simp del: sfi.simps)
    qed
  qed
qed

text \<open>
  The field types the provider's table gives the tile: the user name is plain text, which
  \<open>SetStringValue\<close> refuses to set, the password is a password field.
\<close>

definition sample_typed :: "sample_credential \<Rightarrow> bool" where
  "sample_typed c \<longleftrightarrow> cpft_of (tl_descs c ! sfi SFI_USERNAME) = CPFT_LARGE_TEXT \<and>
     cpft_of (tl_descs c ! sfi SFI_PASSWORD) = CPFT_PASSWORD_TEXT"

lemma SetStringValue_username:
  "sample_typed c \<Longrightarrow>
     CSampleCredential_SetStringValue dn (of_nat (sfi SFI_USERNAME)) s (c, h) = Inr (E_INVALIDARG, c, h)"
  by (simp add: CSampleCredential_SetStringValue_def sample_typed_def)

text \<open>Copying a string into a field, by whether the allocation succeeds.\<close>

lemma dup_into_eq:
  "dup_into dn (Some s) i (t, h) =
     (if hp_fails h (hp_next h)
      then (E_OUTOFMEMORY, t\<lparr>tl_strings := (tl_strings t)[i := None]\<rparr>, h\<lparr>hp_next := Suc (hp_next h)\<rparr>)
      else (S_OK, t\<lparr>tl_strings := (tl_strings t)[i := Some (hp_next h)]\<rparr>,
            h\<lparr>hp_blocks := (hp_blocks h)(hp_next h \<mapsto> BStr s), hp_next := Suc (hp_next h)\<rparr>))"
  by (simp add: dup_into_def SHStrDupW_def task_alloc_def)

text \<open>Setting the password: what it stores, and what it leaves alone.\<close>

text \<open>
  Freeing a string and storing a copy of another in its place: what is read back, and which blocks stay as they were.
\<close>

lemma free_dup_blocks:
  fixes c :: sample_credential
  assumes t: "tile_ok SFI_NUM_FIELDS h c" and k: "k < SFI_NUM_FIELDS"
    and f: "CoTaskMemFree (tl_strings c ! k) h = Inr h1" and d: "dup_into dn (Some s) k (c, h1) = (hr, c', h')"
  shows "read_str h' (tl_strings c' ! k) = Inr (if hp_fails h (hp_next h) then None else Some (wcs s))"
    and "a < hp_next h \<Longrightarrow> tl_strings c ! k \<noteq> Some a \<Longrightarrow> hp_blocks h' a = hp_blocks h a"
    and "a < hp_next h \<Longrightarrow> a \<notin> set (addrs (tile_ptrs c)) \<Longrightarrow>
      hp_blocks h' a = hp_blocks h a \<and> a \<notin> set (addrs (tile_ptrs c'))"
    and "hp_next h \<le> hp_next h'"
proof -
  note i = sample_tile_okD [OF t k]
  have b: "hp_blocks h1 = hp_blocks h |` (- set_option (tl_strings c ! k))"
    and n: "hp_next h1 = hp_next h" and fl: "hp_fails h1 = hp_fails h"
    using owns_free [OF tile_okD(2) [OF t] i(2)] f unfolding i(3) by auto
  show "read_str h' (tl_strings c' ! k) = Inr (if hp_fails h (hp_next h) then None else Some (wcs s))"
    using d i(1) n fl by (auto simp: dup_into_eq read_str_Some split: if_splits)
  show "hp_next h \<le> hp_next h'" using d n by (auto simp: dup_into_eq split: if_splits)
  have keep: "hp_blocks h' a = hp_blocks h a" if "a < hp_next h" "tl_strings c ! k \<noteq> Some a" for a
  proof -
    have "hp_blocks h1 a = hp_blocks h a" using b that(2)
      by (cases "tl_strings c ! k") (auto simp: restrict_map_def)
    then show ?thesis using d that(1) n by (auto simp: dup_into_eq split: if_splits)
  qed
  then show "a < hp_next h \<Longrightarrow> tl_strings c ! k \<noteq> Some a \<Longrightarrow> hp_blocks h' a = hp_blocks h a" .
  assume a: "a < hp_next h" "a \<notin> set (addrs (tile_ptrs c))"
  have "Some a \<in> set (tile_ptrs c)" if "tl_strings c ! k = Some a"
    using that i by (metis nth_mem)
  then have "hp_blocks h' a = hp_blocks h a" using keep a by (auto simp: set_addrs)
  then show "hp_blocks h' a = hp_blocks h a \<and> a \<notin> set (addrs (tile_ptrs c'))"
    using d a n fl set_addrs_update(1) [of "tile_ptrs c" k] set_addrs_update(2) [of "tile_ptrs c" k "hp_next h"]
    by (auto simp: dup_into_eq tile_ptrs_string [OF i(1)] simp del: sfi.simps split: if_splits)
qed

lemma SetStringValue_password:
  assumes t: "tile_ok SFI_NUM_FIELDS h c" and ty: "sample_typed c"
  shows "\<exists>hr c' h'. CSampleCredential_SetStringValue dn (of_nat (sfi SFI_PASSWORD)) (Some s) (c, h) = Inr (hr, c', h') \<and>
    tile_ok SFI_NUM_FIELDS h' c' \<and> sc_cpus c' = sc_cpus c \<and>
    read_str h' (tl_strings c' ! sfi SFI_PASSWORD) =
      Inr (if hp_fails h (hp_next h) then None else Some (wcs s)) \<and>
    read_str h' (tl_strings c' ! sfi SFI_USERNAME) = read_str h (tl_strings c ! sfi SFI_USERNAME) \<and>
    (\<forall>a < hp_next h. a \<notin> set (addrs (tile_ptrs c)) \<longrightarrow>
       hp_blocks h' a = hp_blocks h a \<and> a \<notin> set (addrs (tile_ptrs c'))) \<and>
    hp_next h \<le> hp_next h'"
proof -
  let ?i = "sfi SFI_PASSWORD"
  note i = sample_tile_okD [OF t password_index(1)] and j = sample_tile_okD [OF t password_index(2)]
  obtain h1 where f: "CoTaskMemFree (tl_strings c ! ?i) h = Inr h1"
    using owns_free [OF tile_okD(2) [OF t] i(2)] unfolding i(3) by blast
  obtain hr c' h' where d: "dup_into dn (Some s) ?i (c, h1) = (hr, c', h')"
    by (cases "dup_into dn (Some s) ?i (c, h1)")
  have t': "tile_ok SFI_NUM_FIELDS h' c'"
    using free_then_dup [OF t password_index(1), of dn "Some s"] f d by auto
  have eq: "CSampleCredential_SetStringValue dn (of_nat ?i) (Some s) (c, h) = Inr (hr, c', h')"
    using ty f d password_index
    by (simp add: CSampleCredential_SetStringValue_def sample_typed_def del: sfi.simps)
  note blocks = free_dup_blocks [OF t password_index(1) f d]
  have un: "tl_strings c' ! sfi SFI_USERNAME = tl_strings c ! sfi SFI_USERNAME"
    by (rule dup_into_frame(5) [OF d]) simp
  have "hp_blocks h' a = hp_blocks h a" if "tl_strings c ! sfi SFI_USERNAME = Some a" for a
  proof (rule blocks(2))
    show "a < hp_next h" using owned_string [OF t password_index(2) that] tile_okD(1) [OF t]
      by (auto simp: heap_ok_def not_less [symmetric])
    show "tl_strings c ! ?i \<noteq> Some a"
      using owns_distinct [OF tile_okD(2) [OF t] j(2) i(2), of a] that i(3) j(3) by simp
  qed
  then have "read_str h' (tl_strings c' ! sfi SFI_USERNAME) = read_str h (tl_strings c ! sfi SFI_USERNAME)"
    unfolding un by (cases "tl_strings c ! sfi SFI_USERNAME") (auto simp: read_str_def)
  moreover have "sc_cpus c' = sc_cpus c" by (rule dup_into_sample(1) [OF d])
  ultimately show ?thesis using eq t' blocks(1,3,4) by blast
qed

lemma protect_and_serialize:
  assumes t: "tile_ok SFI_NUM_FIELDS h c" and env: "logon_env_ok env" and cp: "sc_cpus c = Some cp"
    and pw: "read_str h (tl_strings c ! sfi SFI_PASSWORD) = Inr pw"
    and u: "read_str h (tl_strings c ! sfi SFI_USERNAME) = Inr u"
    and prot: "ProtectIfNecessaryAndCopyPassword dn (le_cred env) pw cp h = Inr (hr, p, h1)"
  shows "\<exists>hr' out h'. (if SUCCEEDED hr
             then bind_res (serialize_logon env wsz p c h1) (\<lambda>(hr, out, h2). Inr (hr, out, c, h2))
             else Inr (hr, no_serialization, c, h1)) = Inr (hr', out, c, h') \<and>
    tile_ok SFI_NUM_FIELDS h' c \<and>
    (\<forall>x. hp_blocks h x \<noteq> None \<longrightarrow> hp_blocks h' x = hp_blocks h x) \<and>
    (SUCCEEDED hr' \<longrightarrow> (u \<noteq> None \<and> (\<exists>mt. message_type cp = Some mt \<and>
       submits (le_sizeof env) (logon_domain env wsz) (the u) (wcs (protected_text (le_cred env) cp pw)) mt out)))"
proof -
  have api: "cred_api_ok (le_cred env)" using env by (simp add: logon_env_ok_def)
  have aon: "all_or_nothing h (hr, p, h1) (protected_text (le_cred env) cp pw)"
    using protect_password_all_or_nothing [OF tile_okD(1) [OF t] api, of dn pw cp] prot by auto
  show ?thesis
  proof (cases "SUCCEEDED hr")
    case False
    with aon have h1: "hp_blocks h1 = hp_blocks h" "heap_ok h1" by (auto simp: all_or_nothing_def)
    then have "tile_ok SFI_NUM_FIELDS h1 c" using tile_ok_same_blocks [OF t] by simp
    with False h1 show ?thesis by simp
  next
    case True
    then obtain a where p: "p = Some a" and a: "a \<notin> live h"
      and b: "hp_blocks h1 = (hp_blocks h)(a \<mapsto> BStr (protected_text (le_cred env) cp pw))"
      and h1: "heap_ok h1"
      using aon by (auto simp: all_or_nothing_def adds_string_def)
    have na: "a \<notin> set (addrs (tile_ptrs c))"
      using a tile_okD(2) [OF t] by (auto simp: owns_def list_all_iff is_str_iff live_def)
    have t1: "tile_ok SFI_NUM_FIELDS h1 c"
      by (rule tile_ok_same_blocks [OF t h1]) (use b na in auto)
    have i: "sfi SFI_USERNAME < length (tl_strings c)" using sample_tile_okD(1) [OF t password_index(2)] .
    have "tl_strings c ! sfi SFI_USERNAME \<noteq> Some a"
      using na i by (auto simp: set_addrs tile_ptrs_def in_set_conv_nth)
    then have u1: "read_str h1 (tl_strings c ! sfi SFI_USERNAME) = Inr u"
      using u b by (auto simp: read_str_def split: option.splits)
    have pb: "hp_blocks h1 a = Some (BStr (protected_text (le_cred env) cp pw))" using b by simp
    have lt: "x < hp_next h1" if "hp_blocks h x \<noteq> None" for x
      using that h1 b by (metis heap_ok_def fun_upd_apply not_less option.distinct(1))
    obtain hr' out h' where s: "serialize_logon env wsz (Some a) c h1 = Inr (hr', out, h')"
      and t': "tile_ok SFI_NUM_FIELDS h' c"
      and fr: "\<forall>x. x \<noteq> a \<longrightarrow> x < hp_next h1 \<longrightarrow> hp_blocks h' x = hp_blocks h1 x"
      and sub: "SUCCEEDED hr' \<longrightarrow> (u \<noteq> None \<and> (\<exists>mt. message_type cp = Some mt \<and>
        submits (le_sizeof env) (logon_domain env wsz) (the u) (wcs (protected_text (le_cred env) cp pw)) mt out))"
      using serialize_logon_ok [OF t1 pb na env cp u1, of wsz] by blast
    have "\<forall>x. hp_blocks h x \<noteq> None \<longrightarrow> hp_blocks h' x = hp_blocks h x"
    proof (intro allI impI)
      fix x assume x: "hp_blocks h x \<noteq> None"
      then have "x \<noteq> a" using a by (auto simp: live_def)
      with fr lt [OF x] b show "hp_blocks h' x = hp_blocks h x" by simp
    qed
    with True p s t' sub show ?thesis by simp
  qed
qed

text \<open>The user name's old string is neither freed nor kept by the tile.\<close>

lemma dup_into_forgets:
  fixes c :: sample_credential
  assumes t: "tile_ok SFI_NUM_FIELDS h c" and d: "dup_into dn (Some w) (sfi SFI_USERNAME) (c, h) = (hr, c1, h1)"
    and a: "tl_strings c ! sfi SFI_USERNAME = Some a"
  shows "a < hp_next h" "hp_blocks h a \<noteq> None" "hp_blocks h1 a = hp_blocks h a" "a \<notin> set (addrs (tile_ptrs c1))"
proof -
  let ?i = "sfi SFI_USERNAME"
  note i = sample_tile_okD [OF t password_index(2)]
  show lv: "a < hp_next h" "hp_blocks h a \<noteq> None"
    using owned_string [OF t password_index(2) a] tile_okD(1) [OF t] by (auto simp: heap_ok_def not_less [symmetric])
  show "hp_blocks h1 a = hp_blocks h a" using d lv by (auto simp: dup_into_eq split: if_splits)
  have "Some a \<notin> set (tile_ptrs c1)"
  proof
    assume "Some a \<in> set (tile_ptrs c1)"
    then obtain j where j: "j < length (tile_ptrs c1)" "tile_ptrs c1 ! j = Some a" by (auto simp: in_set_conv_nth)
    have e: "\<exists>p. tile_ptrs c1 = (tile_ptrs c)[?i := p] \<and> p \<noteq> Some a"
      using d lv(1) i(1) by (auto simp: dup_into_eq tile_ptrs_string simp del: sfi.simps split: if_splits)
    then have "j \<noteq> ?i" using j i(2) by (auto simp del: sfi.simps)
    then have "tile_ptrs c ! j = Some a" "j < length (tile_ptrs c)" using e j by auto
    then show False
      using owns_distinct [OF tile_okD(2) [OF t] i(2) _ \<open>j \<noteq> ?i\<close> [symmetric], of a] a i(3) by simp
  qed
  then show "a \<notin> set (addrs (tile_ptrs c1))" by (simp add: set_addrs)
qed

text \<open>The tile once \<open>GetSerialization\<close> has stored the user name and the literal in it.\<close>

lemma GetSerialization_strings:
  assumes t: "tile_ok SFI_NUM_FIELDS h c" and ty: "sample_typed c" and cp: "sc_cpus c = Some cp"
  obtains hr1 c1 h1 hr2 c2 h2
  where "dup_into dn (Some w) (sfi SFI_USERNAME) (c, h) = (hr1, c1, h1)"
    and "CSampleCredential_SetStringValue dn (of_nat (sfi SFI_PASSWORD)) (Some password_literal) (c1, h1) = Inr (hr2, c2, h2)"
    and "tile_ok SFI_NUM_FIELDS h2 c2" and "sample_typed c1" and "sc_cpus c2 = Some cp"
    and "read_str h2 (tl_strings c2 ! sfi SFI_PASSWORD) =
      Inr (if hp_fails h (Suc (hp_next h)) then None else Some password_literal)"
    and "read_str h2 (tl_strings c2 ! sfi SFI_USERNAME) = Inr (if hp_fails h (hp_next h) then None else Some (wcs w))"
    and "\<And>a. tl_strings c ! sfi SFI_USERNAME = Some a \<Longrightarrow> a \<in> live h2 \<and> a \<notin> set (addrs (tile_ptrs c2))"
proof -
  let ?i = "sfi SFI_USERNAME"
  obtain hr1 c1 h1 where d: "dup_into dn (Some w) ?i (c, h) = (hr1, c1, h1)"
    by (cases "dup_into dn (Some w) ?i (c, h)")
  have t1: "tile_ok SFI_NUM_FIELDS h1 c1" by (rule dup_into_ok [OF t password_index(2) d])
  have ty1: "sample_typed c1" using ty dup_into_frame(1) [OF d] by (simp add: sample_typed_def)
  have n1: "hp_next h1 = Suc (hp_next h)" "hp_fails h1 = hp_fails h"
    using d by (auto simp: dup_into_eq split: if_splits)
  have u1: "read_str h1 (tl_strings c1 ! ?i) = Inr (if hp_fails h (hp_next h) then None else Some (wcs w))"
    using d sample_tile_okD(1) [OF t password_index(2)] by (auto simp: dup_into_eq read_str_Some split: if_splits)
  obtain hr2 c2 h2 where s2: "CSampleCredential_SetStringValue dn (of_nat (sfi SFI_PASSWORD)) (Some password_literal) (c1, h1) = Inr (hr2, c2, h2)"
    and t2: "tile_ok SFI_NUM_FIELDS h2 c2" and cp2: "sc_cpus c2 = sc_cpus c1"
    and pw2: "read_str h2 (tl_strings c2 ! sfi SFI_PASSWORD) =
      Inr (if hp_fails h1 (hp_next h1) then None else Some (wcs password_literal))"
    and un2: "read_str h2 (tl_strings c2 ! ?i) = read_str h1 (tl_strings c1 ! ?i)"
    and fr2: "\<forall>a < hp_next h1. a \<notin> set (addrs (tile_ptrs c1)) \<longrightarrow>
       hp_blocks h2 a = hp_blocks h1 a \<and> a \<notin> set (addrs (tile_ptrs c2))"
    using SetStringValue_password [OF t1 ty1, of dn password_literal] by blast
  have lit: "wcs password_literal = password_literal"
    by (simp add: password_literal_def wide_def wcs_def)
  show ?thesis
  proof (rule that [OF d s2 t2 ty1])
    show "sc_cpus c2 = Some cp" using cp cp2 dup_into_sample(1) [OF d] by simp
    show "read_str h2 (tl_strings c2 ! sfi SFI_PASSWORD) =
        Inr (if hp_fails h (Suc (hp_next h)) then None else Some password_literal)"
      using pw2 n1 lit by simp
    show "read_str h2 (tl_strings c2 ! ?i) = Inr (if hp_fails h (hp_next h) then None else Some (wcs w))"
      using un2 u1 by simp
    show "a \<in> live h2 \<and> a \<notin> set (addrs (tile_ptrs c2))" if a: "tl_strings c ! ?i = Some a" for a
      using dup_into_forgets [OF t d a] fr2 n1 by (auto simp: live_def)
  qed
qed

lemma GetSerialization_typed:
  assumes t: "tile_ok SFI_NUM_FIELDS h c" and ty: "sample_typed c" and env: "logon_env_ok env"
    and cp: "sc_cpus c = Some cp"
  shows "\<exists>hr out c' h'. CSampleCredential_GetSerialization env (c, h) = Inr (hr, out, c', h') \<and>
    tile_ok SFI_NUM_FIELDS h' c' \<and>
    (\<forall>a. tl_strings c ! sfi SFI_USERNAME = Some a \<longrightarrow> a \<in> live h' \<and> a \<notin> set (addrs (tile_ptrs c'))) \<and>
    (SUCCEEDED hr \<longrightarrow> (\<exists>wsz mt. le_computer env = Inl wsz \<and> message_type cp = Some mt \<and>
       submits (le_sizeof env) (logon_domain env wsz) (wcs (widen (le_strUser env)))
         (wcs (protected_text (le_cred env) cp
            (if hp_fails h (Suc (hp_next h)) then None else Some password_literal))) mt out))"
proof -
  let ?dn = "le_dup_null env" and ?w = "wcs (widen (le_strUser env))"
  let ?pw = "if hp_fails h (Suc (hp_next h)) then None else Some password_literal"
  obtain hr1 c1 h1 hr2 c2 h2
    where d: "dup_into ?dn (Some ?w) (sfi SFI_USERNAME) (c, h) = (hr1, c1, h1)"
      and s2: "CSampleCredential_SetStringValue ?dn (of_nat (sfi SFI_PASSWORD)) (Some password_literal) (c1, h1) = Inr (hr2, c2, h2)"
      and t2: "tile_ok SFI_NUM_FIELDS h2 c2" and ty1: "sample_typed c1" and cp': "sc_cpus c2 = Some cp"
      and pw2': "read_str h2 (tl_strings c2 ! sfi SFI_PASSWORD) = Inr ?pw"
      and u2': "read_str h2 (tl_strings c2 ! sfi SFI_USERNAME) = Inr (if hp_fails h (hp_next h) then None else Some (wcs ?w))"
      and old: "\<And>a. tl_strings c ! sfi SFI_USERNAME = Some a \<Longrightarrow> a \<in> live h2 \<and> a \<notin> set (addrs (tile_ptrs c2))"
    using GetSerialization_strings [OF t ty cp] by blast
  have u2: "read_str h2 (tl_strings c2 ! sfi SFI_USERNAME) = Inr (if hp_fails h (hp_next h) then None else Some ?w)"
    using u2' by simp
  show ?thesis
  proof (cases "le_computer env")
    case (Inr dwErr)
    have "CSampleCredential_GetSerialization env (c, h) =
        Inr (HRESULT_FROM_WIN32 dwErr, no_serialization, c2, h2)"
      using d s2 Inr SetStringValue_username [OF ty1]
      by (simp add: CSampleCredential_GetSerialization_def Let_def del: sfi.simps)
    moreover have "\<not> SUCCEEDED (HRESULT_FROM_WIN32 dwErr)"
      using env Inr by (intro HRESULT_FROM_WIN32_fails) (simp add: logon_env_ok_def)
    ultimately show ?thesis using t2 old by auto
  next
    case (Inl wsz)
    obtain hr p h3 where prot: "ProtectIfNecessaryAndCopyPassword ?dn (le_cred env) ?pw cp h2 = Inr (hr, p, h3)"
      using protect_password_all_or_nothing [OF tile_okD(1) [OF t2], of "le_cred env" ?dn ?pw cp] env
      by (auto simp: logon_env_ok_def)
    obtain hr' out h' where r: "(if SUCCEEDED hr
             then bind_res (serialize_logon env wsz p c2 h3) (\<lambda>(hr, out, h2). Inr (hr, out, c2, h2))
             else Inr (hr, no_serialization, c2, h3)) = Inr (hr', out, c2, h')"
      and t': "tile_ok SFI_NUM_FIELDS h' c2"
      and fr: "\<forall>x. hp_blocks h2 x \<noteq> None \<longrightarrow> hp_blocks h' x = hp_blocks h2 x"
      and sub: "SUCCEEDED hr' \<longrightarrow> \<not> hp_fails h (hp_next h) \<and> (\<exists>mt. message_type cp = Some mt \<and>
         submits (le_sizeof env) (logon_domain env wsz) ?w (wcs (protected_text (le_cred env) cp ?pw)) mt out)"
      using protect_and_serialize [OF t2 env cp' pw2' u2 prot, of wsz]
      by (cases "hp_fails h (hp_next h)") auto
    have "CSampleCredential_GetSerialization env (c, h) = Inr (hr', out, c2, h')"
      using d s2 Inl SetStringValue_username [OF ty1] pw2' cp' prot r
      by (simp add: CSampleCredential_GetSerialization_def Let_def del: sfi.simps)
    with t' old fr Inl sub show ?thesis by (auto simp: live_def)
  qed
qed

lemma GetSerialization_ok:
  assumes inv: "sample_inv (c, h)" and env: "logon_env_ok env"
  shows "\<exists>hr out c' h'. CSampleCredential_GetSerialization env (c, h) = Inr (hr, out, c', h') \<and> sample_inv (c', h')"
proof -
  let ?i = "sfi SFI_USERNAME" and ?dn = "le_dup_null env" and ?w = "wcs (widen (le_strUser env))"
  obtain hr1 c1 h1 where d: "dup_into ?dn (Some ?w) ?i (c, h) = (hr1, c1, h1)"
    by (cases "dup_into ?dn (Some ?w) ?i (c, h)")
  have i1: "sample_inv (c1, h1)" using inv dup_into_sample(1) [OF d] dup_into_ok [OF _ password_index(2) d] by (auto simp: sample_inv_def)
  obtain hr2 c2 h2 where s2: "CSampleCredential_SetStringValue ?dn (of_nat ?i) (Some ?w) (c1, h1) = Inr (hr2, c2, h2)"
    and i2: "sample_inv (c2, h2)" using SetStringValue_ok [OF i1] by blast
  obtain hr3 c3 h3 where s3: "CSampleCredential_SetStringValue ?dn (of_nat (sfi SFI_PASSWORD)) (Some password_literal) (c2, h2) = Inr (hr3, c3, h3)"
    and i3: "sample_inv (c3, h3)" using SetStringValue_ok [OF i2] by blast
  have t3: "tile_ok SFI_NUM_FIELDS h3 c3" using i3 by (simp add: sample_inv_def)
  obtain cp where cp: "sc_cpus c3 = Some cp" using i3 by (auto simp: sample_inv_def)
  have rd: "\<exists>x. read_str h3 (tl_strings c3 ! sfi f) = Inr x" for f
    using owns_read [OF tile_okD(2) [OF t3] sample_tile_okD(2) [OF t3 sfi_bound [of f]]]
    unfolding sample_tile_okD(3) [OF t3 sfi_bound [of f]] by blast
  obtain pw u where pw: "read_str h3 (tl_strings c3 ! sfi SFI_PASSWORD) = Inr pw"
    and u: "read_str h3 (tl_strings c3 ! ?i) = Inr u" using rd by blast
  note [simp] = CSampleCredential_GetSerialization_def d s2 s3 Let_def
  show ?thesis
  proof (cases "le_computer env")
    case (Inr dwErr)
    with i3 show ?thesis by (simp del: sfi.simps)
  next
    case (Inl wsz)
    obtain hr p h4 where prot: "ProtectIfNecessaryAndCopyPassword ?dn (le_cred env) pw cp h3 = Inr (hr, p, h4)"
      using protect_password_all_or_nothing [OF tile_okD(1) [OF t3], of "le_cred env" ?dn pw cp] env
      by (auto simp: logon_env_ok_def)
    have "\<exists>hr' out h'. CSampleCredential_GetSerialization env (c, h) = Inr (hr', out, c3, h') \<and>
        tile_ok SFI_NUM_FIELDS h' c3"
      using protect_and_serialize [OF t3 env cp pw u prot, of wsz]
      by (auto simp: Inl pw cp prot simp del: sfi.simps)
    with cp show ?thesis by (auto simp: sample_inv_def)
  qed
qed

section \<open>Any sequence of calls\<close>

lemma sample_step_ok:
  assumes "sample_inv s" and "call_allowed k"
  shows "\<exists>r s'. sample_step n k s = Inr (r, s') \<and> sample_inv s'"
proof -
  obtain c h where s: "s = (c, h)" by (cases s)
  have inv: "sample_inv (c, h)" using assms(1) s by simp
  have ev: "sample_inv (c\<lparr>sc_events := e\<rparr>, h)" for e
    using inv by (simp add: sample_inv_def tile_ok_def tile_ptrs_def)
  show ?thesis
  proof (cases k)
    case (CallAdvise e)
    then obtain x where "e = Some x" using assms(2) by auto
    with CallAdvise s ev [of "Some x"] show ?thesis by (simp add: CSampleCredential_Advise_def Let_def)
  next
    case CallUnAdvise
    with s ev [of None] show ?thesis by (simp add: CSampleCredential_UnAdvise_def)
  next
    case (CallSetSelected b)
    with s inv assms(2) show ?thesis by (simp add: CSampleCredential_SetSelected_def Let_def)
  next
    case CallSetDeselected
    obtain hr evs c' h' where "CSampleCredential_SetDeselected n (c, h) = Inr (hr, evs, c', h')"
      and "sample_inv (c', h')" using SetDeselected_ok [OF inv] by blast
    with CallSetDeselected s show ?thesis by simp
  next
    case (CallGetStringValue i b)
    obtain hr p h' where "CSampleCredential_GetStringValue n i b c h = Inr (hr, p, h')"
      and "sample_inv (c, h')" using GetStringValue_ok [OF inv] by blast
    with CallGetStringValue s show ?thesis by simp
  next
    case (CallSetStringValue i x)
    with SetStringValue_ok [OF inv, of n i x] s show ?thesis by auto
  next
    case (CallGetSerialization env)
    then have "logon_env_ok env" using assms(2) by simp
    then obtain hr out c' h' where "CSampleCredential_GetSerialization env (c, h) = Inr (hr, out, c', h')"
      and "sample_inv (c', h')" using GetSerialization_ok [OF inv] by blast
    with CallGetSerialization s show ?thesis by simp
  next
    case (CallReportResult st sub)
    obtain hr p ic evs h' where r: "CSampleCredential_ReportResult n st sub c h = (hr, p, ic, evs, h')"
      by (cases "CSampleCredential_ReportResult n st sub c h")
    with CallReportResult s ReportResult_ok [OF inv r] show ?thesis by simp
  qed (use s inv in auto)
qed

interpretation sc: safe_object "sample_step n" call_allowed sample_inv for n
  by unfold_locales (rule sample_step_ok)

lemma new_tile_ok:
  "heap_ok h \<Longrightarrow> CSampleCredential_new d = (c, d') \<Longrightarrow> tile_ok SFI_NUM_FIELDS h c"
  by (auto simp: CSampleCredential_new_def tile_ok_def tile_ptrs_def owns_def zero_descriptor_def)

lemma init_fields_cpus:
  "init_fields n ds ss is (hr0, x, h0) = (hr1, y, h1) \<Longrightarrow> sc_cpus y = sc_cpus (x :: sample_credential)"
proof (induction "is" arbitrary: hr0 x h0)
  case Nil
  then show ?case by simp
next
  case (Cons i "is")
  obtain hr2 d h2 where f: "FieldDescriptorCopy n (ds ! i) h0 = (hr2, d, h2)"
    by (cases "FieldDescriptorCopy n (ds ! i) h0")
  show ?case
  proof (cases "SUCCEEDED hr0")
    case True
    with Cons.prems f Cons.IH show ?thesis by (cases d) (fastforce simp: Let_def)+
  next
    case False
    with Cons.prems show ?thesis by simp
  qed
qed

lemma Initialize_ok:
  assumes "tile_ok SFI_NUM_FIELDS h c"
    and "CSampleCredential_Initialize n cpus ds ss (c, h) = (hr, c', h')"
  shows "sample_inv (c', h')"
proof -
  have t0: "tile_ok SFI_NUM_FIELDS h (c\<lparr>sc_cpus := Some cpus\<rparr>)"
    using assms(1) by (simp add: tile_ok_def tile_ptrs_def)
  obtain hr1 c1 h1 where i: "init_fields n ds ss [0..<SFI_NUM_FIELDS] (S_OK, c\<lparr>sc_cpus := Some cpus\<rparr>, h) = (hr1, c1, h1)"
    by (cases "init_fields n ds ss [0..<SFI_NUM_FIELDS] (S_OK, c\<lparr>sc_cpus := Some cpus\<rparr>, h)")
  have t1: "tile_ok SFI_NUM_FIELDS h1 c1" by (rule init_fields_ok [OF t0 _ i]) auto
  have "sc_cpus c1 = sc_cpus (c\<lparr>sc_cpus := Some cpus\<rparr>)" using init_fields_cpus [OF i] .
  then have "sc_cpus c1 = Some cpus" by simp
  then have inv1: "sample_inv (c1, h1)" using t1 by (simp add: sample_inv_def)
  have step: "sample_inv (y, h2)" if "sample_inv (x, h1)" "i < SFI_NUM_FIELDS"
    "(if SUCCEEDED hr1 then dup_into n s i (x, h1) else (hr1, x, h1)) = (hr2, y, h2)" for x h1 hr1 i s hr2 y h2
  proof (cases "SUCCEEDED hr1")
    case True
    then have d: "dup_into n s i (x, h1) = (hr2, y, h2)" using that(3) by simp
    have "tile_ok SFI_NUM_FIELDS h2 y" by (rule dup_into_ok [OF _ that(2) d]) (use that(1) in \<open>simp add: sample_inv_def\<close>)
    with that(1) dup_into_sample(1) [OF d] show ?thesis by (simp add: sample_inv_def)
  next
    case False
    with that show ?thesis by simp
  qed
  have ix: "sfi SFI_USERNAME < SFI_NUM_FIELDS" "sfi SFI_PASSWORD < SFI_NUM_FIELDS" "sfi SFI_SUBMIT_BUTTON < SFI_NUM_FIELDS"
    by (rule sfi_bound)+
  let ?dup = "\<lambda>s i (hr, x, h). if SUCCEEDED hr then dup_into n (Some s) i (x, h) else (hr, x, h)"
  obtain hr2 c2 h2 where 2: "?dup username_label (sfi SFI_USERNAME) (hr1, c1, h1) = (hr2, c2, h2)"
    by (rule prod_cases3)
  obtain hr3 c3 h3 where 3: "?dup password_literal (sfi SFI_PASSWORD) (hr2, c2, h2) = (hr3, c3, h3)"
    by (rule prod_cases3)
  obtain hr4 c4 h4 where 4: "?dup (wide ''Submit'') (sfi SFI_SUBMIT_BUTTON) (hr3, c3, h3) = (hr4, c4, h4)"
    by (rule prod_cases3)
  have "sample_inv (c4, h4)"
    using step [OF step [OF step [OF inv1 ix(1)] ix(2)] ix(3)] 2 3 4 by (simp only: prod.case)
  moreover have "CSampleCredential_Initialize n cpus ds ss (c, h) = (S_OK, c4, h4)"
    using i 2 3 4 by (simp only: CSampleCredential_Initialize_def prod.case Let_def)
  ultimately show ?thesis using assms(2) by simp
qed

lemma delete_ok:
  assumes t: "tile_ok SFI_NUM_FIELDS h c"
  shows "\<exists>w. CSampleCredential_delete c \<lparr>w_heap = h, w_dll = d\<rparr> = Inr w \<and>
    hp_blocks (w_heap w) = hp_blocks h |` (- set (addrs (tile_ptrs c))) \<and> w_dll w = DllRelease d"
proof -
  have free: "\<exists>h'. free_fields SFI_NUM_FIELDS c h1 = Inr h' \<and>
      hp_blocks h' = hp_blocks h |` (- set (addrs (tile_ptrs c)))"
    if "tile_ok SFI_NUM_FIELDS h1 c" "\<And>x. x \<notin> set (addrs (tile_ptrs c)) \<Longrightarrow> hp_blocks h1 x = hp_blocks h x" for h1
    using free_fields_ok [OF that(1)] that(2) by (auto simp: restrict_map_def fun_eq_iff)
  show ?thesis
  proof (cases "tl_strings c ! sfi SFI_PASSWORD")
    case None
    with free [OF t] show ?thesis by (auto simp: CSampleCredential_delete_def)
  next
    case (Some a)
    obtain s where s: "hp_blocks h a = Some (BStr s)" using owned_string [OF t password_index(1) Some] by blast
    have own: "a \<in> set (addrs (tile_ptrs c))"
      using Some sample_tile_okD(2,3) [OF t password_index(1)] by (metis mem_Collect_eq nth_mem set_addrs)
    obtain hr h1 where w: "wipe_password (Some a) h = Inr (hr, h1)" and t1: "tile_ok SFI_NUM_FIELDS h1 c"
      and k: "\<And>x. x \<notin> set (addrs (tile_ptrs c)) \<Longrightarrow> hp_blocks h1 x = hp_blocks h x"
    proof (cases "length (wcs s) < 128")
      case True
      let ?h = "task_write a (BStr (replicate (length (wcs s)) 0 @ drop (length (wcs s)) s)) h"
      have "tile_ok SFI_NUM_FIELDS ?h c" by (rule tile_ok_write [OF t]) (simp add: is_str_iff s)
      moreover have "x \<notin> set (addrs (tile_ptrs c)) \<Longrightarrow> hp_blocks ?h x = hp_blocks h x" for x
        using own by (auto simp: task_write_def)
      ultimately show ?thesis using that [of S_OK ?h] True by (simp add: wipe_password_eq [OF s])
    next
      case False
      with that [of E_INVALIDARG h] t show ?thesis by (simp add: wipe_password_eq [OF s])
    qed
    with free [OF t1 k] Some show ?thesis
      by (auto simp: CSampleCredential_delete_def simp del: sfi.simps)
  qed
qed

end
