(* ===== verification/Message_Credential.thy ===== *)
theory Message_Credential
  imports Sample_Credential_Correct
begin

text \<open>
  \<open>CMessageCredential\<close>: the tile meant for the disconnected state, a line of text that
  cannot be edited or submitted.
\<close>

type_synonym message_credential = tile

section \<open>Construction and destruction\<close>

definition CMessageCredential_new :: "dll \<Rightarrow> message_credential \<times> dll" where
  "CMessageCredential_new d =
     (\<lparr>tl_cRef = 1,
       tl_descs = replicate SMFI_NUM_FIELDS zero_descriptor,
       tl_states = replicate SMFI_NUM_FIELDS zero_state,
       tl_strings = replicate SMFI_NUM_FIELDS None\<rparr>, DllAddRef d)"

definition CMessageCredential_delete :: "message_credential \<Rightarrow> world \<Rightarrow> world res" where
  "CMessageCredential_delete c w =
     bind_res (free_fields SMFI_NUM_FIELDS c (w_heap w)) (\<lambda>h1.
       Inr \<lparr>w_heap = h1, w_dll = DllRelease (w_dll w)\<rparr>)"

definition CMessageCredential_AddRef :: "message_credential \<Rightarrow> 32 word \<times> message_credential" where
  "CMessageCredential_AddRef c = tile_AddRef c"

definition CMessageCredential_Release ::
  "message_credential \<Rightarrow> world \<Rightarrow> (32 word \<times> message_credential option \<times> world) res" where
  "CMessageCredential_Release c w =
     (let (cRef, c') = tile_Release c
      in case c' of
           Some c' \<Rightarrow> Inr (cRef, Some c', w)
         | None \<Rightarrow> bind_res (CMessageCredential_delete c w) (\<lambda>w1. Inr (cRef, None, w1)))"

definition CMessageCredential_QueryInterface ::
  "iid \<Rightarrow> bool \<Rightarrow> message_credential \<Rightarrow> HRESULT \<times> bool option \<times> message_credential" where
  "CMessageCredential_QueryInterface riid ppv c = tile_QueryInterface riid ppv c"

definition CMessageCredential_Initialize ::
  "HRESULT \<Rightarrow> const_descriptor list \<Rightarrow> FIELD_STATE_PAIR list \<Rightarrow> wstr option \<Rightarrow>
     message_credential \<times> heap \<Rightarrow> HRESULT \<times> message_credential \<times> heap" where
  "CMessageCredential_Initialize dup_null rgcpfd rgfsp szMessage = (\<lambda>(c, h).
     let (hr, c, h) = init_fields dup_null rgcpfd rgfsp [0..<SMFI_NUM_FIELDS] (S_OK, c, h);
         (hr, c, h) = (if SUCCEEDED hr
                       then dup_into dup_null szMessage (smfi SMFI_MESSAGE) (c, h)
                       else (hr, c, h))
     in (S_OK, c, h))"

section \<open>Methods\<close>

definition CMessageCredential_Advise :: "nat option \<Rightarrow> HRESULT" where
  "CMessageCredential_Advise pcpce = E_NOTIMPL"

definition CMessageCredential_UnAdvise :: HRESULT where
  "CMessageCredential_UnAdvise = E_NOTIMPL"

text \<open>\<open>pbAutoLogon\<close> is not written.\<close>

definition CMessageCredential_SetSelected :: "bool \<Rightarrow> HRESULT" where
  "CMessageCredential_SetSelected pbAutoLogon = S_FALSE"

definition CMessageCredential_SetDeselected :: HRESULT where
  "CMessageCredential_SetDeselected = S_OK"

definition CMessageCredential_GetFieldState ::
  "DWORD \<Rightarrow> bool \<Rightarrow> bool \<Rightarrow> message_credential \<Rightarrow> HRESULT \<times> FIELD_STATE_PAIR option" where
  "CMessageCredential_GetFieldState fid pcpfs pcpfis c = tile_GetFieldState SMFI_NUM_FIELDS fid pcpfs pcpfis c"

definition CMessageCredential_GetStringValue ::
  "HRESULT \<Rightarrow> DWORD \<Rightarrow> bool \<Rightarrow> message_credential \<Rightarrow> heap \<Rightarrow> (HRESULT \<times> ptr option \<times> heap) res" where
  "CMessageCredential_GetStringValue dup_null fid ppwsz c h =
     tile_GetStringValue dup_null SMFI_NUM_FIELDS fid ppwsz c h"

definition CMessageCredential_GetBitmapValue :: "DWORD \<Rightarrow> HRESULT" where
  "CMessageCredential_GetBitmapValue fid = E_NOTIMPL"

definition CMessageCredential_GetSubmitButtonValue :: "DWORD \<Rightarrow> HRESULT" where
  "CMessageCredential_GetSubmitButtonValue fid = E_NOTIMPL"

definition CMessageCredential_SetStringValue :: "DWORD \<Rightarrow> wstr option \<Rightarrow> HRESULT" where
  "CMessageCredential_SetStringValue fid pwz = E_NOTIMPL"

definition CMessageCredential_GetCheckboxValue :: "DWORD \<Rightarrow> HRESULT" where
  "CMessageCredential_GetCheckboxValue fid = E_NOTIMPL"

definition CMessageCredential_SetCheckboxValue :: "DWORD \<Rightarrow> bool \<Rightarrow> HRESULT" where
  "CMessageCredential_SetCheckboxValue fid bChecked = E_NOTIMPL"

definition CMessageCredential_GetComboBoxValueCount :: "DWORD \<Rightarrow> HRESULT" where
  "CMessageCredential_GetComboBoxValueCount fid = E_NOTIMPL"

definition CMessageCredential_GetComboBoxValueAt :: "DWORD \<Rightarrow> DWORD \<Rightarrow> HRESULT" where
  "CMessageCredential_GetComboBoxValueAt fid dwItem = E_NOTIMPL"

definition CMessageCredential_SetComboBoxSelectedValue :: "DWORD \<Rightarrow> DWORD \<Rightarrow> HRESULT" where
  "CMessageCredential_SetComboBoxSelectedValue fid dwSelectedItem = E_NOTIMPL"

definition CMessageCredential_CommandLinkClicked :: "DWORD \<Rightarrow> HRESULT" where
  "CMessageCredential_CommandLinkClicked fid = E_NOTIMPL"

definition CMessageCredential_GetSerialization :: HRESULT where
  "CMessageCredential_GetSerialization = E_NOTIMPL"

definition CMessageCredential_ReportResult :: "NTSTATUS \<Rightarrow> NTSTATUS \<Rightarrow> HRESULT" where
  "CMessageCredential_ReportResult ntsStatus ntsSubstatus = E_NOTIMPL"

section \<open>Any sequence of calls\<close>

fun message_step :: "HRESULT \<Rightarrow> cred_call \<Rightarrow> message_credential \<times> heap \<Rightarrow>
    (HRESULT \<times> message_credential \<times> heap) res" where
  "message_step n (CallAdvise e) (c, h) = Inr (CMessageCredential_Advise e, c, h)"
| "message_step n CallUnAdvise (c, h) = Inr (CMessageCredential_UnAdvise, c, h)"
| "message_step n (CallSetSelected b) (c, h) = Inr (CMessageCredential_SetSelected b, c, h)"
| "message_step n CallSetDeselected (c, h) = Inr (CMessageCredential_SetDeselected, c, h)"
| "message_step n (CallGetFieldState i a b) (c, h) =
     Inr (fst (CMessageCredential_GetFieldState i a b c), c, h)"
| "message_step n (CallGetStringValue i b) (c, h) =
     bind_res (CMessageCredential_GetStringValue n i b c h) (\<lambda>(hr, _, h'). Inr (hr, c, h'))"
| "message_step n (CallSetStringValue i s) (c, h) = Inr (CMessageCredential_SetStringValue i s, c, h)"
| "message_step n (CallGetSerialization env) (c, h) = Inr (CMessageCredential_GetSerialization, c, h)"
| "message_step n (CallReportResult st sub) (c, h) = Inr (CMessageCredential_ReportResult st sub, c, h)"

definition message_inv :: "message_credential \<times> heap \<Rightarrow> bool" where
  "message_inv = (\<lambda>(c, h). tile_ok SMFI_NUM_FIELDS h c)"

text \<open>No call is excluded: this class dereferences none of its arguments.\<close>

interpretation mc: safe_object "message_step n" "\<lambda>_. True" message_inv for n
proof unfold_locales
  fix s :: "message_credential \<times> heap" and k
  assume inv: "message_inv s"
  obtain c h where s: "s = (c, h)" by (cases s)
  show "\<exists>r s'. message_step n k s = Inr (r, s') \<and> message_inv s'"
  proof (cases k)
    case (CallGetStringValue i b)
    with tile_GetStringValue_ok [of SMFI_NUM_FIELDS h c n i b] inv s show ?thesis
      by (auto simp: message_inv_def CMessageCredential_GetStringValue_def)
  qed (use inv s in auto)
qed

lemma message_new_ok:
  "heap_ok h \<Longrightarrow> CMessageCredential_new d = (c, d') \<Longrightarrow> tile_ok SMFI_NUM_FIELDS h c"
  by (auto simp: CMessageCredential_new_def tile_ok_def tile_ptrs_def owns_def zero_descriptor_def)

lemma message_Initialize_ok:
  assumes "tile_ok SMFI_NUM_FIELDS h c"
    and "CMessageCredential_Initialize n ds ss m (c, h) = (hr, c', h')"
  shows "message_inv (c', h')" and "hr = S_OK"
proof -
  obtain hr1 c1 h1 where i: "init_fields n ds ss [0..<SMFI_NUM_FIELDS] (S_OK, c, h) = (hr1, c1, h1)"
    by (rule prod_cases3)
  have t1: "tile_ok SMFI_NUM_FIELDS h1 c1" by (rule init_fields_ok [OF assms(1) _ i]) auto
  obtain hr2 c2 h2 where d: "dup_into n m (smfi SMFI_MESSAGE) (c1, h1) = (hr2, c2, h2)"
    by (rule prod_cases3)
  have "tile_ok SMFI_NUM_FIELDS h2 c2" by (rule dup_into_ok [OF t1 _ d]) (simp add: SMFI_NUM_FIELDS_def)
  with t1 i d assms(2) show "message_inv (c', h')" and "hr = S_OK"
    by (auto simp: CMessageCredential_Initialize_def message_inv_def Let_def split: if_splits)
qed

text \<open>The message tile survives every client, without any restriction on the calls:
  whatever allocations fail, an initialised \<open>CMessageCredential\<close> runs every sequence of calls
  without a fault, offers nothing to submit (every \<open>GetSerialization\<close> and
  \<open>SetStringValue\<close> is refused with \<open>E_NOTIMPL\<close>), keeps its text, and deleting it frees
  exactly what it owns.\<close>

theorem message_credential_session_safe:
  assumes "heap_ok h" and "CMessageCredential_new d = (c0, d1)"
    and "CMessageCredential_Initialize n ds ss m (c0, h) = (hr, c1, h1)"
  shows "\<exists>rs h2 w. run_calls (message_step n) cs (c1, h1) = Inr (rs, c1, h2) \<and>
    list_all2 (\<lambda>k r. case k of CallGetSerialization _ \<Rightarrow> r = E_NOTIMPL | CallSetStringValue _ _ \<Rightarrow> r = E_NOTIMPL
      | _ \<Rightarrow> True) cs rs \<and>
    CMessageCredential_delete c1 \<lparr>w_heap = h2, w_dll = d1\<rparr> = Inr w \<and>
    hp_blocks (w_heap w) = hp_blocks h2 |` (- set (addrs (tile_ptrs c1))) \<and> w_dll w = d"
proof -
  have inv: "message_inv (c1, h1)"
    by (rule message_Initialize_ok(1) [OF message_new_ok [OF assms(1,2)] assms(3)])
  have run: "run_calls (message_step n) cs (c, h) = Inr (rs, c', h') \<Longrightarrow> c' = c \<and>
      list_all2 (\<lambda>k r. case k of CallGetSerialization _ \<Rightarrow> r = E_NOTIMPL | CallSetStringValue _ _ \<Rightarrow> r = E_NOTIMPL
      | _ \<Rightarrow> True) cs rs" for cs c h rs c' h'
  proof (induction cs arbitrary: c h rs)
    case (Cons k cs)
    then obtain r c2 h2 rs' where st: "message_step n k (c, h) = Inr (r, c2, h2)"
      and rest: "run_calls (message_step n) cs (c2, h2) = Inr (rs', c', h')" and rs: "rs = r # rs'"
      by (auto simp: bind_res_Inr)
    have "c2 = c" using st by (cases k) (auto simp: bind_res_Inr)
    with Cons.IH [OF rest] st rs show ?case
      by (cases k) (auto simp: CMessageCredential_GetSerialization_def CMessageCredential_SetStringValue_def)
  qed simp
  from mc.run_calls_safe [OF inv, of cs n] obtain rs s2
    where r: "run_calls (message_step n) cs (c1, h1) = Inr (rs, s2)" and i2: "message_inv s2"
    by (auto simp: list_all_iff simp del: split_paired_Ex)
  obtain c2 h2 where s2: "s2 = (c2, h2)" by (cases s2)
  have c2: "c2 = c1" using run r s2 by blast
  have "DllRelease d1 = d" using assms(2) by (auto simp: CMessageCredential_new_def DllAddRef_def DllRelease_def)
  moreover obtain h3 where "free_fields SMFI_NUM_FIELDS c1 h2 = Inr h3"
    and "hp_blocks h3 = hp_blocks h2 |` (- set (addrs (tile_ptrs c1)))"
    using free_fields_ok [of SMFI_NUM_FIELDS h2 c1] i2 s2 c2 by (auto simp: message_inv_def)
  ultimately show ?thesis using r run [of cs c1 h1 rs c2 h2] s2 c2
    by (auto simp: CMessageCredential_delete_def)
qed

theorem message_credential_session_safe_witness:
  "\<exists>c1 h2. run_calls (message_step 0) [CallSetStringValue 0 None, CallUnAdvise]
      (snd (CMessageCredential_Initialize 0 s_rgMessageCredProvFieldDescriptors s_rgMessageFieldStatePairs (Some [65])
        (fst (CMessageCredential_new dll_init), empty_heap (\<lambda>k. k = 2)))) = Inr ([E_NOTIMPL, E_NOTIMPL], c1, h2)"
proof -
  obtain c0 d1 where n: "CMessageCredential_new dll_init = (c0, d1)" by (cases "CMessageCredential_new dll_init")
  obtain hr c1 h1 where i: "CMessageCredential_Initialize 0 s_rgMessageCredProvFieldDescriptors
      s_rgMessageFieldStatePairs (Some [65]) (c0, empty_heap (\<lambda>k. k = 2)) = (hr, c1, h1)" by (rule prod_cases3)
  show ?thesis
    using message_credential_session_safe [OF heap_ok_empty n i, of "[CallSetStringValue 0 None, CallUnAdvise]"]
    unfolding n fst_conv i snd_conv
    by (auto simp: CMessageCredential_SetStringValue_def CMessageCredential_UnAdvise_def)
qed

end
