(* ===== verification/Sample_Credential_Props.thy ===== *)
theory Sample_Credential_Props
  imports Sample_Credential_Correct
begin

text \<open>
  What each method of \<open>CSampleCredential\<close> does, branch by branch: initialisation, field
  access, deselection, serialization, the report of a failed logon.
\<close>

section \<open>Serialization\<close>

text \<open>C8: what a \<open>CSampleCredential\<close> submits. \<open>GetSerialization\<close> never faults, and
  whenever it succeeds the packed logon it returns carries the provider's class id, the global user
  name \<open>strUser\<close> (widened, up to its first NUL), the machine's domain or else the computer
  name, and the protected form of the literal password "12345678-a", whatever the fields of the
  tile hold and whatever the user typed; only when the allocation of the password's copy fails is
  the empty password submitted instead, since that failure is not checked.\<close>

theorem serialization_submits_literal:
  assumes "tile_ok SFI_NUM_FIELDS h c" and "sample_typed c" and "logon_env_ok env"
    and "sc_cpus c = Some cp"
  shows "\<exists>hr out c' h'. CSampleCredential_GetSerialization env (c, h) = Inr (hr, out, c', h') \<and>
    tile_ok SFI_NUM_FIELDS h' c' \<and>
    (SUCCEEDED hr \<longrightarrow> (\<exists>wsz mt. le_computer env = Inl wsz \<and> message_type cp = Some mt \<and>
       submits (le_sizeof env) (logon_domain env wsz) (wcs (widen (le_strUser env)))
         (wcs (protected_text (le_cred env) cp
            (if hp_fails h (Suc (hp_next h)) then None else Some password_literal))) mt out))"
  using GetSerialization_typed [OF assms] by blast

text \<open>A tile and an environment for closed examples.\<close>

definition example_tile :: sample_credential where
  "example_tile = \<lparr>tl_cRef = 1,
     tl_descs = [zero_descriptor\<lparr>cpft_of := CPFT_TILE_IMAGE\<rparr>, zero_descriptor\<lparr>cpft_of := CPFT_LARGE_TEXT\<rparr>,
       zero_descriptor\<lparr>cpft_of := CPFT_PASSWORD_TEXT\<rparr>, zero_descriptor\<lparr>cpft_of := CPFT_SUBMIT_BUTTON\<rparr>],
     tl_states = s_rgFieldStatePairs, tl_strings = [None, Some 1, Some 2, None],
     sc_cpus = Some CPUS_LOGON, sc_events = Some 7\<rparr>"

definition example_heap :: "wstr \<Rightarrow> heap" where
  "example_heap pwd = \<lparr>hp_blocks = [1 \<mapsto> BStr [76], 2 \<mapsto> BStr pwd], hp_next = 3,
     hp_fails = (\<lambda>_. False), hp_freed = []\<rparr>"

definition example_env :: logon_env where
  "example_env = \<lparr>le_dup_null = 0, le_strUser = ''www01'', le_computer = Inl [80, 67],
     le_domain = None, le_cred = example_cred_api,
     le_lsa = \<lparr>lsa_connect = 0, lsa_lookup = (\<lambda>_. (0, 9))\<rparr>, le_sizeof = 64, le_junk = (\<lambda>_. 0)\<rparr>"

lemma example_tile_ok: "tile_ok SFI_NUM_FIELDS (example_heap pwd) example_tile"
  by (simp add: tile_ok_def example_tile_def example_heap_def heap_ok_def SFI_NUM_FIELDS_def
      s_rgFieldStatePairs_def tile_ptrs_def zero_descriptor_def is_str_def)

lemma example_tile_typed: "sample_typed example_tile" "sc_cpus example_tile = Some CPUS_LOGON"
  by (simp_all add: sample_typed_def example_tile_def)

lemma example_env_ok: "logon_env_ok example_env"
  by (simp add: logon_env_ok_def example_env_def example_cred_api_ok)

theorem serialization_submits_literal_witness:
  "\<exists>hr out c' h'. CSampleCredential_GetSerialization example_env (example_tile, example_heap [120]) = Inr (hr, out, c', h') \<and>
     (SUCCEEDED hr \<longrightarrow> submits 64 [80, 67] (wcs (widen ''www01''))
        (wcs (rev password_literal)) 2 out)"
proof -
  have "protected_text example_cred_api CPUS_LOGON (Some password_literal) = rev password_literal"
    by (simp add: protected_text_def password_literal_def wide_def already_encrypted_def)
       (simp add: example_cred_api_def)
  then show ?thesis
    using serialization_submits_literal [OF example_tile_ok [of "[120]"] example_tile_typed(1) example_env_ok
        example_tile_typed(2)]
    by (auto simp: logon_domain_def KerbInteractiveLogon_def) (auto simp: example_env_def example_heap_def)
qed

text \<open>Each call of \<open>GetSerialization\<close> loses the block that held the tile's user name:
  the pointer is overwritten by the new copy before it is freed, so afterwards the old block is
  still allocated and the tile no longer points to it.\<close>

theorem serialization_leaks_user_name:
  assumes "tile_ok SFI_NUM_FIELDS h c" and "sample_typed c" and "logon_env_ok env"
    and "sc_cpus c = Some cp" and "tl_strings c ! sfi SFI_USERNAME = Some a"
  shows "\<exists>hr out c' h'. CSampleCredential_GetSerialization env (c, h) = Inr (hr, out, c', h') \<and>
    a \<in> live h' \<and> Some a \<notin> set (tile_ptrs c')"
  using GetSerialization_typed [OF assms(1-4)] assms(5) by (auto simp: set_addrs)

theorem serialization_leaks_user_name_witness:
  "\<exists>hr out c' h'. CSampleCredential_GetSerialization example_env (example_tile, example_heap []) = Inr (hr, out, c', h') \<and>
     1 \<in> live h' \<and> Some 1 \<notin> set (tile_ptrs c')"
  by (rule serialization_leaks_user_name [OF example_tile_ok example_tile_typed(1) example_env_ok example_tile_typed(2)])
    (simp add: example_tile_def)

section \<open>Deselection\<close>

text \<open>C22: deselecting the tile. A password of fewer than 128 characters is overwritten with
  zeros before its block is freed, the field then holds a fresh empty string (or nothing when
  that allocation fails, which is returned), and LogonUI is told to clear the field exactly on
  success. A password of 128 characters or more is neither wiped nor freed: the call fails and
  changes nothing.\<close>

theorem deselect_wipes_password:
  assumes "tile_ok SFI_NUM_FIELDS h c" and "tl_strings c ! sfi SFI_PASSWORD = Some a"
    and "hp_blocks h a = Some (BStr s)"
  shows "if length (wcs s) < 128 then
      \<exists>c' h'. CSampleCredential_SetDeselected n (c, h) =
          Inr (if hp_fails h (hp_next h) then E_OUTOFMEMORY else S_OK,
               case sc_events c of
                 Some e \<Rightarrow> if hp_fails h (hp_next h) then [] else [EvSetFieldString e (sfi SFI_PASSWORD) (Some [])]
               | None \<Rightarrow> [], c', h') \<and>
        hp_freed h' = BStr (replicate (length (wcs s)) 0 @ drop (length (wcs s)) s) # hp_freed h \<and>
        hp_blocks h' = (if hp_fails h (hp_next h) then (hp_blocks h)(a := None)
                        else (hp_blocks h)(a := None, hp_next h \<mapsto> BStr []))
    else CSampleCredential_SetDeselected n (c, h) = Inr (E_INVALIDARG, [], c, h)"
proof (cases "length (wcs s) < 128")
  case True
  let ?z = "BStr (replicate (length (wcs s)) 0 @ drop (length (wcs s)) s)"
  let ?h = "h\<lparr>hp_blocks := (hp_blocks h)(a := None), hp_freed := ?z # hp_freed h\<rparr>"
  have w: "wipe_password (Some a) h = Inr (S_OK, task_write a ?z h)"
    using True by (simp add: wipe_password_eq [OF assms(3)])
  have f: "CoTaskMemFree (Some a) (task_write a ?z h) = Inr ?h"
    by (simp add: CoTaskMemFree_def task_write_def)
  have i: "sfi SFI_PASSWORD < length (tl_strings c)"
    using sample_tile_okD(1) [OF assms(1) password_index(1)] .
  show ?thesis
    using True w f i assms(2)
    by (cases "hp_fails h (hp_next h)"; cases "sc_events c")
      (simp_all add: CSampleCredential_SetDeselected_def dup_into_eq read_str_Some del: sfi.simps)
next
  case False
  then show ?thesis using assms(2)
    by (simp add: CSampleCredential_SetDeselected_def wipe_password_eq [OF assms(3)] del: sfi.simps
        split: option.splits)
qed

theorem deselect_wipes_password_witness:
  "(\<exists>c' h'. CSampleCredential_SetDeselected 0 (example_tile, example_heap [115, 51]) =
      Inr (S_OK, [EvSetFieldString 7 2 (Some [])], c', h') \<and> hp_freed h' = [BStr [0, 0]]) \<and>
   CSampleCredential_SetDeselected 0 (example_tile, example_heap (replicate 128 65)) =
     Inr (E_INVALIDARG, [], example_tile, example_heap (replicate 128 65))"
proof -
  have p: "tl_strings example_tile ! sfi SFI_PASSWORD = Some 2" by (simp add: example_tile_def)
  have b: "hp_blocks (example_heap pwd) 2 = Some (BStr pwd)" for pwd by (simp add: example_heap_def)
  have w: "wcs [115, 51] = [115, 51]" "wcs (replicate 128 65) = replicate 128 65" by (auto intro: wcs_id)
  show ?thesis
    using deselect_wipes_password [OF example_tile_ok [of "[115, 51]"] p b, of 0]
      deselect_wipes_password [OF example_tile_ok [of "replicate 128 65"] p b, of 0]
    by (simp add: w numeral_2_eq_2) (auto simp: example_heap_def example_tile_def)
qed

section \<open>Initialisation\<close>

lemma FieldDescriptorCopy_eq:
  assumes "cd_pszLabel cd = Some l"
  shows "FieldDescriptorCopy n cd h =
    (if hp_fails h (hp_next h) then (E_OUTOFMEMORY, None, h\<lparr>hp_next := Suc (hp_next h)\<rparr>)
     else (S_OK, Some \<lparr>dwFieldID = of_nat (cd_dwFieldID cd), cpft_of = cd_cpft cd, pszLabel = Some (hp_next h)\<rparr>,
           h\<lparr>hp_blocks := (hp_blocks h)(hp_next h \<mapsto> BStr l), hp_next := Suc (hp_next h)\<rparr>))"
  using assms by (simp add: FieldDescriptorCopy_def SHStrDupW_def task_alloc_def)

definition sample_labels :: "wstr list" where
  "sample_labels = [wide ''Image'', wide ''Username'', wide ''Password'', wide ''Submit'']"

lemma sample_label: "i < 4 \<Longrightarrow> cd_pszLabel (s_rgCredProvFieldDescriptors ! i) = Some (sample_labels ! i)"
  by (auto simp: s_rgCredProvFieldDescriptors_def sample_labels_def less_Suc_eq numeral_eq_Suc)

lemma fresh_sample_tile:
  "CSampleCredential_new d = (c, d') \<Longrightarrow> c = \<lparr>tl_cRef = 1,
     tl_descs = [zero_descriptor, zero_descriptor, zero_descriptor, zero_descriptor],
     tl_states = [zero_state, zero_state, zero_state, zero_state],
     tl_strings = [None, None, None, None], sc_cpus = None, sc_events = None\<rparr>"
  by (simp add: CSampleCredential_new_def SFI_NUM_FIELDS_def numeral_eq_Suc)

text \<open>One round of the loop on a field of the table.\<close>

lemma sample_init_round:
  assumes "i < 4"
  shows "init_fields n s_rgCredProvFieldDescriptors ss (i # is) (S_OK, t, h) =
    (if hp_fails h (hp_next h)
     then init_fields n s_rgCredProvFieldDescriptors ss is
        (E_OUTOFMEMORY, t\<lparr>tl_states := (tl_states t)[i := ss ! i]\<rparr>, h\<lparr>hp_next := Suc (hp_next h)\<rparr>)
     else init_fields n s_rgCredProvFieldDescriptors ss is
        (S_OK, t\<lparr>tl_states := (tl_states t)[i := ss ! i],
                 tl_descs := (tl_descs t)[i := \<lparr>dwFieldID = of_nat (cd_dwFieldID (s_rgCredProvFieldDescriptors ! i)),
                   cpft_of = cd_cpft (s_rgCredProvFieldDescriptors ! i), pszLabel = Some (hp_next h)\<rparr>]\<rparr>,
         h\<lparr>hp_blocks := (hp_blocks h)(hp_next h \<mapsto> BStr (sample_labels ! i)), hp_next := Suc (hp_next h)\<rparr>))"
  using FieldDescriptorCopy_eq [OF sample_label [OF assms], of n h] by (simp add: Let_def)

lemma init_fields_failed: "\<not> SUCCEEDED hr \<Longrightarrow> init_fields n ds ss is (hr, t, h) = (hr, t, h)"
  by (cases "is") auto

lemma sample_fields: "[0..<SFI_NUM_FIELDS] = [0, 1, 2, 3]"
  by (simp add: SFI_NUM_FIELDS_def upt_rec)

lemmas init_eval = sample_init_round init_fields_failed sample_fields dup_into_eq

lemma sample_init_ok:
  assumes new: "CSampleCredential_new d = (c, d')" and f: "\<And>k. k < 7 \<Longrightarrow> \<not> hp_fails h (hp_next h + k)"
  shows "CSampleCredential_Initialize n cp s_rgCredProvFieldDescriptors s_rgFieldStatePairs (c, h) =
    (S_OK, \<lparr>tl_cRef = 1,
      tl_descs = map (\<lambda>i. \<lparr>dwFieldID = of_nat i, cpft_of = cd_cpft (s_rgCredProvFieldDescriptors ! i),
                             pszLabel = Some (hp_next h + i)\<rparr>) [0, 1, 2, 3],
      tl_states = s_rgFieldStatePairs,
      tl_strings = [None, Some (hp_next h + 4), Some (hp_next h + 5), Some (hp_next h + 6)],
      sc_cpus = Some cp, sc_events = None\<rparr>,
     h\<lparr>hp_next := hp_next h + 7,
       hp_blocks := (hp_blocks h)(hp_next h \<mapsto> BStr (wide ''Image''), hp_next h + 1 \<mapsto> BStr (wide ''Username''),
         hp_next h + 2 \<mapsto> BStr (wide ''Password''), hp_next h + 3 \<mapsto> BStr (wide ''Submit''),
         hp_next h + 4 \<mapsto> BStr username_label, hp_next h + 5 \<mapsto> BStr password_literal,
         hp_next h + 6 \<mapsto> BStr (wide ''Submit''))\<rparr>)"
  using f [of 0] f [of 1] f [of 2] f [of 3] f [of 4] f [of 5] f [of 6]
  by (simp add: CSampleCredential_Initialize_def fresh_sample_tile [OF new] init_eval numeral_eq_Suc
      del: init_fields.simps(2))
     (simp add: s_rgFieldStatePairs_def s_rgCredProvFieldDescriptors_def sample_labels_def)

lemma sample_init_fails:
  assumes new: "CSampleCredential_new d = (c, d')" and k: "k < 7" "hp_fails h (hp_next h + k)"
    and b: "\<And>j. j < k \<Longrightarrow> \<not> hp_fails h (hp_next h + j)"
    and i: "CSampleCredential_Initialize n cp s_rgCredProvFieldDescriptors s_rgFieldStatePairs (c, h) = (hr, c', h')"
  shows "hr = S_OK \<and> tl_strings c' ! sfi SFI_SUBMIT_BUTTON = None"
proof -
  have j: "k < 1 \<or> \<not> hp_fails h (hp_next h)" "k < 2 \<or> \<not> hp_fails h (Suc (hp_next h))"
    "k < 3 \<or> \<not> hp_fails h (Suc (Suc (hp_next h)))" "k < 4 \<or> \<not> hp_fails h (Suc (Suc (Suc (hp_next h))))"
    "k < 5 \<or> \<not> hp_fails h (Suc (Suc (Suc (Suc (hp_next h)))))"
    "k < 6 \<or> \<not> hp_fails h (Suc (Suc (Suc (Suc (Suc (hp_next h))))))"
    using b [of 0] b [of 1] b [of 2] b [of 3] b [of 4] b [of 5] by (auto simp: numeral_eq_Suc)
  note [simp] = CSampleCredential_Initialize_def fresh_sample_tile [OF new] init_eval numeral_eq_Suc
    and [simp del] = init_fields.simps(2)
  consider "k = 0" | "k = 1" | "k = 2" | "k = 3" | "k = 4" | "k = 5" | "k = 6" using k(1) by linarith
  then show ?thesis
  proof cases
    case 1 with j k i show ?thesis by auto
  next
    case 2 with j k i show ?thesis by auto
  next
    case 3 with j k i show ?thesis by auto
  next
    case 4 with j k i show ?thesis by auto
  next
    case 5 with j k i show ?thesis by auto
  next
    case 6 with j k i show ?thesis by auto
  next
    case 7 with j k i show ?thesis by auto
  qed
qed

text \<open>Initialising a new \<open>CSampleCredential\<close> with the provider's tables makes seven
  allocations and always returns \<open>S_OK\<close>. When all of them succeed the fields hold their labels
  (user name label, literal password, "Submit"), their descriptors and states; when any of them fails
  the failure is not reported and the tile is left incomplete: its submit button has no string.\<close>

theorem sample_initialize_spec:
  assumes "CSampleCredential_new d = (c, d')"
    and "CSampleCredential_Initialize n cp s_rgCredProvFieldDescriptors s_rgFieldStatePairs (c, h) = (hr, c', h')"
  shows "hr = S_OK \<and>
    (if \<forall>k<7. \<not> hp_fails h (hp_next h + k) then
       sample_typed c' \<and> tl_states c' = s_rgFieldStatePairs \<and>
       map dwFieldID (tl_descs c') = [0, 1, 2, 3] \<and>
       map (\<lambda>d. read_str h' (pszLabel d)) (tl_descs c') = map (\<lambda>l. Inr (Some l)) sample_labels \<and>
       map (read_str h') (tl_strings c') =
         [Inr None, Inr (Some username_label), Inr (Some password_literal), Inr (Some (wide ''Submit''))]
     else tl_strings c' ! sfi SFI_SUBMIT_BUTTON = None)"
proof (cases "\<forall>k<7. \<not> hp_fails h (hp_next h + k)")
  case True
  have w: "wcs (wide ''Image'') = wide ''Image''" "wcs (wide ''Username'') = wide ''Username''"
    "wcs (wide ''Password'') = wide ''Password''" "wcs (wide ''Submit'') = wide ''Submit''"
    "wcs username_label = username_label" "wcs password_literal = password_literal"
    by (simp_all add: wcs_def wide_def username_label_def password_literal_def)
  from True sample_init_ok [OF assms(1), of h n cp] assms(2) show ?thesis
    by (auto simp: sample_typed_def read_str_def w sample_labels_def s_rgCredProvFieldDescriptors_def)
next
  case False
  define k where "k = (LEAST k. k < 7 \<and> hp_fails h (hp_next h + k))"
  have "k < 7 \<and> hp_fails h (hp_next h + k)"
    unfolding k_def by (rule LeastI_ex) (use False in auto)
  moreover have "j < k \<Longrightarrow> \<not> hp_fails h (hp_next h + j)" for j
    using not_less_Least [of j "\<lambda>k. k < 7 \<and> hp_fails h (hp_next h + k)"] calculation
    unfolding k_def [symmetric] by auto
  ultimately have "hr = S_OK \<and> tl_strings c' ! sfi SFI_SUBMIT_BUTTON = None"
    using sample_init_fails [OF assms(1) _ _ _ assms(2), of k] by blast
  then show ?thesis unfolding if_not_P [OF False] .
qed

theorem sample_initialize_spec_witness:
  "\<exists>c' h'. CSampleCredential_Initialize 0 CPUS_LOGON s_rgCredProvFieldDescriptors s_rgFieldStatePairs
      (fst (CSampleCredential_new dll_init), empty_heap (\<lambda>k. k = 5)) = (S_OK, c', h') \<and>
    tl_strings c' ! 3 = None"
proof -
  obtain c d' where n: "CSampleCredential_new dll_init = (c, d')" by (cases "CSampleCredential_new dll_init")
  obtain hr c' h' where i: "CSampleCredential_Initialize 0 CPUS_LOGON s_rgCredProvFieldDescriptors s_rgFieldStatePairs
      (c, empty_heap (\<lambda>k. k = 5)) = (hr, c', h')" by (rule prod_cases3)
  have "\<not> (\<forall>k<7. \<not> hp_fails (empty_heap (\<lambda>k. k = 5)) (hp_next (empty_heap (\<lambda>k. k = 5)) + k))"
    by (auto simp: empty_heap_def intro: exI [of _ 4])
  with sample_initialize_spec [OF n i] i show ?thesis unfolding n fst_conv i by simp
qed

section \<open>Setting and reading fields\<close>

text \<open>The password is the one field of a type that can be set.\<close>

lemma only_password_settable:
  assumes "length (tl_descs c) = 4" and "map cpft_of (tl_descs c) = map cd_cpft s_rgCredProvFieldDescriptors"
    and "unat i < 4" and "cpft_of (tl_descs c ! unat i) \<in> {CPFT_EDIT_TEXT, CPFT_PASSWORD_TEXT}"
  shows "i = of_nat (sfi SFI_PASSWORD)"
proof (rule ccontr)
  assume n: "i \<noteq> of_nat (sfi SFI_PASSWORD)"
  have e: "cpft_of (tl_descs c ! unat i) = map cd_cpft s_rgCredProvFieldDescriptors ! unat i"
    using assms(1,3) by (simp flip: assms(2))
  have "unat i \<noteq> 2"
  proof
    assume "unat i = 2"
    then have "i = of_nat 2" by (metis of_nat_unat ucast_id)
    with n show False by simp
  qed
  with assms(3) have "unat i \<in> {0, 1, 3}" by auto
  with assms(4) show False unfolding e by (auto simp: s_rgCredProvFieldDescriptors_def)
qed

text \<open>Setting it, when memory does not run out: the old string is freed, the new one owned.\<close>

lemma set_password_eq:
  assumes t: "tile_ok SFI_NUM_FIELDS h c" and ty: "cpft_of (tl_descs c ! sfi SFI_PASSWORD) = CPFT_PASSWORD_TEXT"
    and "\<not> hp_fails h (hp_next h)"
  obtains c' h' where "CSampleCredential_SetStringValue n (of_nat (sfi SFI_PASSWORD)) (Some s) (c, h) = Inr (S_OK, c', h')"
    and "\<And>a. tl_strings c ! sfi SFI_PASSWORD = Some a \<Longrightarrow> a \<notin> live h'"
    and "read_str h' (tl_strings c' ! sfi SFI_PASSWORD) = Inr (Some (wcs s))"
    and "hp_next h' = Suc (hp_next h)" and "hp_fails h' = hp_fails h" and "Suc (hp_next h) \<notin> live h'"
proof -
  let ?i = "sfi SFI_PASSWORD"
  note ix = sample_tile_okD [OF t password_index(1)]
  obtain h1 where f: "CoTaskMemFree (tl_strings c ! ?i) h = Inr h1"
    and b: "hp_blocks h1 = hp_blocks h |` (- set_option (tl_strings c ! ?i))"
    and n: "hp_next h1 = hp_next h" and fl: "hp_fails h1 = hp_fails h"
    using owns_free [OF tile_okD(2) [OF t] ix(2)] unfolding ix(3) by blast
  have out: "hp_blocks h x = None" if "hp_next h \<le> x" for x
    using tile_okD(1) [OF t] that by (simp add: heap_ok_def)
  show ?thesis
  proof (rule that)
    show "CSampleCredential_SetStringValue n (of_nat ?i) (Some s) (c, h) =
        Inr (S_OK, c\<lparr>tl_strings := (tl_strings c)[?i := Some (hp_next h)]\<rparr>,
          h1\<lparr>hp_blocks := (hp_blocks h1)(hp_next h \<mapsto> BStr s), hp_next := Suc (hp_next h)\<rparr>)" (is "_ = Inr (_, ?c, ?h)")
      using ty f n fl assms(3) password_index
      by (simp add: CSampleCredential_SetStringValue_def dup_into_eq del: sfi.simps)
    show "a \<notin> live ?h" if "tl_strings c ! ?i = Some a" for a
      using b that out [of a] owned_string [OF t password_index(1) that]
      by (auto simp: live_def domIff restrict_map_def)
    show "read_str ?h (tl_strings ?c ! ?i) = Inr (Some (wcs s))" using ix(1) by (simp add: read_str_def)
    show "Suc (hp_next h) \<notin> live ?h"
      using b out [of "Suc (hp_next h)"] by (simp add: live_def domIff restrict_map_def)
  qed (simp_all add: fl)
qed

text \<open>On a tile with the provider's field types, \<open>SetStringValue\<close> accepts the password
  field only: every other index, in range or not, is refused with \<open>E_INVALIDARG\<close> and nothing
  changes (so a user name can never be set). An accepted string is what \<open>GetStringValue\<close>
  then copies out, when the allocations succeed, and the string it replaces is freed.\<close>

theorem set_string_only_password:
  assumes "tile_ok SFI_NUM_FIELDS h c"
    and "map cpft_of (tl_descs c) = map cd_cpft s_rgCredProvFieldDescriptors"
    and "\<not> hp_fails h (hp_next h)" and "\<not> hp_fails h (Suc (hp_next h))"
  shows "if i = of_nat (sfi SFI_PASSWORD) then
      \<exists>c' h' p h''. CSampleCredential_SetStringValue n i (Some s) (c, h) = Inr (S_OK, c', h') \<and>
        (\<forall>a. tl_strings c ! sfi SFI_PASSWORD = Some a \<longrightarrow> a \<notin> live h') \<and>
        CSampleCredential_GetStringValue n i True c' h' = Inr (S_OK, Some (Some p), h'') \<and>
        p \<notin> live h' \<and> hp_blocks h'' p = Some (BStr (wcs s))
    else CSampleCredential_SetStringValue n i (Some s) (c, h) = Inr (E_INVALIDARG, c, h)"
proof (cases "i = of_nat (sfi SFI_PASSWORD)")
  case True
  have "map cpft_of (tl_descs c) ! sfi SFI_PASSWORD = CPFT_PASSWORD_TEXT"
    unfolding assms(2) by (simp add: s_rgCredProvFieldDescriptors_def)
  then have ty: "cpft_of (tl_descs c ! sfi SFI_PASSWORD) = CPFT_PASSWORD_TEXT"
    using assms(1) by (simp add: tile_ok_def SFI_NUM_FIELDS_def)
  obtain c' h' where set: "CSampleCredential_SetStringValue n i (Some s) (c, h) = Inr (S_OK, c', h')"
      "\<And>a. tl_strings c ! sfi SFI_PASSWORD = Some a \<Longrightarrow> a \<notin> live h'"
    and rd: "read_str h' (tl_strings c' ! sfi SFI_PASSWORD) = Inr (Some (wcs s))"
      "hp_next h' = Suc (hp_next h)" "hp_fails h' = hp_fails h" and nl: "Suc (hp_next h) \<notin> live h'"
    using set_password_eq [OF assms(1) ty assms(3), of n s] True by blast
  have "CSampleCredential_GetStringValue n i True c' h' = Inr (S_OK, Some (Some (Suc (hp_next h))),
      h'\<lparr>hp_blocks := (hp_blocks h')(Suc (hp_next h) \<mapsto> BStr (wcs s)), hp_next := Suc (Suc (hp_next h))\<rparr>)"
    using True rd assms(4) password_index
    by (simp add: CSampleCredential_GetStringValue_def tile_GetStringValue_def SHStrDupW_def task_alloc_def
        del: sfi.simps)
  with True set nl show ?thesis by simp
next
  case False
  have "length (tl_descs c) = 4" using assms(1) by (simp add: tile_ok_def SFI_NUM_FIELDS_def)
  from only_password_settable [OF this assms(2), of i] False show ?thesis
    by (auto simp: CSampleCredential_SetStringValue_def SFI_NUM_FIELDS_def simp del: sfi.simps)
qed

theorem set_string_only_password_witness:
  "(\<exists>c' h' p h''. CSampleCredential_SetStringValue 0 2 (Some [88]) (example_tile, example_heap [120]) = Inr (S_OK, c', h') \<and>
      CSampleCredential_GetStringValue 0 2 True c' h' = Inr (S_OK, Some (Some p), h'') \<and>
      hp_blocks h'' p = Some (BStr [88])) \<and>
   CSampleCredential_SetStringValue 0 1 (Some [88]) (example_tile, example_heap [120]) =
      Inr (E_INVALIDARG, example_tile, example_heap [120])"
proof -
  have t: "map cpft_of (tl_descs example_tile) = map cd_cpft s_rgCredProvFieldDescriptors"
    by (simp add: example_tile_def s_rgCredProvFieldDescriptors_def)
  have f: "\<not> hp_fails (example_heap [120]) k" for k by (simp add: example_heap_def)
  have w: "wcs [88] = [88]" by (rule wcs_id) simp
  show ?thesis
    using set_string_only_password [OF example_tile_ok [of "[120]"] t f f, of 2 0 "[88]"]
      set_string_only_password [OF example_tile_ok [of "[120]"] t f f, of 1 0 "[88]"]
    by (simp add: w) blast
qed

section \<open>Reporting a result\<close>

text \<open>The report of a logon result never fails. The text and icon are those of the two
  known combinations of status and sub-status, and nothing for any other; when the text cannot be
  allocated neither is reported. LogonUI is told to clear the password field exactly when a callback
  is registered and the status is an error (its top bit is set); a success or an informational status
  leaves the field alone.\<close>

theorem report_result_spec:
  assumes "CSampleCredential_ReportResult n st sub c h = (hr, text, icon, evs, h')" and "heap_ok h"
  shows "hr = S_OK \<and>
    evs = (case sc_events c of
             Some e \<Rightarrow> if bit st 31 then [EvSetFieldString e (sfi SFI_PASSWORD) (Some [])] else []
           | None \<Rightarrow> []) \<and>
    (if st = 0xC000006D \<and> sub = 0 \<or> st = 0xC000006E \<and> sub = 0xC0000072 then
       (if hp_fails h (hp_next h) then text = None \<and> icon = CPSI_NONE \<and> hp_blocks h' = hp_blocks h
        else \<exists>a msg. text = Some a \<and> a \<notin> live h \<and> hp_blocks h' = (hp_blocks h)(a \<mapsto> BStr msg) \<and>
          (msg, icon) = (if st = 0xC000006D
             then (ri_pwzMessage (s_rgLogonStatusInfo ! 0), CPSI_ERROR)
             else (ri_pwzMessage (s_rgLogonStatusInfo ! 1), CPSI_WARNING)))
     else text = None \<and> icon = CPSI_NONE \<and> h' = h)"
proof -
  note d = STATUS_SUCCESS_def STATUS_LOGON_FAILURE_def STATUS_ACCOUNT_RESTRICTION_def STATUS_ACCOUNT_DISABLED_def
  have f: "find_status st sub s_rgLogonStatusInfo =
      (if st = 0xC000006D \<and> sub = 0 then Some (s_rgLogonStatusInfo ! 0)
       else if st = 0xC000006E \<and> sub = 0xC0000072 then Some (s_rgLogonStatusInfo ! 1) else None)"
    by (auto simp: s_rgLogonStatusInfo_def d)
  have i: "ri_cpsi (s_rgLogonStatusInfo ! 0) = CPSI_ERROR" "ri_cpsi (s_rgLogonStatusInfo ! 1) = CPSI_WARNING"
    by (simp_all add: s_rgLogonStatusInfo_def)
  have nl: "hp_next h \<notin> live h" by (rule next_not_live [OF assms(2)])
  show ?thesis
    using assms(1) nl i unfolding CSampleCredential_ReportResult_def f
    by (cases "st = 0xC000006D \<and> sub = 0"; cases "st = 0xC000006E \<and> sub = 0xC0000072"; cases "hp_fails h (hp_next h)")
      (auto simp: SHStrDupW_def task_alloc_def HRESULT_FROM_NT_SUCCEEDED
        split: option.splits)
qed

theorem report_result_spec_witness:
  "\<exists>a h'. CSampleCredential_ReportResult 0 0xC000006D 0 example_tile (example_heap []) =
     (S_OK, Some a, CPSI_ERROR, [EvSetFieldString 7 2 (Some [])], h') \<and> a \<notin> live (example_heap [])"
proof -
  obtain hr tx icon evs h' where
    r: "CSampleCredential_ReportResult 0 0xC000006D 0 example_tile (example_heap []) = (hr, tx, icon, evs, h')"
    by (cases "CSampleCredential_ReportResult 0 0xC000006D 0 example_tile (example_heap [])")
  have "heap_ok (example_heap [])" using example_tile_ok by (rule tile_okD)
  moreover have "bit (0xC000006D :: 32 word) 31" "sc_events example_tile = Some 7"
    "\<not> hp_fails (example_heap []) k" for k by (simp_all add: example_tile_def example_heap_def)
  ultimately show ?thesis using report_result_spec [OF r] by (auto simp: r)
qed

end
