(* ===== verification/Sample_Provider.thy ===== *)
theory Sample_Provider
  imports Message_Credential Sample_Credential_Props
begin

text \<open>
  \<open>CSampleProvider\<close>: the object LogonUI asks for tiles. Credentials are objects other
  clients hold references to, so they live in a store and the provider holds their addresses.

  The command window is the other half of the program; what the provider sees of it are
  parameters: how \<open>CCommandWindow::Initialize\<close> ends (an HRESULT, or the process exits) and
  what \<open>GetConnectedStatus\<close> answers.
\<close>

section \<open>Objects\<close>

record objects =
  ob_world :: world
  ob_sample :: "nat \<Rightarrow> sample_credential option"
  ob_message :: "nat \<Rightarrow> message_credential option"
  ob_next :: nat

text \<open>
  \<open>pr_window\<close>: the command window, if there is one, and whether it holds a reference to
  the provider.
\<close>

record provider =
  pr_cRef :: "32 word"
  pr_window :: "bool option"
  pr_cred :: "nat option"
  pr_msg :: "nat option"
  pr_pcpe :: "nat option"
  pr_context :: "nat option"
  pr_cpus :: "cpus option"

definition CSampleProvider_new :: "dll \<Rightarrow> provider \<times> dll" where
  "CSampleProvider_new d =
     (\<lparr>pr_cRef = 1, pr_window = None, pr_cred = None, pr_msg = None, pr_pcpe = None,
       pr_context = None, pr_cpus = None\<rparr>, DllAddRef d)"

definition CSampleProvider_AddRef :: "provider \<Rightarrow> 32 word \<times> provider" where
  "CSampleProvider_AddRef p = (pr_cRef p, p\<lparr>pr_cRef := pr_cRef p + 1\<rparr>)"

text \<open>The counting part of \<open>Release\<close>; the destructor is below.\<close>

definition provider_Release :: "provider \<Rightarrow> 32 word \<times> provider option" where
  "provider_Release p =
     (let cRef = pr_cRef p;
          p' = p\<lparr>pr_cRef := pr_cRef p - 1\<rparr>
      in (cRef, if cRef = 0 then None else Some p'))"

interpretation pr: com_refcount pr_cRef CSampleProvider_AddRef provider_Release
  by unfold_locales
    (auto simp: CSampleProvider_AddRef_def provider_Release_def Let_def split: if_splits)

text \<open>\<open>ppv\<close> is written without a check.\<close>

definition CSampleProvider_QueryInterface ::
  "iid \<Rightarrow> bool \<Rightarrow> provider \<Rightarrow> (HRESULT \<times> bool \<times> provider) res" where
  "CSampleProvider_QueryInterface riid ppv p =
     (if \<not> ppv then Inl NullDeref
      else if IID_IUnknown = riid \<or> IID_ICredentialProvider = riid
      then Inr (S_OK, True, snd (CSampleProvider_AddRef p))
      else Inr (E_NOINTERFACE, False, p))"

section \<open>Releasing what the provider holds\<close>

definition release_sample :: "nat \<Rightarrow> objects \<Rightarrow> objects res" where
  "release_sample a ob =
     (case ob_sample ob a of
        None \<Rightarrow> Inl UndefinedBehaviour
      | Some c \<Rightarrow> bind_res (CSampleCredential_Release c (ob_world ob)) (\<lambda>(_, c', w).
          Inr (ob\<lparr>ob_sample := (ob_sample ob)(a := c'), ob_world := w\<rparr>)))"

definition release_message :: "nat \<Rightarrow> objects \<Rightarrow> objects res" where
  "release_message a ob =
     (case ob_message ob a of
        None \<Rightarrow> Inl UndefinedBehaviour
      | Some c \<Rightarrow> bind_res (CMessageCredential_Release c (ob_world ob)) (\<lambda>(_, c', w).
          Inr (ob\<lparr>ob_message := (ob_message ob)(a := c'), ob_world := w\<rparr>)))"

text \<open>
  \<open>delete _pCommandWindow\<close>: the window gives its reference to the provider back. In the
  provider's own destructor that cannot delete it again unless the count is 0.
\<close>

definition delete_window :: "provider \<Rightarrow> provider option" where
  "delete_window p =
     (if pr_window p = Some True then snd (provider_Release p) else Some p)"

definition CSampleProvider_delete :: "provider \<Rightarrow> objects \<Rightarrow> objects res" where
  "CSampleProvider_delete p ob =
     bind_res (case pr_cred p of Some a \<Rightarrow> release_sample a ob | None \<Rightarrow> Inr ob) (\<lambda>ob1.
     (case delete_window p of
        None \<Rightarrow> Inl UndefinedBehaviour
      | Some _ \<Rightarrow> Inr (ob1\<lparr>ob_world := (ob_world ob1)\<lparr>w_dll := DllRelease (w_dll (ob_world ob1))\<rparr>\<rparr>)))"

definition CSampleProvider_Release ::
  "provider \<Rightarrow> objects \<Rightarrow> (32 word \<times> provider option \<times> objects) res" where
  "CSampleProvider_Release p ob =
     (let (cRef, p') = provider_Release p
      in case p' of
           Some p' \<Rightarrow> Inr (cRef, Some p', ob)
         | None \<Rightarrow> bind_res (CSampleProvider_delete (p\<lparr>pr_cRef := pr_cRef p - 1\<rparr>) ob)
             (\<lambda>ob1. Inr (cRef, None, ob1)))"

section \<open>SetUsageScenario\<close>

text \<open>
  What the environment decides: which of the three \<open>new\<close> give an object (null otherwise, which is what
  the code tests for; the \<open>new\<close> of standard C++ throws instead, and then the exception leaves the function), and how the
  window's \<open>Initialize\<close> ends. By the time that returns it has taken its reference to the
  provider.
\<close>

record scenario_env =
  se_new_credential :: bool
  se_new_message :: bool
  se_new_window :: bool
  se_window_init :: "HRESULT res"
  se_dup_null :: HRESULT

text \<open>The message tile's text: three Chinese characters, "please connect".\<close>

definition connect_message :: wstr where
  "connect_message = [0x8bf7, 0x8fde, 0x63a5]"

definition new_sample :: "objects \<Rightarrow> nat \<times> objects" where
  "new_sample ob =
     (let (c, d) = CSampleCredential_new (w_dll (ob_world ob))
      in (ob_next ob, ob\<lparr>ob_world := (ob_world ob)\<lparr>w_dll := d\<rparr>,
            ob_sample := (ob_sample ob)(ob_next ob \<mapsto> c), ob_next := Suc (ob_next ob)\<rparr>))"

definition new_message :: "objects \<Rightarrow> nat \<times> objects" where
  "new_message ob =
     (let (c, d) = CMessageCredential_new (w_dll (ob_world ob))
      in (ob_next ob, ob\<lparr>ob_world := (ob_world ob)\<lparr>w_dll := d\<rparr>,
            ob_message := (ob_message ob)(ob_next ob \<mapsto> c), ob_next := Suc (ob_next ob)\<rparr>))"

text \<open>Initialising the objects in the store.\<close>

definition init_sample :: "HRESULT \<Rightarrow> cpus \<Rightarrow> nat \<Rightarrow> objects \<Rightarrow> (HRESULT \<times> objects) res" where
  "init_sample dup_null cpus a ob =
     (case ob_sample ob a of
        None \<Rightarrow> Inl UndefinedBehaviour
      | Some c \<Rightarrow>
          (let (hr, c', h) = CSampleCredential_Initialize dup_null cpus s_rgCredProvFieldDescriptors
                               s_rgFieldStatePairs (c, w_heap (ob_world ob))
           in Inr (hr, ob\<lparr>ob_sample := (ob_sample ob)(a \<mapsto> c'),
                        ob_world := (ob_world ob)\<lparr>w_heap := h\<rparr>\<rparr>)))"

definition init_message :: "HRESULT \<Rightarrow> nat \<Rightarrow> objects \<Rightarrow> (HRESULT \<times> objects) res" where
  "init_message dup_null a ob =
     (case ob_message ob a of
        None \<Rightarrow> Inl UndefinedBehaviour
      | Some c \<Rightarrow>
          (let (hr, c', h) = CMessageCredential_Initialize dup_null s_rgMessageCredProvFieldDescriptors
                               s_rgMessageFieldStatePairs (Some connect_message) (c, w_heap (ob_world ob))
           in Inr (hr, ob\<lparr>ob_message := (ob_message ob)(a \<mapsto> c'),
                        ob_world := (ob_world ob)\<lparr>w_heap := h\<rparr>\<rparr>)))"

text \<open>The nested creation of the three objects, up to their initialisation.\<close>

definition create_objects ::
  "scenario_env \<Rightarrow> cpus \<Rightarrow> provider \<times> objects \<Rightarrow> (HRESULT \<times> provider \<times> objects) res" where
  "create_objects env cpus = (\<lambda>(p, ob).
     if \<not> se_new_credential env then Inr (E_OUTOFMEMORY, p, ob)
     else
       (let (a, ob1) = new_sample ob; p1 = p\<lparr>pr_cred := Some a\<rparr>
        in if \<not> se_new_message env then Inr (E_OUTOFMEMORY, p1, ob1)
           else
             (let (b, ob2) = new_message ob1; p2 = p1\<lparr>pr_msg := Some b\<rparr>
              in if \<not> se_new_window env then Inr (E_OUTOFMEMORY, p2, ob2)
                 else
                   bind_res (se_window_init env) (\<lambda>hr.
                   let p3 = (snd (CSampleProvider_AddRef p2))\<lparr>pr_window := Some True\<rparr>
                   in if SUCCEEDED hr then
                        bind_res (init_sample (se_dup_null env) cpus a ob2) (\<lambda>(hr, ob3).
                        if SUCCEEDED hr then
                          bind_res (init_message (se_dup_null env) b ob3) (\<lambda>(hr, ob4). Inr (hr, p3, ob4))
                        else Inr (hr, p3, ob3))
                      else Inr (hr, p3, ob2)))))"

text \<open>The clean-up after a failure.\<close>

definition cleanup_objects :: "provider \<times> objects \<Rightarrow> (provider \<times> objects) res" where
  "cleanup_objects = (\<lambda>(p, ob).
     case (if pr_window p \<noteq> None then delete_window p else Some p) of
       None \<Rightarrow> Inl UndefinedBehaviour
     | Some p1 \<Rightarrow>
         (let p1 = p1\<lparr>pr_window := None\<rparr>
          in bind_res (case pr_cred p1 of
                         Some a \<Rightarrow> bind_res (release_sample a ob) (\<lambda>ob1. Inr (p1\<lparr>pr_cred := None\<rparr>, ob1))
                       | None \<Rightarrow> Inr (p1, ob)) (\<lambda>(p2, ob1).
             case pr_msg p2 of
               Some b \<Rightarrow> bind_res (release_message b ob1) (\<lambda>ob2. Inr (p2\<lparr>pr_msg := None\<rparr>, ob2))
             | None \<Rightarrow> Inr (p2, ob1))))"

definition CSampleProvider_SetUsageScenario ::
  "scenario_env \<Rightarrow> cpus \<Rightarrow> DWORD \<Rightarrow> provider \<times> objects \<Rightarrow> (HRESULT \<times> provider \<times> objects) res" where
  "CSampleProvider_SetUsageScenario env cpus dwFlags = (\<lambda>(p, ob).
     case cpus of
       CPUS_CREDUI \<Rightarrow> Inr (E_NOTIMPL, p, ob)
     | CPUS_CHANGE_PASSWORD \<Rightarrow> Inr (E_NOTIMPL, p, ob)
     | CPUS_INVALID \<Rightarrow> Inr (E_INVALIDARG, p, ob)
     | CPUS_PLAP \<Rightarrow> Inr (E_INVALIDARG, p, ob)
     | _ \<Rightarrow>
         (let p = p\<lparr>pr_cpus := Some cpus\<rparr>
          in if pr_cred p = None \<and> pr_msg p = None \<and> pr_window p = None then
               bind_res (create_objects env cpus (p, ob)) (\<lambda>(hr, p1, ob1).
               if FAILED hr
               then bind_res (cleanup_objects (p1, ob1)) (\<lambda>(p2, ob2). Inr (hr, p2, ob2))
               else Inr (hr, p1, ob1))
             else Inr (S_OK, p, ob)))"

definition CSampleProvider_SetSerialization :: HRESULT where
  "CSampleProvider_SetSerialization = E_NOTIMPL"

section \<open>Events\<close>

datatype provider_call = PeAddRef nat | PeRelease nat | PeCredentialsChanged nat "nat option"

definition CSampleProvider_Advise ::
  "nat option \<Rightarrow> nat \<Rightarrow> provider \<Rightarrow> (HRESULT \<times> provider_call list \<times> provider) res" where
  "CSampleProvider_Advise pcpe upAdviseContext p =
     (let old = (case pr_pcpe p of Some e \<Rightarrow> [PeRelease e] | None \<Rightarrow> [])
      in case pcpe of
           None \<Rightarrow> Inl NullDeref
         | Some e \<Rightarrow> Inr (S_OK, old @ [PeAddRef e],
             p\<lparr>pr_pcpe := Some e, pr_context := Some upAdviseContext\<rparr>))"

definition CSampleProvider_UnAdvise :: "provider \<Rightarrow> HRESULT \<times> provider_call list \<times> provider" where
  "CSampleProvider_UnAdvise p =
     (case pr_pcpe p of
        Some e \<Rightarrow> (S_OK, [PeRelease e], p\<lparr>pr_pcpe := None\<rparr>)
      | None \<Rightarrow> (S_OK, [], p))"

definition CSampleProvider_OnConnectStatusChanged :: "provider \<Rightarrow> provider_call list" where
  "CSampleProvider_OnConnectStatusChanged p =
     (case pr_pcpe p of Some e \<Rightarrow> [PeCredentialsChanged e (pr_context p)] | None \<Rightarrow> [])"

section \<open>Tiles\<close>

text \<open>
  The call of \<open>_pCommandWindow->GetConnectedStatus()\<close>: \<open>status\<close> is how it ends, if
  there is a window to ask.
\<close>

definition ask_window :: "bool res \<Rightarrow> provider \<Rightarrow> bool res" where
  "ask_window status p = (if pr_window p = None then Inl NullDeref else status)"

definition CSampleProvider_GetFieldDescriptorCount ::
  "bool res \<Rightarrow> provider \<Rightarrow> (HRESULT \<times> nat) res" where
  "CSampleProvider_GetFieldDescriptorCount status p =
     bind_res (ask_window status p) (\<lambda>connected.
       Inr (S_OK, if connected then SFI_NUM_FIELDS else SMFI_NUM_FIELDS))"

definition CSampleProvider_GetFieldDescriptorAt ::
  "HRESULT \<Rightarrow> bool res \<Rightarrow> DWORD \<Rightarrow> bool \<Rightarrow> provider \<Rightarrow> heap \<Rightarrow> (HRESULT \<times> ptr \<times> heap) res" where
  "CSampleProvider_GetFieldDescriptorAt dup_null status dwIndex ppcpfd p h =
     bind_res (ask_window status p) (\<lambda>connected.
       if connected then
         (if unat dwIndex < SFI_NUM_FIELDS \<and> ppcpfd
          then FieldDescriptorCoAllocCopy dup_null (s_rgCredProvFieldDescriptors ! unat dwIndex) h
          else Inr (E_INVALIDARG, None, h))
       else
         (if unat dwIndex < SMFI_NUM_FIELDS \<and> ppcpfd
          then FieldDescriptorCoAllocCopy dup_null (s_rgMessageCredProvFieldDescriptors ! unat dwIndex) h
          else Inr (E_INVALIDARG, None, h)))"

text \<open>The count, the default, whether to log on automatically.\<close>

definition CSampleProvider_GetCredentialCount :: "HRESULT \<times> nat \<times> nat \<times> bool" where
  "CSampleProvider_GetCredentialCount = (S_OK, 1, 0, False)"

datatype credential_ref = SampleCredential nat | MessageCredential nat

definition CSampleProvider_GetCredentialAt ::
  "bool res \<Rightarrow> DWORD \<Rightarrow> bool \<Rightarrow> provider \<Rightarrow> objects \<Rightarrow> (HRESULT \<times> credential_ref option \<times> objects) res" where
  "CSampleProvider_GetCredentialAt status dwIndex ppcpc p ob =
     (if dwIndex = 0 \<and> ppcpc then
        bind_res (ask_window status p) (\<lambda>connected.
        if connected then
          (case pr_cred p of
             None \<Rightarrow> Inl NullDeref
           | Some a \<Rightarrow>
               (case ob_sample ob a of
                  None \<Rightarrow> Inl UndefinedBehaviour
                | Some c \<Rightarrow>
                    (let (hr, out, c') = CSampleCredential_QueryInterface IID_ICredentialProviderCredential True c
                     in Inr (hr, if out = Some True then Some (SampleCredential a) else None,
                             ob\<lparr>ob_sample := (ob_sample ob)(a \<mapsto> c')\<rparr>))))
        else
          (case pr_msg p of
             None \<Rightarrow> Inl NullDeref
           | Some b \<Rightarrow>
               (case ob_message ob b of
                  None \<Rightarrow> Inl UndefinedBehaviour
                | Some c \<Rightarrow>
                    (let (hr, out, c') = CMessageCredential_QueryInterface IID_ICredentialProviderCredential True c
                     in Inr (hr, if out = Some True then Some (MessageCredential b) else None,
                             ob\<lparr>ob_message := (ob_message ob)(b \<mapsto> c')\<rparr>)))))
      else Inr (E_INVALIDARG, None, ob))"

section \<open>Creating a provider\<close>

text \<open>The provider that is left, if any, and whether the caller got a pointer to it.\<close>

definition CSampleProvider_CreateInstance ::
  "bool \<Rightarrow> iid \<Rightarrow> bool \<Rightarrow> objects \<Rightarrow> (HRESULT \<times> bool \<times> provider option \<times> objects) res" where
  "CSampleProvider_CreateInstance alloc_ok riid ppv ob =
     (if alloc_ok then
        (let (p, d) = CSampleProvider_new (w_dll (ob_world ob));
             ob1 = ob\<lparr>ob_world := (ob_world ob)\<lparr>w_dll := d\<rparr>\<rparr>
         in bind_res (CSampleProvider_QueryInterface riid ppv p) (\<lambda>(hr, out, p1).
            bind_res (CSampleProvider_Release p1 ob1) (\<lambda>(_, p2, ob2). Inr (hr, out, p2, ob2))))
      else Inr (E_OUTOFMEMORY, False, None, ob))"

end
