(* ===== verification/Provider_Correct.thy ===== *)
theory Provider_Correct
  imports Sample_Provider
begin

text \<open>
  What \<open>Dll.cpp\<close> and \<open>CSampleProvider\<close> do with their reference counts, their failure
  paths and their tiles. The counts are off by one: \<open>Release\<close> deletes when the count it
  \<^emph>\<open>found\<close> was 0, so a client that follows COM's rules never gets an object deleted.
\<close>

section \<open>The DLL\<close>

text \<open>C21: the class factory is never deleted by a well-behaved client. \<open>DllGetClassObject\<close>
  for the provider's class hands out a factory with one reference, or, when the interface is not
  one of the factory's two, none; in both cases the object is alive, and after any history of calls
  that brings its count to 0 it is still alive: only one \<open>Release\<close> too many deletes it.\<close>

theorem class_factory_never_freed:
  assumes "DllGetClassObject True CLSID_CSampleProvider riid True = (hr, out, f)"
    and "ref_in_range (if SUCCEEDED hr then 1 else 0) cs"
    and "(if SUCCEEDED hr then 1 else 0) + ref_balance cs = 0"
  shows "\<exists>f0 f1. f = Some f0 \<and> cf_cRef f0 = (if SUCCEEDED hr then 1 else 0) \<and>
    run_refs CClassFactory_AddRef CClassFactory_Release cs (Some f0) = Some f1 \<and> cf_cRef f1 = 0 \<and>
    run_refs CClassFactory_AddRef CClassFactory_Release (cs @ [ReleaseCall]) (Some f0) = None"
proof -
  have "\<exists>f0. f = Some f0 \<and> cf_cRef f0 = (if SUCCEEDED hr then 1 else 0)"
    using assms(1) by (auto simp: DllGetClassObject_def CClassFactory_CreateInstance_def factory_defs Let_def
        split: if_splits)
  then obtain f0 where f0: "f = Some f0" "cf_cRef f0 = (if SUCCEEDED hr then 1 else 0)" by blast
  have u: "uint (cf_cRef f0) = (if SUCCEEDED hr then 1 else 0)" using f0(2) by simp
  then have r: "ref_in_range (uint (cf_cRef f0)) cs" and b: "uint (cf_cRef f0) + ref_balance cs = 0"
    using assms(2,3) by simp_all
  from cf.balanced_history_leaves_object [OF r b] cf.extra_release_deletes [OF r b] f0
  show ?thesis by blast
qed

theorem class_factory_never_freed_witness:
  "\<exists>f0 f1. snd (snd (DllGetClassObject True CLSID_CSampleProvider IID_IClassFactory True)) = Some f0 \<and>
     run_refs CClassFactory_AddRef CClassFactory_Release [AddRefCall, ReleaseCall, ReleaseCall] (Some f0) = Some f1 \<and>
     cf_cRef f1 = 0"
proof -
  obtain hr out f where d: "DllGetClassObject True CLSID_CSampleProvider IID_IClassFactory True = (hr, out, f)"
    by (rule prod_cases3)
  then have "SUCCEEDED hr"
    by (simp add: DllGetClassObject_def CClassFactory_CreateInstance_def factory_defs Let_def)
  then show ?thesis
    using class_factory_never_freed [OF d, of "[AddRefCall, ReleaseCall, ReleaseCall]"] unfolding d by auto
qed

text \<open>The DLL may be unloaded exactly when locks and unlocks balance. For a history of
  \<open>LockServer\<close> calls that keeps the count in range, \<open>DllCanUnloadNow\<close> answers
  \<open>S_OK\<close> if the count it started from and the balance of the history add up to 0, and
  \<open>S_FALSE\<close> otherwise.\<close>

theorem can_unload_iff_balanced:
  assumes "ref_in_range (uint (g_cRef d)) (lock_history bs)"
  shows "DllCanUnloadNow (run_locks bs d) =
    (if uint (g_cRef d) + ref_balance (lock_history bs) = 0 then S_OK else S_FALSE)"
proof -
  have c: "uint (g_cRef (run_locks bs d)) = uint (g_cRef d) + ref_balance (lock_history bs)"
    by (rule run_locks_count [OF assms])
  have "ref_in_range n cs \<Longrightarrow> n + ref_balance cs < 2 ^ 31" for n cs
    by (induction n cs rule: ref_in_range.induct) (auto simp: algebra_simps)
  then have "uint (g_cRef (run_locks bs d)) < 2 ^ 31" using c assms by simp
  from DllCanUnloadNow_iff [OF this] c show ?thesis
    by (auto simp: DllCanUnloadNow_def uint_0_iff split: if_splits)
qed

theorem can_unload_iff_balanced_witness:
  "DllCanUnloadNow (run_locks [True, True, False] dll_init) = S_FALSE \<and>
   DllCanUnloadNow (run_locks [True, True, False, False] dll_init) = S_OK"
  using can_unload_iff_balanced [of dll_init "[True, True, False]"]
    can_unload_iff_balanced [of dll_init "[True, True, False, False]"]
  by (simp add: dll_init_def)

text \<open>\<open>DllGetClassObject\<close> serves one class: for the class identifier the registry
  script registers the DLL under, which is not the one compiled into it, and for every identifier
  other than the provider's it answers \<open>CLASS_E_CLASSNOTAVAILABLE\<close> and creates nothing; for
  its own class it succeeds exactly for the factory's two interfaces with a place to store the
  pointer.\<close>

theorem class_object_served:
  "fst (DllGetClassObject True clsid riid ppv) =
     (if clsid \<noteq> CLSID_CSampleProvider then CLASS_E_CLASSNOTAVAILABLE
      else if \<not> ppv then E_INVALIDARG
      else if riid = IID_IClassFactory \<or> riid = IID_IUnknown then S_OK else E_NOINTERFACE) \<and>
   (clsid \<noteq> CLSID_CSampleProvider \<longrightarrow> snd (DllGetClassObject True clsid riid ppv) = (None, None)) \<and>
   DllGetClassObject True Register_reg_CLSID riid ppv = (CLASS_E_CLASSNOTAVAILABLE, None, None)"
  by (auto simp: DllGetClassObject_def CClassFactory_CreateInstance_def factory_defs Let_def
      CLSID_CSampleProvider_def Register_reg_CLSID_def)

theorem class_object_served_witness:
  "snd (DllGetClassObject True Register_reg_CLSID IID_IUnknown True) = (None, None)"
  using class_object_served [of Register_reg_CLSID IID_IUnknown True]
  by (simp add: CLSID_CSampleProvider_def Register_reg_CLSID_def)

section \<open>The provider's life\<close>

text \<open>A provider outlives its clients. Whatever interface is asked for, the provider that
  \<open>CSampleProvider_CreateInstance\<close> makes is still there afterwards, with one reference for
  a caller that got it and none (and no pointer to it anywhere) for one that did not; after any
  history of calls that gives all references back it has not been deleted, and the DLL's own count
  still holds its reference, so that the DLL refuses to be unloaded.\<close>

theorem provider_outlives_clients:
  assumes "CSampleProvider_CreateInstance True riid True ob = Inr (hr, out, p, ob')"
    and "uint (g_cRef (w_dll (ob_world ob))) + 1 < 2 ^ 31"
    and "ref_in_range (if out then 1 else 0) cs" and "(if out then 1 else 0) + ref_balance cs = 0"
  shows "\<exists>p0 p1. p = Some p0 \<and> run_refs CSampleProvider_AddRef provider_Release cs (Some p0) = Some p1 \<and>
    pr_cRef p1 = 0 \<and> DllCanUnloadNow (w_dll (ob_world ob')) = S_FALSE"
proof -
  obtain p0 where p0: "p = Some p0" "pr_cRef p0 = (if out then 1 else 0)"
    and ob': "w_dll (ob_world ob') = DllAddRef (w_dll (ob_world ob))"
    using assms(1)
    by (auto simp: CSampleProvider_CreateInstance_def CSampleProvider_QueryInterface_def CSampleProvider_new_def
        CSampleProvider_Release_def provider_Release_def CSampleProvider_AddRef_def Let_def split: if_splits)
  have u: "uint (pr_cRef p0) = (if out then 1 else 0)" using p0(2) by simp
  then have r: "ref_in_range (uint (pr_cRef p0)) cs" and b: "uint (pr_cRef p0) + ref_balance cs = 0"
    using assms(3,4) by simp_all
  have "uint (g_cRef (w_dll (ob_world ob'))) = uint (g_cRef (w_dll (ob_world ob))) + 1"
    using assms(2) by (simp add: ob' DllAddRef_def unat_plus1)
  then have s: "sint (g_cRef (w_dll (ob_world ob'))) = uint (g_cRef (w_dll (ob_world ob))) + 1"
    using assms(2) by (simp add: sint_uint_small)
  have "0 \<le> uint (g_cRef (w_dll (ob_world ob)))" by simp
  then have "DllCanUnloadNow (w_dll (ob_world ob')) = S_FALSE"
    unfolding DllCanUnloadNow_def s by simp
  with pr.balanced_history_leaves_object [OF r b] p0(1) show ?thesis by blast
qed

definition example_objects :: objects where
  "example_objects = \<lparr>ob_world = \<lparr>w_heap = empty_heap (\<lambda>_. False), w_dll = dll_init\<rparr>,
     ob_sample = (\<lambda>_. None), ob_message = (\<lambda>_. None), ob_next = 0\<rparr>"

theorem provider_outlives_clients_witness:
  "\<exists>hr ob' p0 p1. CSampleProvider_CreateInstance True IID_ICredentialProvider True example_objects
      = Inr (hr, True, Some p0, ob') \<and>
    run_refs CSampleProvider_AddRef provider_Release [AddRefCall, ReleaseCall, ReleaseCall] (Some p0) = Some p1 \<and>
    pr_cRef p1 = 0 \<and> DllCanUnloadNow (w_dll (ob_world ob')) = S_FALSE"
proof -
  obtain hr p ob' where c: "CSampleProvider_CreateInstance True IID_ICredentialProvider True example_objects
      = Inr (hr, True, p, ob')"
    by (simp add: CSampleProvider_CreateInstance_def CSampleProvider_QueryInterface_def CSampleProvider_new_def
        CSampleProvider_Release_def provider_Release_def CSampleProvider_AddRef_def Let_def)
  show ?thesis
    using provider_outlives_clients [OF c, of "[AddRefCall, ReleaseCall, ReleaseCall]"] c
    by (auto simp: example_objects_def dll_init_def)
qed

section \<open>SetUsageScenario\<close>

text \<open>A provider that has not set its objects up, and one that has.\<close>

definition provider_blank :: "provider \<Rightarrow> bool" where
  "provider_blank p \<longleftrightarrow> pr_cred p = None \<and> pr_msg p = None \<and> pr_window p = None"

definition provider_ready :: "provider \<Rightarrow> objects \<Rightarrow> bool" where
  "provider_ready p ob \<longleftrightarrow> pr_window p = Some True \<and>
     (\<exists>a b c m. pr_cred p = Some a \<and> pr_msg p = Some b \<and> ob_sample ob a = Some c \<and> ob_message ob b = Some m \<and>
        length (tl_descs c) = SFI_NUM_FIELDS \<and> length (tl_descs m) = SMFI_NUM_FIELDS)"

lemmas create_defs = create_objects_def cleanup_objects_def new_sample_def new_message_def
  delete_window_def provider_Release_def CSampleProvider_AddRef_def Let_def

lemma fresh_counts:
  "tl_cRef (fst (CSampleCredential_new d)) = 1" "tl_cRef (fst (CMessageCredential_new d)) = 1"
  by (simp_all add: CSampleCredential_new_def CMessageCredential_new_def)

lemma release_fresh_sample:
  assumes "ob_sample ob a = Some c" and "tl_cRef c = 1"
  shows "release_sample a ob = Inr (ob\<lparr>ob_sample := (ob_sample ob)(a \<mapsto> c\<lparr>tl_cRef := 0\<rparr>)\<rparr>)"
  using assms by (simp add: release_sample_def CSampleCredential_Release_def tile_Release_def)

lemma release_fresh_message:
  assumes "ob_message ob a = Some c" and "tl_cRef c = 1"
  shows "release_message a ob = Inr (ob\<lparr>ob_message := (ob_message ob)(a \<mapsto> c\<lparr>tl_cRef := 0\<rparr>)\<rparr>)"
  using assms by (simp add: release_message_def CMessageCredential_Release_def tile_Release_def)

text \<open>
  The outcome of a first call for logon or unlock: \<open>made\<close> counts the credential objects that
  were created.
\<close>

definition scenario_ok :: "scenario_env \<Rightarrow> bool" where
  "scenario_ok env \<longleftrightarrow> se_new_credential env \<and> se_new_message env \<and> se_new_window env \<and>
     (case se_window_init env of Inl _ \<Rightarrow> False | Inr hr \<Rightarrow> SUCCEEDED hr)"

definition objects_made :: "scenario_env \<Rightarrow> nat" where
  "objects_made env = (if \<not> se_new_credential env then 0 else if \<not> se_new_message env then 1 else 2)"

lemma scenario_fails:
  assumes blank: "provider_blank p" and c: "cpus = CPUS_LOGON \<or> cpus = CPUS_UNLOCK_WORKSTATION"
    and w: "se_window_init env = Inr whr" and f: "\<not> scenario_ok env" and n: "pr_cRef p \<noteq> - 1"
  shows "\<exists>hr ob'. CSampleProvider_SetUsageScenario env cpus fl (p, ob) = Inr (hr, p\<lparr>pr_cpus := Some cpus\<rparr>, ob') \<and>
    \<not> SUCCEEDED hr \<and>
    g_cRef (w_dll (ob_world ob')) = g_cRef (w_dll (ob_world ob)) + of_nat (objects_made env) \<and>
    (1 \<le> objects_made env \<longrightarrow> (\<exists>x. ob_sample ob' (ob_next ob) = Some x \<and> tl_cRef x = 0)) \<and>
    (objects_made env = 2 \<longrightarrow> (\<exists>x. ob_message ob' (Suc (ob_next ob)) = Some x \<and> tl_cRef x = 0))"
proof -
  have n1: "pr_cRef p + 1 \<noteq> 0" using n by (simp add: add_eq_0_iff2)
  show ?thesis
    using c f w n1 blank
    by (auto simp: CSampleProvider_SetUsageScenario_def create_defs scenario_ok_def objects_made_def
        provider_blank_def CSampleCredential_new_def CMessageCredential_new_def DllAddRef_def FAILED_iff
        release_fresh_sample release_fresh_message)
qed

lemma Initialize_S_OK: "fst (CSampleCredential_Initialize n cpus ds ss s) = S_OK"
  by (cases s) (simp add: CSampleCredential_Initialize_def Let_def split: prod.splits)

lemma scenario_succeeds:
  assumes blank: "provider_blank p" and c: "cpus = CPUS_LOGON \<or> cpus = CPUS_UNLOCK_WORKSTATION"
    and ok: "scenario_ok env" and h: "heap_ok (w_heap (ob_world ob))"
  shows "\<exists>p' ob'. CSampleProvider_SetUsageScenario env cpus fl (p, ob) = Inr (S_OK, p', ob') \<and>
    provider_ready p' ob' \<and> heap_ok (w_heap (ob_world ob')) \<and> pr_cRef p' = pr_cRef p + 1 \<and> pr_cpus p' = Some cpus \<and>
    g_cRef (w_dll (ob_world ob')) = g_cRef (w_dll (ob_world ob)) + 2"
proof -
  let ?dn = "se_dup_null env" and ?h = "w_heap (ob_world ob)" and ?d = "w_dll (ob_world ob)"
  obtain c0 d1 where 0: "CSampleCredential_new ?d = (c0, d1)" by (cases "CSampleCredential_new ?d")
  obtain m0 d2 where 1: "CMessageCredential_new d1 = (m0, d2)" by (cases "CMessageCredential_new d1")
  obtain c1 h1 where i: "CSampleCredential_Initialize ?dn cpus s_rgCredProvFieldDescriptors s_rgFieldStatePairs
      (c0, ?h) = (S_OK, c1, h1)" by (metis Initialize_S_OK fst_conv prod_cases3)
  have inv: "sample_inv (c1, h1)" by (rule Initialize_ok [OF new_tile_ok [OF h 0] i])
  then have h1: "heap_ok h1" and l1: "length (tl_descs c1) = SFI_NUM_FIELDS"
    by (auto simp: sample_inv_def tile_ok_def)
  obtain hr m1 h2 where j: "CMessageCredential_Initialize ?dn s_rgMessageCredProvFieldDescriptors s_rgMessageFieldStatePairs
      (Some connect_message) (m0, h1) = (hr, m1, h2)" by (rule prod_cases3)
  have inv2: "message_inv (m1, h2)" and hr: "hr = S_OK"
    using message_Initialize_ok [OF message_new_ok [OF h1 1] j] by simp_all
  then have h2: "heap_ok h2" and l2: "length (tl_descs m1) = SMFI_NUM_FIELDS"
    by (auto simp: message_inv_def tile_ok_def)
  have g: "g_cRef d2 = g_cRef ?d + 2"
    using 0 1 by (auto simp: CSampleCredential_new_def CMessageCredential_new_def DllAddRef_def)
  obtain whr where w: "se_window_init env = Inr whr" "SUCCEEDED whr"
    using ok by (auto simp: scenario_ok_def split: sum.splits)
  show ?thesis
    using c blank ok w i j hr l1 l2 g h2
    by (auto simp: CSampleProvider_SetUsageScenario_def create_defs scenario_ok_def provider_blank_def 0 1
        init_sample_def init_message_def FAILED_iff provider_ready_def)
qed

text \<open>C13: \<open>SetUsageScenario\<close>. CredUI and password change are refused with
  \<open>E_NOTIMPL\<close>, other scenarios with \<open>E_INVALIDARG\<close>, with no effect. For logon and
  unlock a blank provider either ends up with all three objects, initialised, and one more reference
  held by its window, or, when an allocation or the window fails, reports that failure and is blank
  again with the references it had; but the credentials it created on the way are released, not
  deleted: they stay alive with count 0 and keep their references on the DLL, which can then never be
  unloaded.\<close>

theorem set_usage_scenario_spec:
  assumes "provider_blank p" and "heap_ok (w_heap (ob_world ob))" and "se_window_init env = Inr whr"
    and "pr_cRef p \<noteq> - 1"
  shows "\<exists>hr p' ob'. CSampleProvider_SetUsageScenario env cpus fl (p, ob) = Inr (hr, p', ob') \<and>
    (if cpus \<noteq> CPUS_LOGON \<and> cpus \<noteq> CPUS_UNLOCK_WORKSTATION then
       hr = (if cpus = CPUS_CREDUI \<or> cpus = CPUS_CHANGE_PASSWORD then E_NOTIMPL else E_INVALIDARG) \<and> p' = p \<and> ob' = ob
     else if scenario_ok env then
       hr = S_OK \<and> provider_ready p' ob' \<and> pr_cRef p' = pr_cRef p + 1 \<and>
       g_cRef (w_dll (ob_world ob')) = g_cRef (w_dll (ob_world ob)) + 2
     else
       \<not> SUCCEEDED hr \<and> p' = p\<lparr>pr_cpus := Some cpus\<rparr> \<and>
       g_cRef (w_dll (ob_world ob')) = g_cRef (w_dll (ob_world ob)) + of_nat (objects_made env) \<and>
       (1 \<le> objects_made env \<longrightarrow> (\<exists>x. ob_sample ob' (ob_next ob) = Some x \<and> tl_cRef x = 0)) \<and>
       (objects_made env = 2 \<longrightarrow> (\<exists>x. ob_message ob' (Suc (ob_next ob)) = Some x \<and> tl_cRef x = 0)))"
proof (cases "cpus = CPUS_LOGON \<or> cpus = CPUS_UNLOCK_WORKSTATION")
  case False
  then show ?thesis by (cases cpus) (auto simp: CSampleProvider_SetUsageScenario_def)
next
  case True
  then have nt: "\<not> (cpus \<noteq> CPUS_LOGON \<and> cpus \<noteq> CPUS_UNLOCK_WORKSTATION)" by blast
  show ?thesis
  proof (cases "scenario_ok env")
    case ok: True
    show ?thesis using scenario_succeeds [OF assms(1) True ok assms(2), of fl]
      unfolding if_not_P [OF nt] if_P [OF ok] by blast
  next
    case bad: False
    show ?thesis using scenario_fails [OF assms(1) True assms(3) bad assms(4), of fl ob]
      unfolding if_not_P [OF nt] if_not_P [OF bad] by blast
  qed
qed

definition example_scenario :: "bool \<Rightarrow> HRESULT res \<Rightarrow> scenario_env" where
  "example_scenario m w = \<lparr>se_new_credential = True, se_new_message = m, se_new_window = True,
     se_window_init = w, se_dup_null = 0\<rparr>"

theorem set_usage_scenario_spec_witness:
  "(\<exists>p' ob'. CSampleProvider_SetUsageScenario (example_scenario True (Inr S_OK)) CPUS_LOGON 0
      (fst (CSampleProvider_new dll_init), example_objects) = Inr (S_OK, p', ob') \<and> provider_ready p' ob') \<and>
   (\<exists>hr p' ob' x. CSampleProvider_SetUsageScenario (example_scenario True (Inr E_FAIL)) CPUS_LOGON 0
      (fst (CSampleProvider_new dll_init), example_objects) = Inr (hr, p', ob') \<and> \<not> SUCCEEDED hr \<and>
      ob_sample ob' 0 = Some x \<and> tl_cRef x = 0)"
proof -
  let ?p = "fst (CSampleProvider_new dll_init)"
  have p: "provider_blank ?p" "pr_cRef ?p \<noteq> - 1" by (simp_all add: CSampleProvider_new_def provider_blank_def)
  have h: "heap_ok (w_heap (ob_world example_objects))" by (simp add: example_objects_def)
  have w: "se_window_init (example_scenario True w) = w" for w by (simp add: example_scenario_def)
  have s: "scenario_ok (example_scenario True (Inr S_OK))" "\<not> scenario_ok (example_scenario True (Inr E_FAIL))"
    and m: "objects_made (example_scenario True w) = 2" for w
    by (simp_all add: scenario_ok_def example_scenario_def objects_made_def)
  have n: "ob_next example_objects = 0" by (simp add: example_objects_def)
  show ?thesis
    using set_usage_scenario_spec [OF p(1) h w p(2), of S_OK CPUS_LOGON 0]
      set_usage_scenario_spec [OF p(1) h w p(2), of E_FAIL CPUS_LOGON 0]
    by (auto simp: s m n simp del: split_paired_Ex)
qed

section \<open>Tiles\<close>

text \<open>The table of fields a credential's class is initialised with; a descriptor that is a copy of an entry of one.\<close>

definition field_table :: "credential_ref \<Rightarrow> const_descriptor list" where
  "field_table cr = (case cr of SampleCredential _ \<Rightarrow> s_rgCredProvFieldDescriptors
     | MessageCredential _ \<Rightarrow> s_rgMessageCredProvFieldDescriptors)"

definition copies_field :: "heap \<Rightarrow> field_descriptor \<Rightarrow> const_descriptor \<Rightarrow> bool" where
  "copies_field h d cd \<longleftrightarrow> dwFieldID d = of_nat (cd_dwFieldID cd) \<and> cpft_of d = cd_cpft cd \<and>
     (case cd_pszLabel cd of None \<Rightarrow> pszLabel d = None
      | Some s \<Rightarrow> \<exists>a. pszLabel d = Some a \<and> hp_blocks h a = Some (BStr s))"

lemma CoAllocCopy_copies:
  assumes "heap_ok h" and "\<forall>k. \<not> hp_fails h k"
  shows "\<exists>a h' d. FieldDescriptorCoAllocCopy dn cd h = Inr (S_OK, Some a, h') \<and>
    a \<notin> live h \<and> hp_blocks h' a = Some (BDesc d) \<and> copies_field h' d cd"
  using assms(2) next_not_live [OF assms(1)]
  by (cases "cd_pszLabel cd")
    (auto simp: FieldDescriptorCoAllocCopy_def SHStrDupW_def task_alloc_def task_write_def copies_field_def Let_def)

text \<open>C14: what the provider shows is consistent. Once it is set up, for either answer of the
  window the credential it hands out is the editable tile when connected and the message otherwise, with one
  more reference; the number of fields the provider announces is that credential's, and that of the table its class is
  initialised with; every announced index gives, when its allocations succeed, a new descriptor that copies
  the entry of that table at the index, identifier, type and label, and every other index is refused.\<close>

theorem provider_tile_consistent:
  assumes "provider_ready p ob" and "heap_ok h" and "\<forall>k. \<not> hp_fails h k"
  shows "\<exists>n cr ob'. CSampleProvider_GetFieldDescriptorCount (Inr connected) p = Inr (S_OK, n) \<and>
    CSampleProvider_GetCredentialAt (Inr connected) 0 True p ob = Inr (S_OK, Some cr, ob') \<and>
    n = length (field_table cr) \<and>
    (case cr of
       SampleCredential a \<Rightarrow> connected \<and> (\<exists>c c'. ob_sample ob a = Some c \<and> ob_sample ob' a = Some c' \<and>
         length (tl_descs c) = n \<and> tl_cRef c' = tl_cRef c + 1)
     | MessageCredential b \<Rightarrow> \<not> connected \<and> (\<exists>m m'. ob_message ob b = Some m \<and> ob_message ob' b = Some m' \<and>
         length (tl_descs m) = n \<and> tl_cRef m' = tl_cRef m + 1)) \<and>
    (if unat i < n then
       \<exists>a h' d. CSampleProvider_GetFieldDescriptorAt dn (Inr connected) i True p h = Inr (S_OK, Some a, h') \<and>
         a \<notin> live h \<and> hp_blocks h' a = Some (BDesc d) \<and> copies_field h' d (field_table cr ! unat i) \<and> dwFieldID d = i
     else CSampleProvider_GetFieldDescriptorAt dn (Inr connected) i True p h = Inr (E_INVALIDARG, None, h))"
proof -
  obtain a b c m where r: "pr_window p = Some True" "pr_cred p = Some a" "pr_msg p = Some b"
    "ob_sample ob a = Some c" "ob_message ob b = Some m"
    "length (tl_descs c) = SFI_NUM_FIELDS" "length (tl_descs m) = SMFI_NUM_FIELDS"
    using assms(1) by (auto simp: provider_ready_def)
  have copy: "\<exists>a h' d. FieldDescriptorCoAllocCopy dn cd h = Inr (S_OK, Some a, h') \<and>
      a \<notin> live h \<and> hp_blocks h' a = Some (BDesc d) \<and> copies_field h' d cd \<and> dwFieldID d = i"
    if "cd_dwFieldID cd = unat i" for cd
  proof -
    have "word_of_nat (unat i) = i" by simp
    with that CoAllocCopy_copies [OF assms(2,3), of dn cd] show ?thesis by (auto simp: copies_field_def)
  qed
  show ?thesis
  proof (cases connected)
    case True
    with r copy [of "s_rgCredProvFieldDescriptors ! unat i"] field_descriptor_index [of "unat i"] show ?thesis
      by (auto simp: CSampleProvider_GetFieldDescriptorCount_def CSampleProvider_GetCredentialAt_def ask_window_def
          CSampleProvider_GetFieldDescriptorAt_def CSampleCredential_QueryInterface_def tile_QueryInterface_def
          tile_AddRef_def field_table_def field_tables_length)
  next
    case False
    have m0: "cd_dwFieldID (s_rgMessageCredProvFieldDescriptors ! unat i) = unat i" if "unat i < SMFI_NUM_FIELDS"
      using that by (simp add: SMFI_NUM_FIELDS_def s_rgMessageCredProvFieldDescriptors_def)
    with False r copy [of "s_rgMessageCredProvFieldDescriptors ! unat i"] show ?thesis
      by (auto simp: CSampleProvider_GetFieldDescriptorCount_def CSampleProvider_GetCredentialAt_def ask_window_def
          CSampleProvider_GetFieldDescriptorAt_def CMessageCredential_QueryInterface_def tile_QueryInterface_def
          tile_AddRef_def field_table_def field_tables_length)
  qed
qed

theorem provider_tile_consistent_witness:
  "\<exists>p ob n cr ob'. CSampleProvider_SetUsageScenario (example_scenario True (Inr S_OK)) CPUS_LOGON 0
      (fst (CSampleProvider_new dll_init), example_objects) = Inr (S_OK, p, ob) \<and>
    CSampleProvider_GetFieldDescriptorCount (Inr True) p = Inr (S_OK, n) \<and>
    CSampleProvider_GetCredentialAt (Inr True) 0 True p ob = Inr (S_OK, Some cr, ob') \<and>
    CSampleProvider_GetFieldDescriptorAt 0 (Inr False) 1 True p (empty_heap (\<lambda>_. False)) =
      Inr (E_INVALIDARG, None, empty_heap (\<lambda>_. False))"
proof -
  have b: "provider_blank (fst (CSampleProvider_new dll_init))" by (simp add: CSampleProvider_new_def provider_blank_def)
  have s: "scenario_ok (example_scenario True (Inr S_OK))" by (simp add: scenario_ok_def example_scenario_def)
  have h: "heap_ok (w_heap (ob_world example_objects))" by (simp add: example_objects_def)
  obtain p ob where p: "CSampleProvider_SetUsageScenario (example_scenario True (Inr S_OK)) CPUS_LOGON 0
      (fst (CSampleProvider_new dll_init), example_objects) = Inr (S_OK, p, ob)" and r: "provider_ready p ob"
    using scenario_succeeds [OF b _ s h, of CPUS_LOGON 0] by blast
  have f: "\<forall>k. \<not> hp_fails (empty_heap (\<lambda>_. False)) k" by (simp add: empty_heap_def)
  note t = provider_tile_consistent [OF r heap_ok_empty f]
  obtain n cr ob' where A: "CSampleProvider_GetFieldDescriptorCount (Inr True) p = Inr (S_OK, n)"
      "CSampleProvider_GetCredentialAt (Inr True) 0 True p ob = Inr (S_OK, Some cr, ob')"
    using t [of True 0 0] by blast
  have c: "CSampleProvider_GetFieldDescriptorCount (Inr False) p = Inr (S_OK, 1)"
    using r by (auto simp: CSampleProvider_GetFieldDescriptorCount_def ask_window_def provider_ready_def SMFI_NUM_FIELDS_def)
  obtain m where m: "CSampleProvider_GetFieldDescriptorCount (Inr False) p = Inr (S_OK, m)"
    and D: "if unat (1 :: DWORD) < m then True else CSampleProvider_GetFieldDescriptorAt 0 (Inr False) 1 True p
       (empty_heap (\<lambda>_. False)) = Inr (E_INVALIDARG, None, empty_heap (\<lambda>_. False))"
    using t [of False 1 0] by (metis (full_types))
  have "m = 1" using c m by simp
  with D have "CSampleProvider_GetFieldDescriptorAt 0 (Inr False) 1 True p
       (empty_heap (\<lambda>_. False)) = Inr (E_INVALIDARG, None, empty_heap (\<lambda>_. False))" by simp
  with p A show ?thesis by blast
qed

end
