(* ===== verification/Tile_Accounts.thy ===== *)
theory Tile_Accounts
  imports Tile
begin

text \<open>
  Where a tile's strings go. \<open>spare\<close> is what the heap holds besides the blocks a list of pointers owns; an
  operation that leaves it as it was neither loses a block of its tile nor touches anybody else's.
\<close>

definition spare :: "heap \<Rightarrow> ptr list \<Rightarrow> addr \<Rightarrow> block option" where
  "spare h ps = hp_blocks h |` (- set (addrs ps))"

lemma addrs_fill:
  assumes "i < length ps" and "ps ! i = None"
  shows "set (addrs (ps[i := Some x])) = insert x (set (addrs ps))"
proof -
  have "set (ps[i := Some x]) = insert (Some x) (set (take i ps) \<union> set (drop (Suc i) ps))"
    using assms(1) by (simp add: upd_conv_take_nth_drop)
  moreover have "set ps = insert None (set (take i ps) \<union> set (drop (Suc i) ps))"
    using id_take_nth_drop [OF assms(1)] assms(2) by (metis Un_insert_right list.simps(15) set_append)
  ultimately show ?thesis by (auto simp: set_addrs)
qed

lemma addrs_clear:
  assumes "owns h ps" and "i < length ps"
  shows "set (addrs (ps[i := None])) = set (addrs ps) - set_option (ps ! i)"
proof -
  have other: "ps ! j \<noteq> Some a" if "ps ! i = Some a" "j < length ps" "j \<noteq> i" for a j
    using owns_distinct [OF assms(1,2) that(2) that(3) [symmetric] that(1)] .
  show ?thesis
  proof (intro equalityI subsetI)
    fix a assume "a \<in> set (addrs (ps[i := None]))"
    then obtain j where j: "j < length ps" "ps[i := None] ! j = Some a"
      by (auto simp: set_addrs in_set_conv_nth)
    then have "j \<noteq> i" "ps ! j = Some a" using assms(2) by (auto simp: nth_list_update split: if_splits)
    with j(1) other [of a j] show "a \<in> set (addrs ps) - set_option (ps ! i)"
      by (auto simp: set_addrs in_set_conv_nth)
  next
    fix a assume "a \<in> set (addrs ps) - set_option (ps ! i)"
    then obtain j where "j < length ps" "ps ! j = Some a" "j \<noteq> i" by (auto simp: set_addrs in_set_conv_nth)
    then have "ps[i := None] ! j = Some a" "j < length (ps[i := None])" by simp_all
    then show "a \<in> set (addrs (ps[i := None]))" unfolding set_addrs by (metis (mono_tags) mem_Collect_eq nth_mem)
  qed
qed

lemma spare_fill:
  assumes "heap_ok h" and "i < length ps" and "ps ! i = None" and "hp_blocks h' = (hp_blocks h)(hp_next h \<mapsto> b)"
  shows "spare h' (ps[i := Some (hp_next h)]) = spare h ps"
proof -
  have "hp_blocks h (hp_next h) = None" using assms(1) by (simp add: heap_ok_def)
  then show ?thesis
    unfolding spare_def addrs_fill [OF assms(2,3)] assms(4) by (auto simp: restrict_map_def fun_eq_iff)
qed

lemma spare_clear:
  assumes "owns h ps" and "i < length ps" and "hp_blocks h' = hp_blocks h |` (- set_option (ps ! i))"
  shows "spare h' (ps[i := None]) = spare h ps"
proof -
  have "set_option (ps ! i) \<subseteq> set (addrs ps)" using nth_mem [OF assms(2)] by (auto simp: set_addrs)
  then show ?thesis
    unfolding spare_def addrs_clear [OF assms(1,2)] assms(3) by (auto simp: restrict_map_def fun_eq_iff)
qed

lemma spare_write: "a \<in> set (addrs ps) \<Longrightarrow> spare (task_write a b h) ps = spare h ps"
  by (auto simp: spare_def task_write_def restrict_map_def fun_eq_iff)

lemma spare_same_blocks: "hp_blocks h' = hp_blocks h \<Longrightarrow> spare h' ps = spare h ps"
  by (simp add: spare_def)

text \<open>Copying a string into an empty field, and in place of another string.\<close>

lemma dup_into_spare:
  assumes t: "tile_ok n h t" and i: "i < n" and e: "tl_strings t ! i = None"
    and d: "dup_into dn s i (t, h) = (hr, t', h')"
  shows "spare h' (tile_ptrs t') = spare h (tile_ptrs t)"
proof -
  have l: "i < length (tl_strings t)" "i < length (tile_ptrs t)" using t i by (auto simp: tile_ok_def tile_ptrs_def)
  have n: "tile_ptrs t ! i = None" using e by (simp add: tile_ptrs_nth [OF l(1)])
  then have same: "(tile_ptrs t)[i := None] = tile_ptrs t" by (metis list_update_id)
  show ?thesis
  proof (cases s)
    case None
    with d same show ?thesis by (auto simp: dup_into_def SHStrDupW_def tile_ptrs_string [OF l(1)])
  next
    case (Some x)
    obtain p where p: "SHStrDupW dn (Some x) h = (hr, p, h')"
      and t': "t' = t\<lparr>tl_strings := (tl_strings t)[i := p]\<rparr>"
      using d Some by (auto simp: dup_into_def split: prod.splits)
    from p show ?thesis
    proof (cases rule: SHStrDupW_cases)
      case ok
      with spare_fill [OF tile_okD(1) [OF t] l(2) n ok(3)] t' show ?thesis by (simp add: tile_ptrs_string [OF l(1)])
    next
      case oom
      with t' same spare_same_blocks [OF oom(3)] show ?thesis by (simp add: tile_ptrs_string [OF l(1)])
    qed
  qed
qed

lemma free_dup_spare:
  assumes t: "tile_ok n h t" and i: "i < n"
    and f: "CoTaskMemFree (tl_strings t ! i) h = Inr h1" and d: "dup_into dn s i (t, h1) = (hr, t', h')"
  shows "spare h' (tile_ptrs t') = spare h (tile_ptrs t)"
proof -
  have l: "i < length (tl_strings t)" "i < length (tile_ptrs t)" using t i by (auto simp: tile_ok_def tile_ptrs_def)
  let ?t = "t\<lparr>tl_strings := (tl_strings t)[i := None]\<rparr>"
  have o: "owns h1 ((tile_ptrs t)[i := None])" "hp_blocks h1 = hp_blocks h |` (- set_option (tile_ptrs t ! i))"
    using owns_free [OF tile_okD(2) [OF t] l(2)] f by (auto simp: tile_ptrs_nth [OF l(1)])
  have "tile_ok n h1 ?t"
    using t o(1) CoTaskMemFree_ok [OF tile_okD(1) [OF t] f] by (simp add: tile_ok_def tile_ptrs_string [OF l(1)])
  moreover from d have "dup_into dn s i (?t, h1) = (hr, t', h')" by (auto simp: dup_into_def split: prod.splits)
  moreover have "tl_strings ?t ! i = None" using l(1) by simp
  ultimately have "spare h' (tile_ptrs t') = spare h1 (tile_ptrs ?t)" using dup_into_spare i by blast
  also have "\<dots> = spare h (tile_ptrs t)"
    using spare_clear [OF tile_okD(2) [OF t] l(2) o(2)] by (simp add: tile_ptrs_string [OF l(1)])
  finally show ?thesis .
qed

text \<open>Copying the descriptors into a tile that has none yet.\<close>

lemma init_fields_spare:
  "tile_ok n h t \<Longrightarrow> set is \<subseteq> {..<n} \<Longrightarrow> distinct is \<Longrightarrow> \<forall>i\<in>set is. pszLabel (tl_descs t ! i) = None \<Longrightarrow>
     init_fields dn ds ss is (hr, t, h) = (hr', t', h') \<Longrightarrow>
     spare h' (tile_ptrs t') = spare h (tile_ptrs t) \<and> tl_strings t' = tl_strings t"
proof (induction "is" arbitrary: hr t h)
  case Nil
  then show ?case by simp
next
  case (Cons i "is")
  show ?case
  proof (cases "SUCCEEDED hr")
    case False
    with Cons.prems show ?thesis by simp
  next
    case True
    let ?t = "t\<lparr>tl_states := (tl_states t)[i := ss ! i]\<rparr>"
    obtain hr1 d h1 where c: "FieldDescriptorCopy dn (ds ! i) h = (hr1, d, h1)"
      by (cases "FieldDescriptorCopy dn (ds ! i) h")
    let ?t2 = "case d of Some d \<Rightarrow> ?t\<lparr>tl_descs := (tl_descs ?t)[i := d]\<rparr> | None \<Rightarrow> ?t"
    have i: "i < n" "i < length (tl_descs t)" "length (tl_strings t) = n" using Cons.prems(1,2) by (auto simp: tile_ok_def)
    have hok: "heap_ok h" using Cons.prems(1) by (rule tile_okD)
    have j: "n + i < length (tile_ptrs t)" "tile_ptrs t ! (n + i) = None"
      using i Cons.prems(4) by (auto simp: tile_ptrs_def nth_append)
    then have same: "(tile_ptrs t)[n + i := None] = tile_ptrs t" by (metis list_update_id)
    have s: "spare h1 (tile_ptrs ?t2) = spare h (tile_ptrs t)"
      using c hok
    proof (cases rule: FieldDescriptorCopy_cases)
      case (null d')
      with same show ?thesis by (simp add: tile_ptrs_state_desc i(3))
    next
      case (ok d' s)
      with spare_fill [OF hok j ok(5)] show ?thesis by (simp add: tile_ptrs_state_desc i(3))
    next
      case oom
      with spare_same_blocks [OF oom(2)] show ?thesis by simp
    qed
    have "init_fields dn ds ss [i] (hr, t, h) = (hr1, ?t2, h1)" using True c by (simp add: Let_def)
    then have "tile_ok n h1 ?t2" using init_fields_ok [OF Cons.prems(1), of "[i]"] i(1) by simp
    moreover have "\<forall>k\<in>set is. pszLabel (tl_descs ?t2 ! k) = None"
    proof
      fix k assume "k \<in> set is"
      then have "k \<noteq> i" "pszLabel (tl_descs t ! k) = None" using Cons.prems(3,4) by auto
      then show "pszLabel (tl_descs ?t2 ! k) = None" by (cases d) simp_all
    qed
    moreover have "init_fields dn ds ss is (hr1, ?t2, h1) = (hr', t', h')"
      using Cons.prems(5) True c by (simp add: Let_def)
    ultimately have "spare h' (tile_ptrs t') = spare h1 (tile_ptrs ?t2) \<and> tl_strings t' = tl_strings ?t2"
      using Cons.IH [of h1 ?t2 hr1] Cons.prems(2,3) by simp
    with s show ?thesis by (auto split: option.splits)
  qed
qed

end
