(* ===== verification/Sample_Credential_Session.thy ===== *)
theory Sample_Credential_Session
  imports Sample_Credential_Correct Tile_Accounts
begin

text \<open>
  A whole life of a \<open>CSampleCredential\<close>, from its constructor to its destructor, with an account of the
  memory: which calls can leave blocks behind, and that the others do not.
\<close>

section \<open>Calls that keep the tile's strings\<close>

text \<open>
  The calls that hand no memory to the client and leave none behind. The others: \<open>GetStringValue\<close> and
  \<open>ReportResult\<close> hand a copy to the client; \<open>GetSerialization\<close> hands out the packed logon, and overwrites
  the pointer to the user name without freeing the string.
\<close>

fun keeps_memory :: "cred_call \<Rightarrow> bool" where
  "keeps_memory (CallGetStringValue i b) \<longleftrightarrow> False"
| "keeps_memory (CallGetSerialization env) \<longleftrightarrow> False"
| "keeps_memory (CallReportResult st sub) \<longleftrightarrow> False"
| "keeps_memory _ \<longleftrightarrow> True"

lemma SetStringValue_spare:
  assumes "sample_inv (c, h)" and "CSampleCredential_SetStringValue dn i s (c, h) = Inr (hr, c', h')"
  shows "spare h' (tile_ptrs c') = spare h (tile_ptrs c)"
proof -
  have t: "tile_ok SFI_NUM_FIELDS h c" using assms(1) by (simp add: sample_inv_def)
  from assms(2) show ?thesis
    using free_dup_spare [OF t]
    by (auto simp: CSampleCredential_SetStringValue_def elim!: bind_resE split: if_splits)
qed

lemma SetDeselected_spare:
  assumes inv: "sample_inv (c, h)" and r: "CSampleCredential_SetDeselected dn (c, h) = Inr (hr, evs, c', h')"
  shows "spare h' (tile_ptrs c') = spare h (tile_ptrs c)"
proof (cases "tl_strings c ! sfi SFI_PASSWORD")
  case None
  with r show ?thesis by (simp add: CSampleCredential_SetDeselected_def)
next
  case (Some a)
  have t: "tile_ok SFI_NUM_FIELDS h c" using inv by (simp add: sample_inv_def)
  obtain s where s: "hp_blocks h a = Some (BStr s)" using owned_string [OF t password_index(1) Some] by blast
  show ?thesis
  proof (cases "length (wcs s) < 128")
    case False
    with Some s r show ?thesis
      by (auto simp: CSampleCredential_SetDeselected_def wipe_password_eq split: option.splits)
  next
    case True
    let ?h = "task_write a (BStr (replicate (length (wcs s)) 0 @ drop (length (wcs s)) s)) h"
    have t1: "tile_ok SFI_NUM_FIELDS ?h c" by (rule tile_ok_write [OF t]) (simp add: is_str_iff s)
    have "a \<in> set (addrs (tile_ptrs c))"
      using Some sample_tile_okD(2,3) [OF t password_index(1)] by (metis mem_Collect_eq nth_mem set_addrs)
    then have w: "spare ?h (tile_ptrs c) = spare h (tile_ptrs c)" by (rule spare_write)
    obtain h1 hr1 where f: "CoTaskMemFree (tl_strings c ! sfi SFI_PASSWORD) ?h = Inr h1"
      and d: "dup_into dn (Some []) (sfi SFI_PASSWORD) (c, h1) = (hr1, c', h')"
      using r True Some s
      by (auto simp: CSampleCredential_SetDeselected_def wipe_password_eq elim!: bind_resE split: option.splits if_splits
          prod.splits)
    from free_dup_spare [OF t1 password_index(1) f d] w show ?thesis by simp
  qed
qed

lemma sample_step_spare:
  assumes "sample_inv (c, h)" and "keeps_memory k" and "sample_step n k (c, h) = Inr (r, c', h')"
  shows "spare h' (tile_ptrs c') = spare h (tile_ptrs c)"
proof -
  have ev: "tile_ptrs (c\<lparr>sc_events := e\<rparr>) = tile_ptrs c" for e by (simp add: tile_ptrs_def)
  show ?thesis
  proof (cases k)
    case (CallAdvise e)
    with assms(3) ev show ?thesis
      by (auto simp: CSampleCredential_Advise_def Let_def split: option.splits)
  next
    case (CallSetSelected b)
    with assms(3) show ?thesis by (auto elim!: bind_resE)
  next
    case CallSetDeselected
    with assms(3) SetDeselected_spare [OF assms(1), of n] show ?thesis by (auto elim!: bind_resE)
  next
    case (CallSetStringValue i s)
    with assms(3) SetStringValue_spare [OF assms(1), of n i s] show ?thesis by simp
  qed (use assms(2,3) ev in \<open>auto simp: CSampleCredential_UnAdvise_def\<close>)
qed

interpretation keeping: safe_object "sample_step n" "\<lambda>k. call_allowed k \<and> keeps_memory k"
    "\<lambda>s. sample_inv s \<and> spare (snd s) (tile_ptrs (fst s)) = others" for n others
proof
  fix s :: "sample_credential \<times> heap" and k
  assume s: "sample_inv s \<and> spare (snd s) (tile_ptrs (fst s)) = others" and k: "call_allowed k \<and> keeps_memory k"
  obtain r c' h' where step: "sample_step n k s = Inr (r, c', h')" and inv: "sample_inv (c', h')"
    using sample_step_ok [of s k n] s k by auto
  moreover have "spare h' (tile_ptrs c') = spare (snd s) (tile_ptrs (fst s))"
    using sample_step_spare [of "fst s" "snd s" k n r c' h'] s k step by simp
  ultimately show "\<exists>r s'. sample_step n k s = Inr (r, s') \<and> sample_inv s' \<and> spare (snd s') (tile_ptrs (fst s')) = others"
    using s by (intro exI [of _ r] exI [of _ "(c', h')"]) simp
qed

section \<open>Setting up\<close>

lemma new_tile_empty:
  assumes "CSampleCredential_new d = (c, d')"
  shows "spare h (tile_ptrs c) = hp_blocks h" and "i < SFI_NUM_FIELDS \<Longrightarrow> tl_strings c ! i = None"
    and "i < SFI_NUM_FIELDS \<Longrightarrow> pszLabel (tl_descs c ! i) = None"
  using assms by (auto simp: CSampleCredential_new_def tile_ptrs_def zero_descriptor_def spare_def)

lemma Initialize_spare:
  assumes h: "heap_ok h" and new: "CSampleCredential_new d = (c0, d1)"
    and i: "CSampleCredential_Initialize n cpus ds ss (c0, h) = (hr, c', h')"
  shows "spare h' (tile_ptrs c') = hp_blocks h"
proof -
  let ?c = "c0\<lparr>sc_cpus := Some cpus\<rparr>"
  have t: "tile_ok SFI_NUM_FIELDS h ?c" using new_tile_ok [OF h new] by (simp add: tile_ok_def tile_ptrs_def)
  have p: "tile_ptrs ?c = tile_ptrs c0" by (simp add: tile_ptrs_def)
  obtain hr1 c1 h1 where f: "init_fields n ds ss [0..<SFI_NUM_FIELDS] (S_OK, ?c, h) = (hr1, c1, h1)"
    by (cases "init_fields n ds ss [0..<SFI_NUM_FIELDS] (S_OK, ?c, h)")
  have "spare h1 (tile_ptrs c1) = spare h (tile_ptrs ?c) \<and> tl_strings c1 = tl_strings ?c"
    by (rule init_fields_spare [OF t _ _ _ f]) (auto simp: new_tile_empty [OF new])
  then have s1: "spare h1 (tile_ptrs c1) = hp_blocks h" and e1: "tl_strings c1 = tl_strings c0"
    unfolding p new_tile_empty(1) [OF new] by simp_all
  have t1: "tile_ok SFI_NUM_FIELDS h1 c1" by (rule init_fields_ok [OF t _ f]) auto
  let ?dup = "\<lambda>s i (hr, x, h). if SUCCEEDED hr then dup_into n (Some s) i (x, h) else (hr, x, h)"
  have step: "tile_ok SFI_NUM_FIELDS h3 y \<and> spare h3 (tile_ptrs y) = spare h2 (tile_ptrs x) \<and>
      (\<forall>j. j \<noteq> sfi k \<longrightarrow> tl_strings y ! j = tl_strings x ! j)"
    if "tile_ok SFI_NUM_FIELDS h2 (x :: sample_credential)" "tl_strings x ! sfi k = None" "?dup s (sfi k) (hr2, x, h2) = (hr3, y, h3)" for x h2 k s hr2 hr3 y h3
  proof (cases "SUCCEEDED hr2")
    case True
    then have d: "dup_into n (Some s) (sfi k) (x, h2) = (hr3, y, h3)" using that(3) by simp
    show ?thesis
      using dup_into_ok [OF that(1) sfi_bound d] dup_into_spare [OF that(1) sfi_bound that(2) d] dup_into_frame(5) [OF d] by simp
  next
    case False
    with that show ?thesis by simp
  qed
  obtain hr2 c2 h2 where 2: "?dup username_label (sfi SFI_USERNAME) (hr1, c1, h1) = (hr2, c2, h2)" by (rule prod_cases3)
  obtain hr3 c3 h3 where 3: "?dup password_literal (sfi SFI_PASSWORD) (hr2, c2, h2) = (hr3, c3, h3)" by (rule prod_cases3)
  obtain hr4 c4 h4 where 4: "?dup (wide ''Submit'') (sfi SFI_SUBMIT_BUTTON) (hr3, c3, h3) = (hr4, c4, h4)" by (rule prod_cases3)
  have e: "tl_strings c1 ! sfi k = None" for k using new_tile_empty(2) [OF new sfi_bound] e1 by simp
  note a = step [OF t1 e 2]
  have "tl_strings c2 ! sfi SFI_PASSWORD = None" "tl_strings c2 ! sfi SFI_SUBMIT_BUTTON = None"
    using a e [of SFI_PASSWORD] e [of SFI_SUBMIT_BUTTON] by simp_all
  note b = step [OF conjunct1 [OF a] this(1) 3] and sb = this(2)
  have "tl_strings c3 ! sfi SFI_SUBMIT_BUTTON = None" using b sb by simp
  note c = step [OF conjunct1 [OF b] this 4]
  have "CSampleCredential_Initialize n cpus ds ss (c0, h) = (S_OK, c4, h4)"
    using f 2 3 4 by (simp only: CSampleCredential_Initialize_def prod.case Let_def)
  with i a b c s1 show ?thesis by simp
qed

section \<open>A whole session\<close>

text \<open>C7: a credential survives every client. Whatever allocations fail, a freshly built and initialised
  \<open>CSampleCredential\<close> runs every sequence of LogonUI's calls without a fault (no dangling or double-freed
  string, no access outside its arrays), whatever \<open>Initialize\<close> reported. Deleting it afterwards frees exactly the
  strings and labels it owns then, each once, and gives the DLL's reference back. When none of the calls is one
  that hands memory to the client or loses some (see above), nothing is lost on the way either:
  the heap's blocks are then those of before the construction.\<close>

theorem sample_credential_session_safe:
  assumes "heap_ok h" and "list_all call_allowed cs"
    and "CSampleCredential_new d = (c0, d1)"
    and "CSampleCredential_Initialize n cpus s_rgCredProvFieldDescriptors s_rgFieldStatePairs (c0, h) = (hr, c1, h1)"
  shows "\<exists>rs c2 h2 w. run_calls (sample_step n) cs (c1, h1) = Inr (rs, c2, h2) \<and> length rs = length cs \<and>
    CSampleCredential_delete c2 \<lparr>w_heap = h2, w_dll = d1\<rparr> = Inr w \<and>
    hp_blocks (w_heap w) = hp_blocks h2 |` (- set (addrs (tile_ptrs c2))) \<and> w_dll w = d \<and>
    (list_all keeps_memory cs \<longrightarrow> hp_blocks (w_heap w) = hp_blocks h)"
proof -
  have inv1: "sample_inv (c1, h1)" by (rule Initialize_ok [OF new_tile_ok [OF assms(1,3)] assms(4)])
  have o1: "spare h1 (tile_ptrs c1) = hp_blocks h" by (rule Initialize_spare [OF assms(1,3,4)])
  from sc.run_calls_safe [OF inv1 assms(2), of n] obtain rs s2
    where "run_calls (sample_step n) cs (c1, h1) = Inr (rs, s2)" "length rs = length cs"
      and "sample_inv s2" by blast
  then obtain c2 h2 where r: "run_calls (sample_step n) cs (c1, h1) = Inr (rs, c2, h2)"
      "length rs = length cs" and inv: "sample_inv (c2, h2)" by (cases s2) auto
  have "DllRelease d1 = d" using assms(3) by (auto simp: CSampleCredential_new_def DllAddRef_def DllRelease_def)
  moreover obtain w where w: "CSampleCredential_delete c2 \<lparr>w_heap = h2, w_dll = d1\<rparr> = Inr w"
      "hp_blocks (w_heap w) = hp_blocks h2 |` (- set (addrs (tile_ptrs c2)))" "w_dll w = DllRelease d1"
    using delete_ok [of h2 c2 d1] inv by (auto simp: sample_inv_def)
  moreover have "hp_blocks (w_heap w) = hp_blocks h" if k: "list_all keeps_memory cs"
  proof -
    have "list_all (\<lambda>k. call_allowed k \<and> keeps_memory k) cs" using assms(2) k by (simp add: list_all_iff)
    from keeping.run_calls_safe [OF _ this, of "(c1, h1)" "hp_blocks h" n] inv1 o1 r(1)
    have "spare h2 (tile_ptrs c2) = hp_blocks h" by auto
    with w(2) show ?thesis by (simp add: spare_def)
  qed
  ultimately show ?thesis using r by simp
qed

theorem sample_credential_session_safe_witness:
  "\<exists>rs c2 h2 w. run_calls (sample_step 0)
      [CallAdvise (Some 7), CallSetSelected True, CallSetStringValue 2 (Some [65]), CallSetDeselected, CallUnAdvise]
      (snd (CSampleCredential_Initialize 0 CPUS_LOGON s_rgCredProvFieldDescriptors s_rgFieldStatePairs
        (fst (CSampleCredential_new dll_init), empty_heap (\<lambda>k. k = 6)))) = Inr (rs, c2, h2) \<and> length rs = 5 \<and>
    CSampleCredential_delete c2 \<lparr>w_heap = h2, w_dll = snd (CSampleCredential_new dll_init)\<rparr> = Inr w \<and>
    hp_blocks (w_heap w) = Map.empty"
proof -
  let ?cs = "[CallAdvise (Some 7), CallSetSelected True, CallSetStringValue 2 (Some [65]), CallSetDeselected, CallUnAdvise]"
  obtain c0 d1 where n: "CSampleCredential_new dll_init = (c0, d1)" by (cases "CSampleCredential_new dll_init")
  obtain hr c1 h1 where i: "CSampleCredential_Initialize 0 CPUS_LOGON s_rgCredProvFieldDescriptors s_rgFieldStatePairs
      (c0, empty_heap (\<lambda>k. k = 6)) = (hr, c1, h1)" by (rule prod_cases3)
  have "list_all call_allowed ?cs" and k: "list_all keeps_memory ?cs" by simp_all
  from sample_credential_session_safe [OF heap_ok_empty this(1) n i] k obtain rs c2 h2 w where
    "run_calls (sample_step 0) ?cs (c1, h1) = Inr (rs, c2, h2)" and "length rs = length ?cs"
    "CSampleCredential_delete c2 \<lparr>w_heap = h2, w_dll = d1\<rparr> = Inr w"
    "hp_blocks (w_heap w) = hp_blocks (empty_heap (\<lambda>k. k = 6))" by blast
  then show ?thesis unfolding n fst_conv i snd_conv
    by (intro exI [of _ rs] exI [of _ c2] exI [of _ h2] exI [of _ w]) (simp add: empty_heap_def)
qed

end
