(* ===== verification/Com_Asy.thy ===== *)
theory Com_Asy
  imports Prelude
begin

text \<open>
  \<open>ComAsy.cpp\<close>: the serial line to the card reader. The port is opened and closed, a
  request is written, and a reader thread collects what arrives into a card number of 32
  characters in the global \<open>Readinfo\<close> (\<open>Global.cpp\<close>), which the login loop polls.
  Handles are numbers, \<open>None\<close> is \<open>INVALID_HANDLE_VALUE\<close> or null; what the
  system calls answer is a parameter.
\<close>

section \<open>The port\<close>

record com_asy =
  m_hCom :: "nat option"
  ovRead_hEvent :: "nat option"
  ovWrite_hEvent :: "nat option"
  ovWait_hEvent :: "nat option"
  m_IsOpen :: bool
  m_Thread :: "nat option"

definition ComAsy_new :: com_asy where
  "ComAsy_new = \<lparr>m_hCom = None, ovRead_hEvent = None, ovWrite_hEvent = None, ovWait_hEvent = None,
     m_IsOpen = False, m_Thread = None\<rparr>"

text \<open>The line settings \<open>InitCOM\<close> asks for.\<close>

record line_settings =
  BaudRate :: nat
  StopBits :: nat
  ByteSize :: nat
  Parity :: nat

definition reader_line :: line_settings where
  "reader_line = \<lparr>BaudRate = 9600, StopBits = 0, ByteSize = 8, Parity = 0\<rparr>"

record open_env =
  oe_CreateFile :: "nat option"
  oe_events :: "nat option \<times> nat option \<times> nat option"
  oe_thread :: "nat option"

text \<open>
  \<open>InitCOM\<close> up to the creation of the reader thread, and the rest: the thread may run in
  between.
\<close>

definition InitCOM_start :: "open_env \<Rightarrow> com_asy \<Rightarrow> bool \<times> line_settings option \<times> com_asy" where
  "InitCOM_start env c =
     (let c1 = c\<lparr>m_hCom := oe_CreateFile env\<rparr>
      in if m_hCom c1 = None then (False, None, c1)
         else
           (let (r, w, v) = oe_events env;
                c2 = c1\<lparr>ovRead_hEvent := r, ovWrite_hEvent := w, ovWait_hEvent := v\<rparr>
            in (True, Some reader_line, c2\<lparr>m_Thread := oe_thread env\<rparr>)))"

definition InitCOM :: "open_env \<Rightarrow> com_asy \<Rightarrow> bool \<times> com_asy" where
  "InitCOM env c =
     (let (ok, _, c1) = InitCOM_start env c
      in if ok then (True, c1\<lparr>m_IsOpen := True\<rparr>) else (False, c1))"

text \<open>The handles closed, in order, and the object afterwards.\<close>

definition UninitCOM :: "com_asy \<Rightarrow> nat list \<times> com_asy" where
  "UninitCOM c =
     (let close = (\<lambda>hd. case hd of Some x \<Rightarrow> [x] | None \<Rightarrow> [])
      in (close (m_hCom c) @ close (ovRead_hEvent c) @ close (ovWrite_hEvent c) @
          close (ovWait_hEvent c) @ close (m_Thread c),
          c\<lparr>m_IsOpen := False, m_hCom := None, ovRead_hEvent := None, ovWrite_hEvent := None,
            ovWait_hEvent := None, m_Thread := None\<rparr>))"

definition open_handles :: "com_asy \<Rightarrow> nat list" where
  "open_handles c = concat (map (\<lambda>hd. case hd of Some x \<Rightarrow> [x] | None \<Rightarrow> [])
     [m_hCom c, ovRead_hEvent c, ovWrite_hEvent c, ovWait_hEvent c, m_Thread c])"

section \<open>Writing\<close>

text \<open>
  What the system answers: the result of \<open>WriteFile\<close> and the count it stored, whether the
  error is \<open>ERROR_IO_PENDING\<close>, the outcome and count of \<open>GetOverlappedResult\<close>.
\<close>

record write_env =
  we_rtn :: bool
  we_size :: nat
  we_pending :: bool
  we_overlapped :: bool
  we_overlapped_size :: nat

text \<open>The result, the new value of the caller's \<open>len\<close>, the bytes handed to the driver.\<close>

definition ComWrite :: "write_env \<Rightarrow> 'b list \<Rightarrow> nat \<Rightarrow> bool \<times> nat \<times> 'b list" where
  "ComWrite env buf len =
     (let sent = take len buf; rtn = we_rtn env; WriteSize = we_size env; len = 0
      in if \<not> rtn \<and> we_pending env then
           (if \<not> we_overlapped env then (False, len, sent)
            else (rtn, we_overlapped_size env, sent))
         else (rtn, WriteSize, sent))"

section \<open>Receiving\<close>

text \<open>The globals the reader thread writes, and its local buffer.\<close>

record receiver =
  Readinfo :: string
  G_Readinfochs :: string
  isopenCOM :: nat
  TempReadinfo :: string

text \<open>
  One round of the loop: whether the wait succeeded with characters in the queue, the bytes
  \<open>ReadFile\<close> put into the buffer, and the outcome of the second
  \<open>GetOverlappedResult\<close>.
\<close>

record comm_event =
  ce_ready :: bool
  ce_bytes :: string
  ce_status :: bool

definition ReadBuf_size :: nat where "ReadBuf_size = 4096"

text \<open>
  The buffer is zeroed before it is filled, so reading it as a string is safe unless all of its
  bytes are used.
\<close>

definition ReadBuf_str :: "string \<Rightarrow> string res" where
  "ReadBuf_str bytes = (if length (c_str (take ReadBuf_size bytes)) < ReadBuf_size
     then Inr (c_str (take ReadBuf_size bytes)) else Inl OutOfBounds)"

definition OnRecv_iter :: "comm_event \<Rightarrow> receiver \<Rightarrow> receiver res" where
  "OnRecv_iter ev r =
     bind_res
       (if ce_ready ev then
          bind_res (ReadBuf_str (ce_bytes ev)) (\<lambda>s.
          let r1 = r\<lparr>TempReadinfo := TempReadinfo r @ s\<rparr>
          in if length (c_str (TempReadinfo r1)) = 32 then
               bind_res (strcpy_s 40 (TempReadinfo r1)) (\<lambda>g.
               Inr (r1\<lparr>Readinfo := TempReadinfo r1, G_Readinfochs := g, TempReadinfo := []\<rparr>))
             else Inr r1)
        else Inr r)
       (\<lambda>r2. Inr (if \<not> ce_status ev then r2\<lparr>isopenCOM := 1\<rparr> else r2))"

text \<open>
  The loop while \<open>m_IsOpen\<close> holds; each round comes with the value the thread reads there.
\<close>

fun OnRecv_loop :: "(bool \<times> comm_event) list \<Rightarrow> receiver \<Rightarrow> receiver res" where
  "OnRecv_loop [] r = Inr r"
| "OnRecv_loop ((isopen, ev) # rounds) r =
     (if isopen then bind_res (OnRecv_iter ev r) (OnRecv_loop rounds) else Inr r)"

text \<open>What a new reader thread does first: its own text is empty, and it clears \<open>Readinfo\<close>.\<close>

definition OnRecv_start :: "receiver \<Rightarrow> receiver" where
  "OnRecv_start r = r\<lparr>Readinfo := [], TempReadinfo := []\<rparr>"

definition OnRecv :: "(bool \<times> comm_event) list \<Rightarrow> receiver \<Rightarrow> receiver res" where
  "OnRecv rounds r = OnRecv_loop rounds (OnRecv_start r)"

section \<open>Hexadecimal output\<close>

definition byteToHexStr :: "8 word list \<Rightarrow> nat \<Rightarrow> string res" where
  "byteToHexStr byte_arr arr_len =
     (if length byte_arr < arr_len then Inl OutOfBounds
      else Inr (foldl (\<lambda>hexstr i.
             let val = unat (byte_arr ! i);
                 S = val div 16;
                 Y = val mod 16;
                 hex1 = (if S \<le> 9 then char_of (48 + S) else char_of (55 + S));
                 hex2 = (if Y \<le> 9 then char_of (48 + Y) else char_of (55 + Y))
             in hexstr @ [hex1, hex2]) [] [0..<arr_len]))"

section \<open>Opening and closing\<close>

text \<open>\<open>UninitCOM\<close> closes every handle the object holds, each once, and forgets it: a
  second call (the destructor's, or that of the reconnection path) closes nothing, and a failed
  \<open>InitCOM\<close> after it holds nothing.\<close>

theorem uninit_closes_everything:
  "UninitCOM c = (closed, c') \<Longrightarrow>
     closed = open_handles c \<and> open_handles c' = [] \<and> \<not> m_IsOpen c' \<and> UninitCOM c' = ([], c') \<and>
     (oe_CreateFile env = None \<longrightarrow> InitCOM env c' = (False, c'))"
  by (auto simp: UninitCOM_def open_handles_def InitCOM_def InitCOM_start_def Let_def)

definition example_open :: open_env where
  "example_open = \<lparr>oe_CreateFile = Some 5, oe_events = (Some 6, Some 7, Some 8), oe_thread = Some 9\<rparr>"

theorem uninit_closes_everything_witness:
  "fst (UninitCOM (snd (InitCOM example_open ComAsy_new))) = [5, 6, 7, 8, 9] \<and>
   UninitCOM (snd (UninitCOM (snd (InitCOM example_open ComAsy_new)))) =
     ([], snd (UninitCOM (snd (InitCOM example_open ComAsy_new))))"
proof -
  obtain closed c' where u: "UninitCOM (snd (InitCOM example_open ComAsy_new)) = (closed, c')"
    by (cases "UninitCOM (snd (InitCOM example_open ComAsy_new))")
  have "open_handles (snd (InitCOM example_open ComAsy_new)) = [5, 6, 7, 8, 9]"
    by (simp add: example_open_def ComAsy_new_def InitCOM_def InitCOM_start_def open_handles_def)
  with uninit_closes_everything [OF u] show ?thesis by (simp add: u)
qed

text \<open>The reader thread can miss its start. \<open>InitCOM\<close> creates the thread before it
  sets \<open>m_IsOpen\<close>: on a new object the thread that tests the flag right away leaves its loop
  at once, having cleared \<open>Readinfo\<close>, although \<open>InitCOM\<close> then reports success with the
  flag set; whatever the card reader sends later is never read.\<close>

theorem reader_can_miss_start:
  "oe_CreateFile env \<noteq> None \<Longrightarrow>
     InitCOM_start env ComAsy_new = (ok, settings, c1) \<Longrightarrow>
     ok \<and> settings = Some reader_line \<and> \<not> m_IsOpen c1 \<and>
     OnRecv ((m_IsOpen c1, ev) # later) r = Inr (r\<lparr>Readinfo := [], TempReadinfo := []\<rparr>) \<and>
     (\<exists>c2. InitCOM env ComAsy_new = (True, c2) \<and> m_IsOpen c2 \<and> m_Thread c2 = m_Thread c1)"
  by (auto simp: InitCOM_start_def InitCOM_def ComAsy_new_def OnRecv_def OnRecv_start_def Let_def split: prod.splits)

theorem reader_can_miss_start_witness:
  "\<not> m_IsOpen (snd (snd (InitCOM_start example_open ComAsy_new))) \<and>
   (\<exists>c2. InitCOM example_open ComAsy_new = (True, c2) \<and> m_IsOpen c2)"
proof -
  obtain ok st c1 where s: "InitCOM_start example_open ComAsy_new = (ok, st, c1)" by (rule prod_cases3)
  have e: "oe_CreateFile example_open \<noteq> None" by (simp add: example_open_def)
  show ?thesis
    using reader_can_miss_start [OF e s, where ev = undefined and later = "[]" and r = undefined] unfolding s by auto
qed

section \<open>Requests\<close>

text \<open>\<open>ComWrite\<close> overwrites the caller's length with the count written, and it returns
  true only for a write that completes at once. So a request whose overlapped write completes in the
  background is reported as failed, and after a request that failed (nothing written) the global
  length is 0: every further request sends no byte at all.\<close>

theorem request_length_lost:
  "(fst (ComWrite env buf n) \<longleftrightarrow> we_rtn env) \<and>
   (\<not> we_rtn env \<longrightarrow> (if we_pending env then \<not> we_overlapped env else we_size env = 0) \<longrightarrow>
      ComWrite env buf n = (False, 0, take n buf) \<and>
      snd (snd (ComWrite env' buf (fst (snd (ComWrite env buf n))))) = [])"
  by (auto simp: ComWrite_def Let_def)

definition failing_write :: write_env where
  "failing_write = \<lparr>we_rtn = False, we_size = 0, we_pending = True, we_overlapped = False,
     we_overlapped_size = 0\<rparr>"

definition good_write :: "nat \<Rightarrow> write_env" where
  "good_write n = \<lparr>we_rtn = True, we_size = n, we_pending = False, we_overlapped = True,
     we_overlapped_size = n\<rparr>"

theorem request_length_lost_witness:
  "ComWrite failing_write ''ready'' 6 = (False, 0, ''ready'') \<and>
   snd (snd (ComWrite (good_write 0) ''ready'' (fst (snd (ComWrite failing_write ''ready'' 6))))) = []"
proof -
  have f: "\<not> we_rtn failing_write" "we_pending failing_write" "\<not> we_overlapped failing_write"
    by (simp_all add: failing_write_def)
  have w: "ComWrite failing_write ''ready'' 6 = (False, 0, ''ready'')"
    using request_length_lost [of failing_write "''ready''" 6 "good_write 0"] f by simp
  have "if we_pending failing_write then \<not> we_overlapped failing_write else we_size failing_write = 0"
    using f by simp
  then have "snd (snd (ComWrite (good_write 0) ''ready'' (fst (snd (ComWrite failing_write ''ready'' 6))))) = []"
    using request_length_lost [of failing_write "''ready''" 6 "good_write 0"] f(1) by blast
  with w show ?thesis by blast
qed

section \<open>Collecting a card number\<close>

text \<open>The text an event adds, and a run of events that do not overflow the buffer.\<close>

definition chunk_of :: "comm_event \<Rightarrow> string" where
  "chunk_of ev = (if ce_ready ev then c_str (take ReadBuf_size (ce_bytes ev)) else [])"

definition event_ok :: "comm_event \<Rightarrow> bool" where
  "event_ok ev \<longleftrightarrow> length (chunk_of ev) < ReadBuf_size"

definition recv_inv :: "receiver \<Rightarrow> bool" where
  "recv_inv r \<longleftrightarrow> CHR 0x00 \<notin> set (TempReadinfo r) \<and> length (TempReadinfo r) \<noteq> 32 \<and>
     (Readinfo r = [] \<or> length (Readinfo r) = 32)"

lemma chunk_no_nul: "CHR 0x00 \<notin> set (chunk_of ev)"
  by (simp add: chunk_of_def)

lemma OnRecv_iter_eq:
  assumes "event_ok ev" and "recv_inv r"
  shows "OnRecv_iter ev r = Inr
    (if ce_ready ev \<and> length (TempReadinfo r @ chunk_of ev) = 32
     then r\<lparr>Readinfo := TempReadinfo r @ chunk_of ev, G_Readinfochs := TempReadinfo r @ chunk_of ev,
            TempReadinfo := [], isopenCOM := (if ce_status ev then isopenCOM r else 1)\<rparr>
     else r\<lparr>TempReadinfo := TempReadinfo r @ chunk_of ev,
            isopenCOM := (if ce_status ev then isopenCOM r else 1)\<rparr>)"
proof -
  have c: "c_str (TempReadinfo r @ chunk_of ev) = TempReadinfo r @ chunk_of ev"
    using assms(2) chunk_no_nul [of ev] by (intro c_str_id) (auto simp: recv_inv_def)
  show ?thesis
  proof (cases "ce_ready ev")
    case True
    then have b: "ReadBuf_str (ce_bytes ev) = Inr (chunk_of ev)"
      using assms(1) by (simp add: ReadBuf_str_def event_ok_def chunk_of_def)
    show ?thesis using True c
      by (cases "length (TempReadinfo r @ chunk_of ev) = 32")
        (simp_all add: OnRecv_iter_def b strcpy_s_def)
  next
    case False
    then show ?thesis by (simp add: OnRecv_iter_def chunk_of_def)
  qed
qed

lemma OnRecv_iter_inv:
  assumes "event_ok ev" and "recv_inv r" and "OnRecv_iter ev r = Inr r'"
  shows "recv_inv r'"
  using assms(2,3) chunk_no_nul [of ev] unfolding OnRecv_iter_eq [OF assms(1,2)]
  by (auto simp: recv_inv_def chunk_of_def split: if_splits)

lemma OnRecv_iter_long:
  assumes "event_ok ev" and "recv_inv r" and "32 < length (TempReadinfo r)" and "OnRecv_iter ev r = Inr r'"
  shows "Readinfo r' = Readinfo r" and "32 < length (TempReadinfo r')"
  using assms(3,4) unfolding OnRecv_iter_eq [OF assms(1,2)] by auto

lemma OnRecv_loop_inv:
  "list_all (event_ok \<circ> snd) rounds \<Longrightarrow> recv_inv r \<Longrightarrow>
     \<exists>r'. OnRecv_loop rounds r = Inr r' \<and> recv_inv r' \<and>
       (32 < length (TempReadinfo r) \<longrightarrow> Readinfo r' = Readinfo r \<and> 32 < length (TempReadinfo r'))"
proof (induction rounds arbitrary: r)
  case Nil
  then show ?case by simp
next
  case (Cons round rounds)
  obtain isopen ev where e: "round = (isopen, ev)" by (cases round)
  show ?case
  proof (cases isopen)
    case False
    with Cons.prems e show ?thesis by simp
  next
    case True
    have ok: "event_ok ev" using Cons.prems(1) e by simp
    obtain r1 where r1: "OnRecv_iter ev r = Inr r1" using OnRecv_iter_eq [OF ok Cons.prems(2)] by blast
    have inv: "recv_inv r1" by (rule OnRecv_iter_inv [OF ok Cons.prems(2) r1])
    from Cons.IH [OF _ inv] Cons.prems(1) obtain r' where
      "OnRecv_loop rounds r1 = Inr r'" "recv_inv r'"
      "32 < length (TempReadinfo r1) \<longrightarrow> Readinfo r' = Readinfo r1 \<and> 32 < length (TempReadinfo r')"
      by auto
    with r1 True e OnRecv_iter_long [OF ok Cons.prems(2) _ r1] show ?thesis by simp
  qed
qed

text \<open>
  The specification: the stream of non-empty chunks, cut where the text collected since the last
  cut is exactly 32 long. \<open>collect\<close> gives the cards and what is pending.
\<close>

fun collect :: "string \<Rightarrow> string list \<Rightarrow> string list \<times> string" where
  "collect acc [] = ([], acc)"
| "collect acc (c # cs) =
     (if length (acc @ c) = 32 then (let (cards, rest) = collect [] cs in ((acc @ c) # cards, rest))
      else collect (acc @ c) cs)"

text \<open>C10: the reader thread implements the cutting of the stream. After any number of rounds whose
  data fit the buffer it has not faulted; \<open>Readinfo\<close> holds the last card of 32 characters cut
  from the chunks received, and is empty if there is none, the local text is what is
  pending, and nothing else is ever offered as a card: \<open>Readinfo\<close> is empty or 32 long.\<close>

theorem receiver_collects_cards:
  assumes "list_all event_ok evs"
  shows "\<exists>r'. OnRecv (map (\<lambda>ev. (True, ev)) evs) r = Inr r' \<and>
    (case collect [] (map chunk_of evs) of
       (cards, rest) \<Rightarrow> Readinfo r' = (if cards = [] then [] else last cards) \<and> TempReadinfo r' = rest \<and>
         list_all (\<lambda>c. length c = 32) cards)"
proof -
  have gen: "recv_inv r0 \<Longrightarrow> list_all event_ok evs \<Longrightarrow>
    \<exists>r'. OnRecv_loop (map (\<lambda>ev. (True, ev)) evs) r0 = Inr r' \<and>
      (case collect (TempReadinfo r0) (map chunk_of evs) of
         (cards, rest) \<Rightarrow> Readinfo r' = (if cards = [] then Readinfo r0 else last cards) \<and> TempReadinfo r' = rest \<and>
           list_all (\<lambda>c. length c = 32) cards)" for r0 evs
  proof (induction evs arbitrary: r0)
    case Nil
    then show ?case by simp
  next
    case (Cons ev evs)
    have ok: "event_ok ev" using Cons.prems by simp
    note it = OnRecv_iter_eq [OF ok Cons.prems(1)]
    obtain r1 where r1: "OnRecv_iter ev r0 = Inr r1" using it by blast
    have inv: "recv_inv r1" by (rule OnRecv_iter_inv [OF ok Cons.prems(1) r1])
    obtain r' where r': "OnRecv_loop (map (\<lambda>ev. (True, ev)) evs) r1 = Inr r'"
      and c: "case collect (TempReadinfo r1) (map chunk_of evs) of
         (cards, rest) \<Rightarrow> Readinfo r' = (if cards = [] then Readinfo r1 else last cards) \<and> TempReadinfo r' = rest \<and>
           list_all (\<lambda>c. length c = 32) cards"
      using Cons.IH [OF inv] Cons.prems(2) by auto
    have nr: "ce_ready ev" if "length (TempReadinfo r0 @ chunk_of ev) = 32"
      using that Cons.prems(1) by (auto simp: recv_inv_def chunk_of_def split: if_splits)
    show ?case
    proof (cases "length (TempReadinfo r0 @ chunk_of ev) = 32")
      case True
      with it r1 nr have "TempReadinfo r1 = []" "Readinfo r1 = TempReadinfo r0 @ chunk_of ev" by auto
      with True r1 r' c show ?thesis by (auto split: prod.splits)
    next
      case False
      with it r1 have "TempReadinfo r1 = TempReadinfo r0 @ chunk_of ev" "Readinfo r1 = Readinfo r0" by auto
      with False r1 r' c show ?thesis by (auto split: prod.splits)
    qed
  qed
  have "recv_inv (r\<lparr>Readinfo := [], TempReadinfo := []\<rparr>)" by (simp add: recv_inv_def)
  from gen [OF this assms] show ?thesis by (auto simp: OnRecv_def OnRecv_start_def)
qed

definition example_event :: "string \<Rightarrow> comm_event" where
  "example_event s = \<lparr>ce_ready = True, ce_bytes = s, ce_status = True\<rparr>"

definition example_receiver :: receiver where
  "example_receiver = \<lparr>Readinfo = [], G_Readinfochs = [], isopenCOM = 0, TempReadinfo = []\<rparr>"

theorem receiver_collects_cards_witness:
  "\<exists>r'. OnRecv [(True, example_event (replicate 20 CHR ''A'')), (True, example_event (replicate 12 CHR ''B''))]
      example_receiver = Inr r' \<and>
    Readinfo r' = replicate 20 CHR ''A'' @ replicate 12 CHR ''B''"
proof -
  have c: "chunk_of (example_event (replicate n x)) = replicate n x" if "x \<noteq> CHR 0x00" "n < 100" for n x
    using that by (simp add: chunk_of_def example_event_def c_str_def ReadBuf_size_def min_def)
  have "list_all event_ok [example_event (replicate 20 CHR ''A''), example_event (replicate 12 CHR ''B'')]"
    by (simp add: event_ok_def c ReadBuf_size_def)
  from receiver_collects_cards [OF this, of example_receiver] show ?thesis by (auto simp: c)
qed

text \<open>C29: too much text wedges the reader. Once more than 32 characters are pending (a chunk that
  straddles the boundary is enough) the local text only grows: no further event changes
  \<open>Readinfo\<close>, and no card is read until the port is reopened.\<close>

theorem receiver_wedged_by_overrun:
  assumes "32 < length (TempReadinfo r)" and "CHR 0x00 \<notin> set (TempReadinfo r)"
    and "Readinfo r = [] \<or> length (Readinfo r) = 32" and "list_all (event_ok \<circ> snd) rounds"
  shows "\<exists>r'. OnRecv_loop rounds r = Inr r' \<and> Readinfo r' = Readinfo r \<and> 32 < length (TempReadinfo r')"
proof -
  have "recv_inv r" using assms by (auto simp: recv_inv_def)
  from OnRecv_loop_inv [OF assms(4) this] assms(1) show ?thesis by blast
qed

theorem receiver_wedged_by_overrun_witness:
  "\<exists>r'. OnRecv_loop [(True, example_event (replicate 32 CHR ''B''))]
      (example_receiver\<lparr>TempReadinfo := replicate 33 CHR ''A''\<rparr>) = Inr r' \<and> Readinfo r' = []"
proof -
  have "list_all (event_ok \<circ> snd) [(True, example_event (replicate 32 CHR ''B''))]"
    by (simp add: event_ok_def chunk_of_def example_event_def ReadBuf_size_def c_str_def min_def)
  from receiver_wedged_by_overrun [of "example_receiver\<lparr>TempReadinfo := replicate 33 CHR ''A''\<rparr>", OF _ _ _ this]
  show ?thesis by (auto simp: example_receiver_def simp del: OnRecv_loop.simps)
qed

section \<open>Hexadecimal strings\<close>

definition hex_value :: "char \<Rightarrow> nat" where
  "hex_value c = (let n = of_char c in if n < 65 then n - 48 else n - 55)"

fun unhex :: "string \<Rightarrow> 8 word list" where
  "unhex (a # b # s) = of_nat (16 * hex_value a + hex_value b) # unhex s"
| "unhex _ = []"

lemma hex_value_digit: "n < 16 \<Longrightarrow> hex_value (if n \<le> 9 then char_of (48 + n) else char_of (55 + n)) = n"
  by (auto simp: hex_value_def Let_def)

lemma unhex_append: "even (length a) \<Longrightarrow> unhex (a @ b) = unhex a @ unhex b"
  by (induction a rule: unhex.induct) auto

text \<open>\<open>byteToHexStr\<close> is injective. For a length within the array it produces two characters
  per byte, and reading them back gives the first \<open>arr_len\<close> bytes; a longer length reads outside the
  array.\<close>

theorem byte_to_hex_roundtrip:
  "if n \<le> length bs then \<exists>s. byteToHexStr bs n = Inr s \<and> length s = 2 * n \<and> unhex s = take n bs
   else byteToHexStr bs n = Inl OutOfBounds"
proof (cases "n \<le> length bs")
  case True
  define f where "f = (\<lambda>hexstr i. let val = unat (bs ! i); S = val div 16; Y = val mod 16;
      hex1 = (if S \<le> 9 then char_of (48 + S) else char_of (55 + S));
      hex2 = (if Y \<le> 9 then char_of (48 + Y) else char_of (55 + Y)) in hexstr @ [hex1, hex2] :: string)"
  have "k \<le> length bs \<Longrightarrow> length (foldl f [] [0..<k]) = 2 * k \<and> unhex (foldl f [] [0..<k]) = take k bs" for k
  proof (induction k)
    case 0
    then show ?case by simp
  next
    case (Suc k)
    have b: "unat (bs ! k) div 16 < 16" using unsigned_less [of "bs ! k", where ?'a = nat] by simp
    have "(of_nat (16 * (unat (bs ! k) div 16) + unat (bs ! k) mod 16) :: 8 word) = bs ! k"
      by (simp only: mult_div_mod_eq of_nat_unat ucast_id)
    then have u: "unhex [if unat (bs ! k) div 16 \<le> 9 then char_of (48 + unat (bs ! k) div 16) else char_of (55 + unat (bs ! k) div 16),
        if unat (bs ! k) mod 16 \<le> 9 then char_of (48 + unat (bs ! k) mod 16) else char_of (55 + unat (bs ! k) mod 16)]
        = [bs ! k]"
      using hex_value_digit [OF b] hex_value_digit [of "unat (bs ! k) mod 16"]
      by (simp del: of_nat_add of_nat_mult)
    have "foldl f [] [0..<Suc k] = f (foldl f [] [0..<k]) k" by simp
    with Suc u show ?case
      by (simp add: f_def Let_def unhex_append take_Suc_conv_app_nth del: unhex.simps)
  qed
  with True show ?thesis by (simp add: byteToHexStr_def f_def)
next
  case False
  then show ?thesis by (simp add: byteToHexStr_def)
qed

end
