(* ===== verification/Http_Connect.thy ===== *)
theory Http_Connect
  imports Prelude
begin

text \<open>
  \<open>HttpConnect.cpp\<close>: the small HTTP client the program logs users on to and off from the
  network's audit gateway with. The network is a parameter: whether the host name resolves,
  whether the connection succeeds, and what the successive calls of \<open>recv\<close> return.

  The receive loop runs as long as \<open>recv\<close> does not return 0, so it may never end: it is
  modelled with fuel, \<open>None\<close> meaning that the fuel did not suffice. The offset is an \<open>int\<close> of the source
  and an unbounded one here: above it stays within the buffer, below it would take 2147483649 errors to overflow.
\<close>

section \<open>The socket\<close>

text \<open>One call of \<open>recv\<close>: bytes, at most 1024 (none: the peer has closed), or -1.\<close>

datatype recv_result = Received string | RecvError

record http_env =
  he_resolves :: "string \<Rightarrow> bool"
  he_connects :: bool
  he_recv :: "nat \<Rightarrow> recv_result"

definition BUF_SIZE :: int where "BUF_SIZE = 1024 * 1024"

text \<open>
  Writing a chunk at an offset of the buffer; \<open>buf\<close> is the part written so far. An offset
  that the decrements have made negative, or a chunk that passes the end, is outside the buffer.
\<close>

definition buf_write :: "string \<Rightarrow> int \<Rightarrow> string \<Rightarrow> string res" where
  "buf_write buf off bytes =
     (if 0 \<le> off \<and> off + int (length bytes) \<le> BUF_SIZE
      then Inr (take (nat off) buf @ bytes @ drop (nat off + length bytes) buf)
      else Inl OutOfBounds)"

text \<open>\<open>while (rc = recv(sockfd, buf + offset, 1024, 0)) offset += rc;\<close>\<close>

fun recv_loop :: "nat \<Rightarrow> (nat \<Rightarrow> recv_result) \<Rightarrow> nat \<Rightarrow> string \<Rightarrow> int \<Rightarrow> (string \<times> int) res option" where
  "recv_loop 0 recv k buf off = None"
| "recv_loop (Suc fuel) recv k buf off =
     (case recv k of
        Received bytes \<Rightarrow>
          if bytes = [] then Some (Inr (buf, off))
          else (case buf_write buf off bytes of
                  Inl e \<Rightarrow> Some (Inl e)
                | Inr buf' \<Rightarrow> recv_loop fuel recv (Suc k) buf' (off + int (length bytes)))
      | RecvError \<Rightarrow> recv_loop fuel recv (Suc k) buf (off - 1))"

text \<open>The function's result, and whether the buffer is left allocated.\<close>

definition socketHttp ::
  "nat \<Rightarrow> http_env \<Rightarrow> string \<Rightarrow> string \<Rightarrow> bool \<Rightarrow> (bool \<times> bool) res option" where
  "socketHttp fuel env host request boolGET =
     (if \<not> he_resolves env (c_str host) then Some (Inl NullDeref)
      else if \<not> he_connects env then Some (Inr (False, False))
      else
        (case recv_loop fuel (he_recv env) 0 [] 0 of
           None \<Rightarrow> None
         | Some (Inl e) \<Rightarrow> Some (Inl e)
         | Some (Inr (buf, offset)) \<Rightarrow>
             (case buf_write buf offset [CHR 0x00] of
                Inl e \<Rightarrow> Some (Inl e)
              | Inr buf1 \<Rightarrow>
                  if boolGET then
                    (let strDatabuf = c_str buf1;
                         intFindOne = find_sub ''%E7'' strDatabuf;
                         intFindTow = find_sub ''authfailed'' strDatabuf
                     in Some (Inr (intFindOne = None \<and> intFindTow = None, False)))
                  else Some (Inr (boolGET, True)))))"

section \<open>Requests\<close>

definition crlf :: string where "crlf = [CHR 0x0D, CHR 0x0A]"

definition user_agent_line :: string where
  "user_agent_line = ''User-Agent: Mozilla/5.0 (Windows; U; Windows NT 5.1; zh-CN; rv:1.9.2.3) Gecko/20100401 Firefox/3.6.3'' @ crlf"

definition post_request :: "string \<Rightarrow> string \<Rightarrow> string \<Rightarrow> string" where
  "post_request host path post_content =
     ''POST '' @ path @ '' HTTP/1.0'' @ crlf @
     ''Host: '' @ host @ crlf @
     user_agent_line @
     ''Content-Type:application/x-www-form-urlencoded'' @ crlf @
     ''Content-Length:'' @ dec (length post_content) @ crlf @
     ''Connection:close'' @ crlf @ crlf @
     c_str post_content"

definition get_request :: "string \<Rightarrow> string \<Rightarrow> string \<Rightarrow> string" where
  "get_request host path get_content =
     ''GET '' @ path @ ''?'' @ get_content @ '' HTTP/1.0'' @ crlf @
     ''Host: '' @ host @ crlf @
     user_agent_line @
     ''Connection:close'' @ crlf @ crlf"

definition postData :: "nat \<Rightarrow> http_env \<Rightarrow> string \<Rightarrow> string \<Rightarrow> string \<Rightarrow> bool res option" where
  "postData fuel env host path post_content =
     map_option (\<lambda>r. bind_res r (\<lambda>(temp, _). Inr temp))
       (socketHttp fuel env host (post_request host path post_content) True)"

text \<open>\<open>getData\<close> has no result; the model keeps how the call ends.\<close>

definition getData :: "nat \<Rightarrow> http_env \<Rightarrow> string \<Rightarrow> string \<Rightarrow> string \<Rightarrow> unit res option" where
  "getData fuel env host path get_content =
     map_option (\<lambda>r. bind_res r (\<lambda>_. Inr ()))
       (socketHttp fuel env host (get_request host path get_content) False)"

section \<open>Receiving a reply\<close>

text \<open>A network that delivers the given chunks and then closes.\<close>

definition deliver :: "string list \<Rightarrow> nat \<Rightarrow> recv_result" where
  "deliver chunks k = (if k < length chunks then Received (chunks ! k) else Received [])"

lemma recv_loop_deliver:
  assumes "list_all (\<lambda>c. c \<noteq> []) (drop k chunks)" and "off = int (length buf)" and "off \<le> BUF_SIZE"
    and "length chunks - k < fuel" and "k \<le> length chunks"
  shows "recv_loop fuel (deliver chunks) k buf off =
    (if off + int (length (concat (drop k chunks))) \<le> BUF_SIZE
     then Some (Inr (buf @ concat (drop k chunks), off + int (length (concat (drop k chunks)))))
     else Some (Inl OutOfBounds))"
  using assms
proof (induction fuel arbitrary: k buf off)
  case 0
  then show ?case by simp
next
  case (Suc fuel)
  show ?case
  proof (cases "k < length chunks")
    case False
    with Suc.prems show ?thesis by (simp add: deliver_def)
  next
    case True
    then have d: "drop k chunks = chunks ! k # drop (Suc k) chunks" by (simp add: Cons_nth_drop_Suc)
    have ne: "chunks ! k \<noteq> []" using Suc.prems(1) d by simp
    show ?thesis
    proof (cases "off + int (length (chunks ! k)) \<le> BUF_SIZE")
      case ok: True
      have "recv_loop (Suc fuel) (deliver chunks) k buf off =
          recv_loop fuel (deliver chunks) (Suc k) (buf @ chunks ! k) (off + int (length (chunks ! k)))"
        using True ne ok Suc.prems(2) by (simp add: deliver_def buf_write_def)
      with Suc.IH [of "Suc k" "off + int (length (chunks ! k))" "buf @ chunks ! k"] Suc.prems True d ok
      show ?thesis by (simp add: add.assoc)
    next
      case False
      then have "recv_loop (Suc fuel) (deliver chunks) k buf off = Some (Inl OutOfBounds)"
        using True ne by (simp add: deliver_def buf_write_def)
      moreover have "\<not> off + int (length (concat (drop k chunks))) \<le> BUF_SIZE"
        using False d by simp
      ultimately show ?thesis by simp
    qed
  qed
qed

text \<open>C11: what counts as a successful login. When the gateway accepts the connection, sends a reply
  in any number of non-empty chunks and closes, \<open>postData\<close> returns, and it returns true exactly
  when neither "%E7" nor "authfailed" occurs in the reply up to its first NUL: an empty reply is a
  success. A reply of 1048576 bytes or more is written past the end of the buffer.\<close>

theorem post_result_spec:
  assumes "list_all (\<lambda>c. c \<noteq> []) chunks" and "he_resolves env (c_str host)" and "he_connects env"
    and "he_recv env = deliver chunks" and "length chunks < fuel"
  shows "postData fuel env host path content =
    Some (if int (length (concat chunks)) < BUF_SIZE
          then Inr (\<not> sublist ''%E7'' (c_str (concat chunks)) \<and> \<not> sublist ''authfailed'' (c_str (concat chunks)))
          else Inl OutOfBounds)"
proof -
  have z: "c_str (s @ [CHR 0x00]) = c_str s" for s by (induction s) (auto simp: c_str_def)
  show ?thesis
    using recv_loop_deliver [of 0 chunks 0 "[]" fuel] assms
    by (auto simp: postData_def socketHttp_def buf_write_def find_sub_None z BUF_SIZE_def Let_def)
qed

definition example_network :: "string list \<Rightarrow> http_env" where
  "example_network chunks = \<lparr>he_resolves = (\<lambda>_. True), he_connects = True, he_recv = deliver chunks\<rparr>"

theorem post_result_spec_witness:
  "postData 5 (example_network []) ''192.168.0.11'' ''/webAuth/'' ''x'' = Some (Inr True) \<and>
   postData 5 (example_network [''HTTP/1.0 200 OK'', ''authfailed'']) ''192.168.0.11'' ''/webAuth/'' ''x'' = Some (Inr False)"
proof -
  have s: "sublist ''authfailed'' (c_str (concat [''HTTP/1.0 200 OK'', ''authfailed'']))"
  proof -
    have e: "c_str (concat [''HTTP/1.0 200 OK'', ''authfailed'']) = ''HTTP/1.0 200 OK'' @ ''authfailed'' @ []"
      by (simp add: c_str_def)
    show ?thesis unfolding e by (rule sublist_appendI)
  qed
  show ?thesis
    using post_result_spec [of "[]" "example_network []" "''192.168.0.11''" 5 "''/webAuth/''" "''x''"]
      post_result_spec [of "[''HTTP/1.0 200 OK'', ''authfailed'']" "example_network [''HTTP/1.0 200 OK'', ''authfailed'']"
        "''192.168.0.11''" 5 "''/webAuth/''" "''x''"] s
    by (simp add: example_network_def BUF_SIZE_def c_str_def)
qed

text \<open>C28: \<open>socketHttp\<close> does not survive a broken connection. A \<open>recv\<close> error is added to the
  offset as -1: if, after any pieces of a reply that fit the buffer, the error persists, as it does on a dead socket,
  the loop never ends, whatever the fuel (the source's \<open>int\<close> would overflow after some two thousand million errors); if
  the first call fails and the peer is then seen closed, the terminator is stored in front of the buffer.\<close>

theorem recv_error_never_handled:
  assumes "he_resolves env (c_str host)" and "he_connects env"
  shows "((\<forall>k < length cs. he_recv env k = Received (cs ! k) \<and> cs ! k \<noteq> []) \<longrightarrow> int (length (concat cs)) \<le> BUF_SIZE \<longrightarrow>
       (\<forall>k \<ge> length cs. he_recv env k = RecvError) \<longrightarrow> socketHttp fuel env host request b = None) \<and>
    (he_recv env 0 = RecvError \<longrightarrow> he_recv env 1 = Received [] \<longrightarrow> 2 \<le> fuel \<longrightarrow>
       socketHttp fuel env host request b = Some (Inl OutOfBounds))"
proof -
  have err: "(\<forall>j \<ge> k. recv j = RecvError) \<Longrightarrow> recv_loop fuel recv k buf off = None" for fuel recv k buf off
    by (induction fuel arbitrary: k buf off) auto
  have pre: "(\<forall>j \<ge> length cs. recv j = RecvError) \<Longrightarrow> (\<forall>j < length cs. recv j = Received (cs ! j) \<and> cs ! j \<noteq> []) \<Longrightarrow>
      k \<le> length cs \<Longrightarrow> off = int (length (concat (take k cs))) \<Longrightarrow> int (length (concat cs)) \<le> BUF_SIZE \<Longrightarrow>
      recv_loop fuel recv k buf off = None" for fuel recv k buf off
  proof (induction fuel arbitrary: k buf off)
    case (Suc fuel)
    show ?case
    proof (cases "k = length cs")
      case True
      with Suc.prems(1) show ?thesis using err [of k recv "Suc fuel"] by simp
    next
      case False
      then have k: "k < length cs" using Suc.prems(3) by simp
      have t: "concat (take (Suc k) cs) = concat (take k cs) @ cs ! k" using k by (simp add: take_Suc_conv_app_nth)
      have "length (concat (take (Suc k) cs)) \<le> length (concat cs)"
        by (metis append_take_drop_id concat_append length_append le_add1)
      then have "off + int (length (cs ! k)) \<le> BUF_SIZE" "0 \<le> off" using Suc.prems(4,5) t by simp_all
      then show ?thesis
        using Suc.IH [of "Suc k" "off + int (length (cs ! k))"] Suc.prems k t by (simp add: buf_write_def)
    qed
  qed simp
  obtain f where f: "2 \<le> fuel \<Longrightarrow> fuel = Suc (Suc f)" by (metis add_2_eq_Suc le_Suc_ex)
  show ?thesis
    using assms pre [of "he_recv env" 0 0 fuel "[]"] f
    by (auto simp: socketHttp_def buf_write_def)
qed

text \<open>A connection that breaks after two pieces of the reply, and one that is broken from the start.\<close>

definition broken_network :: "string list \<Rightarrow> http_env" where
  "broken_network cs = \<lparr>he_resolves = (\<lambda>_. True), he_connects = True,
     he_recv = (\<lambda>k. if k < length cs then Received (cs ! k) else RecvError)\<rparr>"

theorem recv_error_never_handled_witness:
  "(\<forall>fuel. socketHttp fuel (broken_network [''HTTP/1.0'', '' 200'']) ''h'' ''r'' True = None) \<and>
   (\<forall>fuel. socketHttp fuel (broken_network []) ''h'' ''r'' True = None)"
proof (intro conjI allI)
  fix fuel
  have "\<forall>k < length [''HTTP/1.0'', '' 200'']. [''HTTP/1.0'', '' 200''] ! k \<noteq> []" by (simp add: less_Suc_eq)
  then show "socketHttp fuel (broken_network [''HTTP/1.0'', '' 200'']) ''h'' ''r'' True = None"
    using recv_error_never_handled [of "broken_network [''HTTP/1.0'', '' 200'']" "''h''" "[''HTTP/1.0'', '' 200'']" fuel "''r''" True]
    by (simp add: broken_network_def BUF_SIZE_def)
  show "socketHttp fuel (broken_network []) ''h'' ''r'' True = None"
    using recv_error_never_handled [of "broken_network []" "''h''" "[]" fuel "''r''" True]
    by (simp add: broken_network_def BUF_SIZE_def)
qed

section \<open>The request on the wire\<close>

text \<open>
  How a server reads the request: the header ends at the first empty line; the length is the
  number after the first \<open>Content-Length:\<close>.
\<close>

definition body_of :: "string \<Rightarrow> string option" where
  "body_of req = map_option (\<lambda>i. drop (i + 4) req) (find_sub (crlf @ crlf) req)"

definition length_of :: "string \<Rightarrow> nat option" where
  "length_of req = map_option (\<lambda>i. undec (takeWhile is_digit (drop (i + 15) req))) (find_sub ''Content-Length:'' req)"

lemma find_sub_here: "find_sub p (p @ b) = Some 0"
proof -
  have "prefix p (p @ b)" by simp
  then show ?thesis by (cases "p @ b") auto
qed

lemma prefix_before: "x \<notin> set p \<Longrightarrow> prefix p (l @ x # r) \<Longrightarrow> prefix p l"
  by (induction l arbitrary: p) (case_tac p; auto)+

text \<open>A line that does not contain the text sought is skipped, together with its end.\<close>

lemma find_sub_line:
  assumes "p \<noteq> []" and "CHR 0x0D \<notin> set p" and "CHR 0x0A \<notin> set p" and "\<not> sublist p l"
  shows "find_sub p (l @ crlf @ rest) = map_option (\<lambda>i. i + (length l + 2)) (find_sub p rest)"
  using assms(4)
proof (induction l)
  case Nil
  have "\<not> prefix p (CHR 0x0D # s)" "\<not> prefix p (CHR 0x0A # s)" for s
    using assms(1-3) by (cases p; auto)+
  then show ?case using assms(1) by (simp add: crlf_def option.map_comp o_def)
next
  case (Cons x l)
  have "\<not> prefix p (x # l @ crlf @ rest)"
  proof
    assume "prefix p (x # l @ crlf @ rest)"
    then have "prefix p ((x # l) @ CHR 0x0D # CHR 0x0A # rest)" by (simp add: crlf_def)
    then have "prefix p (x # l)" by (rule prefix_before [OF assms(2)])
    then show False using Cons.prems by (simp add: sublist_Cons_right)
  qed
  with Cons show ?case by (simp add: sublist_Cons_right option.map_comp o_def)
qed

lemma find_blank_line:
  assumes "CHR 0x0D \<notin> set l" and "c \<noteq> CHR 0x0D"
  shows "find_sub (crlf @ crlf) (l @ crlf @ c # rest) =
    map_option (\<lambda>i. i + (length l + 2)) (find_sub (crlf @ crlf) (c # rest))"
  using assms(1)
proof (induction l)
  case Nil
  then show ?case using assms(2) by (simp add: crlf_def option.map_comp o_def)
next
  case (Cons x l)
  then show ?case using assms(2) by (simp add: crlf_def option.map_comp o_def)
qed

lemma find_blank_here: "CHR 0x0D \<notin> set l \<Longrightarrow> find_sub (crlf @ crlf) (l @ crlf @ crlf @ rest) = Some (length l)"
proof (induction l)
  case Nil
  then show ?case using find_sub_here [of "crlf @ crlf" rest] by simp
next
  case (Cons x l)
  then show ?case by (simp add: crlf_def)
qed

lemma length_crlf: "length crlf = 2"
  by (simp add: crlf_def)

text \<open>The lines of a header, each with its end.\<close>

definition header_lines :: "string list \<Rightarrow> string" where
  "header_lines ls = concat (map (\<lambda>l. l @ crlf) ls)"

lemma header_lines_simps [simp]: "header_lines [] = []" "header_lines (l # ls) = l @ crlf @ header_lines ls"
  by (simp_all add: header_lines_def)

lemma find_sub_lines:
  assumes "p \<noteq> []" and "CHR 0x0D \<notin> set p" and "CHR 0x0A \<notin> set p" and "\<forall>l\<in>set ls. \<not> sublist p l"
  shows "find_sub p (header_lines ls @ rest) = map_option (\<lambda>i. i + length (header_lines ls)) (find_sub p rest)"
  using assms(4)
proof (induction ls)
  case (Cons l ls)
  then show ?case using find_sub_line [OF assms(1-3), of l "header_lines ls @ rest"]
    by (simp add: length_crlf option.map_comp o_def ac_simps)
qed (simp add: option.map_ident)

lemma find_blank_lines:
  "\<forall>l\<in>set (l # ls). l \<noteq> [] \<and> CHR 0x0D \<notin> set l \<Longrightarrow>
   find_sub (crlf @ crlf) (header_lines (l # ls) @ crlf @ rest) = Some (length (header_lines (l # ls)) - 2)"
proof (induction ls arbitrary: l)
  case Nil
  then show ?case using find_blank_here [of l rest] by (simp add: length_crlf)
next
  case (Cons k ls)
  then obtain c cs where k: "k = c # cs" "c \<noteq> CHR 0x0D" by (cases k) auto
  have l: "CHR 0x0D \<notin> set l" using Cons.prems by simp
  have "find_sub (crlf @ crlf) (header_lines (k # ls) @ crlf @ rest) = Some (length (header_lines (k # ls)) - 2)"
    using Cons.prems by (intro Cons.IH) simp
  with find_blank_line [OF l k(2)] show ?case by (simp add: k(1) length_crlf)
qed

lemma digits_until: "takeWhile is_digit (dec n @ CHR 0x0D # s) = dec n"
proof -
  have "\<not> is_digit (CHR 0x0D)" by (simp add: is_digit_def)
  then show ?thesis using dec_digits by (subst takeWhile_append2) auto
qed

lemma dec_no_cr: "CHR 0x0D \<notin> set (dec n)"
  using dec_digits [of "CHR 0x0D" n] by (auto simp: is_digit_def)

text \<open>C26: the framing of a POST request. For a host and a path with no carriage return that do not
  themselves mention a content length, and a content without NUL (a C string), the server that reads
  the header up to the first empty line finds the content as the body, and the number after the first
  \<open>Content-Length:\<close> is its length.\<close>

theorem post_request_framing:
  assumes "CHR 0x0D \<notin> set path" and "CHR 0x0D \<notin> set host" and "CHR 0x00 \<notin> set content"
    and "\<not> sublist ''Content-Length:'' (''POST '' @ path @ '' HTTP/1.0'')"
    and "\<not> sublist ''Content-Length:'' (''Host: '' @ host)"
  shows "body_of (post_request host path content) = Some content \<and>
    length_of (post_request host path content) = Some (length content)"
proof -
  let ?three = "[''POST '' @ path @ '' HTTP/1.0'', ''Host: '' @ host,
    ''User-Agent: Mozilla/5.0 (Windows; U; Windows NT 5.1; zh-CN; rv:1.9.2.3) Gecko/20100401 Firefox/3.6.3'',
    ''Content-Type:application/x-www-form-urlencoded'']"
  let ?p = "''Content-Length:''" and ?len = "dec (length content)" and ?close = "''Connection:close''"
  let ?all = "?three @ [?p @ ?len, ?close]"
  have req: "post_request host path content = header_lines ?all @ crlf @ content"
    using assms(3) by (simp add: post_request_def user_agent_line_def c_str_id)
  have "\<forall>l\<in>set ?all. l \<noteq> [] \<and> CHR 0x0D \<notin> set l" using assms(1,2) dec_no_cr by simp
  then have blank: "find_sub (crlf @ crlf) (header_lines ?all @ crlf @ content) = Some (length (header_lines ?all) - 2)"
    unfolding append_Cons by (rule find_blank_lines)
  have two: "2 \<le> length (header_lines ?all)" by (simp add: length_crlf)
  have "drop (length h - 2 + 4) (h @ crlf @ content) = content" if "2 \<le> length h" for h
    using that by (simp add: length_crlf)
  note this [OF two]
  then have body: "body_of (post_request host path content) = Some content"
    unfolding body_of_def req blank option.map by (simp only:)
  have "\<forall>l\<in>set ?three. \<not> sublist ?p l" using assms(4,5) by (simp add: sublist_Cons_right)
  then have "find_sub ?p (header_lines ?three @ s) = map_option (\<lambda>i. i + length (header_lines ?three)) (find_sub ?p s)" for s
    by (intro find_sub_lines) simp_all
  moreover have split: "header_lines ?all @ crlf @ content =
      header_lines ?three @ ?p @ ?len @ crlf @ ?close @ crlf @ crlf @ content" by simp
  ultimately have at: "find_sub ?p (header_lines ?all @ crlf @ content) = Some (length (header_lines ?three))"
    using find_sub_here [of ?p] by (simp only: option.map add_0)
  have drop: "drop (length a + 15) (a @ ?p @ s) = s" for a s :: string by simp
  have "takeWhile is_digit (?len @ crlf @ s) = ?len" for s by (simp add: crlf_def digits_until)
  then have "length_of (post_request host path content) = Some (length content)"
    unfolding length_of_def req at unfolding split option.map option.inject drop by (simp only: undec_dec)
  with body show ?thesis by blast
qed

theorem post_request_framing_witness:
  "body_of (post_request ''192.168.0.11'' ''/webAuth/'' ''username=a&pwd=b'') = Some ''username=a&pwd=b'' \<and>
   length_of (post_request ''192.168.0.11'' ''/webAuth/'' ''username=a&pwd=b'') = Some 16"
proof -
  have "\<not> sublist ''Content-Length:'' (''POST '' @ ''/webAuth/'' @ '' HTTP/1.0'')"
    "\<not> sublist ''Content-Length:'' (''Host: '' @ ''192.168.0.11'')"
    by (simp_all add: sublist_Cons_right)
  from post_request_framing [OF _ _ _ this, of "''username=a&pwd=b''"] show ?thesis by simp
qed

end
