(* ===== verification/MySql_Conn.thy ===== *)
theory MySql_Conn
  imports Prelude
begin

text \<open>
  \<open>MySqlConn.cpp\<close>: the statements the program sends to its database. The server is a
  parameter: whether a connection succeeds, whether a statement succeeds and which rows it
  gives, as functions of the statements sent before. A cell is \<open>None\<close> when it is NULL.
  The object remembers what it sent, so that the theorems can speak about the statements on the
  wire.
\<close>

type_synonym sql_row = "string option list"

record db_server =
  db_connects :: "string list \<Rightarrow> bool"
  db_ok :: "string list \<Rightarrow> string \<Rightarrow> bool"
  db_rows :: "string list \<Rightarrow> string \<Rightarrow> sql_row list option"

record mysql_conn =
  GetCarNumber :: string
  GetUserNames :: string
  GetNickNume :: string
  GetUserPW :: string
  mysqlBAip :: string
  mysqlBALogoutdDirectory :: string
  mysqlBALogoutT :: string
  mysqlBALOginDirectory :: string
  mysqlBALLoginDt :: string
  sent :: "string list"
  results_open :: nat

definition MySqlConn_new :: mysql_conn where
  "MySqlConn_new = \<lparr>GetCarNumber = [], GetUserNames = [], GetNickNume = [], GetUserPW = [],
     mysqlBAip = [], mysqlBALogoutdDirectory = [], mysqlBALogoutT = [], mysqlBALOginDirectory = [],
     mysqlBALLoginDt = [], sent = [], results_open = 0\<rparr>"

text \<open>The connection's constants.\<close>

definition db_host :: string where "db_host = ''192.168.0.7''"
definition db_user :: string where "db_user = ''root''"
definition db_name :: string where "db_name = ''db''"
definition db_port :: nat where "db_port = 3306"

text \<open>
  \<open>mysql_query\<close>: whether it succeeded. \<open>mysql_store_result\<close> gives the result set of
  the last statement, and a null pointer when that failed or has none.
\<close>

definition mysql_query :: "db_server \<Rightarrow> string \<Rightarrow> mysql_conn \<Rightarrow> bool \<times> mysql_conn" where
  "mysql_query db q c = (db_ok db (sent c) (c_str q), c\<lparr>sent := sent c @ [c_str q]\<rparr>)"

definition mysql_store_result :: "db_server \<Rightarrow> mysql_conn \<Rightarrow> sql_row list option \<times> mysql_conn" where
  "mysql_store_result db c =
     (let r = (if sent c \<noteq> [] \<and> db_ok db (butlast (sent c)) (last (sent c))
               then db_rows db (butlast (sent c)) (last (sent c)) else None)
      in (r, if r = None then c else c\<lparr>results_open := Suc (results_open c)\<rparr>))"

definition mysql_free_result :: "mysql_conn \<Rightarrow> mysql_conn" where
  "mysql_free_result c = c\<lparr>results_open := results_open c - 1\<rparr>"

text \<open>A cell as a C string: constructing a \<open>std::string\<close> from a null cell is undefined.\<close>

definition cell :: "sql_row \<Rightarrow> nat \<Rightarrow> string res" where
  "cell row i = (if length row \<le> i then Inl OutOfBounds
     else (case row ! i of None \<Rightarrow> Inl NullDeref | Some s \<Rightarrow> Inr (c_str s)))"

definition initConnection :: "db_server \<Rightarrow> mysql_conn \<Rightarrow> bool \<times> mysql_conn" where
  "initConnection db c = (db_connects db (sent c), c)"

section \<open>Configuration\<close>

definition set_names :: string where "set_names = ''SET NAMES GB2312''"

definition info_row :: "sql_row \<Rightarrow> mysql_conn \<Rightarrow> mysql_conn res" where
  "info_row row c =
     bind_res (cell row 1) (\<lambda>strTempROW.
       if strTempROW = ''BAip''
       then bind_res (cell row 2) (\<lambda>v. Inr (c\<lparr>mysqlBAip := v\<rparr>))
       else if strTempROW = ''BALogoutdDirectory''
       then bind_res (cell row 2) (\<lambda>v. Inr (c\<lparr>mysqlBALogoutdDirectory := v\<rparr>))
       else if strTempROW = ''BALogoutT''
       then bind_res (cell row 2) (\<lambda>v. Inr (c\<lparr>mysqlBALogoutT := v\<rparr>))
       else if strTempROW = ''BALOginDirectory''
       then bind_res (cell row 2) (\<lambda>v. Inr (c\<lparr>mysqlBALOginDirectory := v\<rparr>))
       else if strTempROW = ''BALLoginDt''
       then bind_res (cell row 2) (\<lambda>v. Inr (c\<lparr>mysqlBALLoginDt := v\<rparr>))
       else Inr c)"

fun info_rows :: "sql_row list \<Rightarrow> mysql_conn \<Rightarrow> mysql_conn res" where
  "info_rows [] c = Inr c"
| "info_rows (row # rows) c = bind_res (info_row row c) (info_rows rows)"

definition info_query :: "db_server \<Rightarrow> mysql_conn \<Rightarrow> (bool \<times> mysql_conn) res" where
  "info_query db c =
     (let (_, c1) = mysql_query db set_names c;
          (ok, c2) = mysql_query db ''select * from BehavioralAudit'' c1
      in if \<not> ok then Inr (False, c2)
         else
           (let (result, c3) = mysql_store_result db c2
            in case result of
                 Some rows \<Rightarrow> bind_res (info_rows rows c3) (\<lambda>c4. Inr (True, c4))
               | None \<Rightarrow> Inr (False, c3)))"

section \<open>The card's user\<close>

definition user_query_format :: string where
  "user_query_format =
     ''select id,CarNumber,UserName,nickname,AES_DECRYPT(UserPW ,'' @ [CHR 0x27] @ ''Dust'' @ [CHR 0x27] @
     '')as UserPW  from CarTable where CarNumber='' @ [CHR 0x22] @ ''%s'' @ [CHR 0x22] @ '' ''"

definition user_query :: "db_server \<Rightarrow> string \<Rightarrow> mysql_conn \<Rightarrow> (bool \<times> mysql_conn) res" where
  "user_query db strSQL c =
     bind_res (sprintf_s 255 user_query_format [Some (c_str strSQL)]) (\<lambda>query.
     let (_, c1) = mysql_query db set_names c;
         (_, c2) = mysql_query db query c1;
         (result, c3) = mysql_store_result db c2
     in case result of
          Some rows \<Rightarrow>
            if 1 = length rows then
              (let sql_row = hd rows
               in bind_res (cell sql_row 1) (\<lambda>n.
                  bind_res (cell sql_row 2) (\<lambda>u.
                  bind_res (cell sql_row 3) (\<lambda>k.
                  if length sql_row \<le> 4 then Inl OutOfBounds
                  else
                    (let pw = (case sql_row ! 4 of None \<Rightarrow> [] | Some s \<Rightarrow> c_str s)
                     in Inr (True, mysql_free_result
                          (c3\<lparr>GetCarNumber := n, GetUserNames := u, GetNickNume := k, GetUserPW := pw\<rparr>)))))))
            else Inr (False, c3\<lparr>GetCarNumber := c_str strSQL\<rparr>)
        | None \<Rightarrow> Inr (False, c3))"

section \<open>Inserting a record\<close>

text \<open>The statement itself is the format.\<close>

definition user_insert :: "db_server \<Rightarrow> string \<Rightarrow> mysql_conn \<Rightarrow> (bool \<times> mysql_conn) res" where
  "user_insert db chSQL c =
     (let (_, c1) = mysql_query db set_names c
      in bind_res (sprintf_s 255 (c_str chSQL) []) (\<lambda>query. Inr (mysql_query db query c1)))"

section \<open>The print table\<close>

text \<open>Quoted fields, as the statements have them.\<close>

definition quoted_s :: string where "quoted_s = [CHR 0x22] @ ''%s'' @ [CHR 0x22]"

definition print_select_format :: string where
  "print_select_format = ''select * from PrintUser where MachineMAC='' @ [CHR 0x27] @ ''%s'' @ [CHR 0x27]"

definition print_update_off_format :: string where
  "print_update_off_format =
     ''update PrintUser set PuTime='' @ quoted_s @ '',PrintMark='' @ quoted_s @ ''  where MachineMAC='' @ quoted_s"

definition print_update_on_format :: string where
  "print_update_on_format =
     ''update PrintUser set MachineName='' @ quoted_s @ '',MachineIP='' @ quoted_s @ '',CarNumber='' @ quoted_s @
     '',PrintUserNickName='' @ quoted_s @ '',PrintUserName='' @ quoted_s @ '',PuTime='' @ quoted_s @
     '',PrintMark='' @ quoted_s @ ''  where MachineMAC='' @ quoted_s"

definition print_insert_off_format :: string where
  "print_insert_off_format =
     ''insert into PrintUser(MachineName,MachineMAC,MachineIP,PuTime,PrintMark)values( '' @ quoted_s @ '','' @ quoted_s @
     '','' @ quoted_s @ '','' @ quoted_s @ '','' @ quoted_s @ '');''"

definition print_insert_on_format :: string where
  "print_insert_on_format =
     ''insert into PrintUser(MachineName,MachineMAC,MachineIP,CarNumber,PrintUserNickName,PrintUserName,PuTime,PrintMark)values( '' @
     quoted_s @ '','' @ quoted_s @ '','' @ quoted_s @ '','' @ quoted_s @ '','' @ quoted_s @ '','' @ quoted_s @ '','' @
     quoted_s @ '','' @ quoted_s @ '');''"

text \<open>Four calls of \<open>strtok\<close> on a copy of the machine information.\<close>

definition split_info :: "string \<Rightarrow> string option \<times> string option \<times> string option \<times> string option" where
  "split_info s =
     (let (a, r) = strtok (CHR ''^'') s;
          (b, r) = strtok (CHR ''^'') r;
          (c, r) = strtok (CHR ''^'') r;
          (d, r) = strtok (CHR ''^'') r
      in (a, b, c, d))"

definition user_Print :: "db_server \<Rightarrow> string \<Rightarrow> mysql_conn \<Rightarrow> (bool \<times> mysql_conn) res" where
  "user_Print db strGetMachineInfo c =
     bind_res (strcpy_s 250 strGetMachineInfo) (\<lambda>chGetMachineInfo.
     let (sqlTime, sqlMachineName, sqlIP, sqlMAC) = split_info chGetMachineInfo;
         (_, c1) = mysql_query db set_names c
     in bind_res (sprintf_s 500 print_select_format [sqlMAC]) (\<lambda>select_user.
     let (ok, c2) = mysql_query db select_user c1
     in if \<not> ok then Inl UndefinedBehaviour
        else
          (let (result, c3) = mysql_store_result db c2
           in case result of
                None \<Rightarrow> Inl NullDeref
              | Some rows \<Rightarrow>
                  bind_res
                    (if length rows = 1 then
                       (if GetCarNumber c3 = []
                        then sprintf_s 500 print_update_off_format [sqlTime, Some ''off'', sqlMAC]
                        else sprintf_s 500 print_update_on_format
                          [sqlMachineName, sqlIP, Some (GetCarNumber c3), Some (GetNickNume c3),
                           Some (GetUserNames c3), sqlTime, Some ''on'', sqlMAC])
                     else
                       (if GetCarNumber c3 = []
                        then sprintf_s 500 print_insert_off_format [sqlMachineName, sqlMAC, sqlIP, sqlTime, Some ''off'']
                        else sprintf_s 500 print_insert_on_format
                          [sqlMachineName, sqlMAC, sqlIP, Some (GetCarNumber c3), Some (GetNickNume c3),
                           Some (GetUserNames c3), sqlTime, Some ''on'']))
                    (\<lambda>stmt. Inr (mysql_query db stmt c3)))))"

section \<open>Updating and deleting\<close>

definition user_update_format :: string where
  "user_update_format =
     ''update CarTable set UserPW=AES_ENCRYPT('' @ [CHR 0x27] @ ''%s'' @ [CHR 0x27] @ '','' @ [CHR 0x27] @ ''Dust'' @
     [CHR 0x27] @ '') where CarNumber='' @ [CHR 0x27] @ ''%s'' @ [CHR 0x27]"

definition user_update :: "db_server \<Rightarrow> string \<Rightarrow> mysql_conn \<Rightarrow> (bool \<times> mysql_conn) res" where
  "user_update db chpw c =
     (let (_, c1) = mysql_query db set_names c
      in bind_res (sprintf_s 255 user_update_format [Some (c_str chpw), Some (GetCarNumber c1)]) (\<lambda>query.
         Inr (mysql_query db query c1)))"

definition user_delete :: "db_server \<Rightarrow> mysql_conn \<Rightarrow> mysql_conn res" where
  "user_delete db c =
     bind_res (sprintf_s 255 (''select * from CarTable where UserName='' @ [CHR 0x27] @ ''%s'' @ [CHR 0x27]) [Some ''test2''])
       (\<lambda>select_user.
     let (ok, c1) = mysql_query db select_user c
     in if \<not> ok then Inl UndefinedBehaviour
        else
          (let (result, c2) = mysql_store_result db c1
           in case result of
                None \<Rightarrow> Inl NullDeref
              | Some _ \<Rightarrow>
                  bind_res (sprintf_s 255 (''delete from CarTable where UserName='' @ [CHR 0x27] @ ''%s'' @ [CHR 0x27])
                    [Some ''test2''])
                    (\<lambda>query. Inr (mysql_free_result (snd (mysql_query db query c2))))))"

text \<open>\<open>mysql_close\<close> leaves the object's own members alone.\<close>

definition FreeConnect :: "mysql_conn \<Rightarrow> mysql_conn" where
  "FreeConnect c = c"

end
