(* ===== verification/Machine_Info.thy ===== *)
theory Machine_Info
  imports Prelude
begin

text \<open>
  The helpers of \<open>CommandWindow.cpp\<close> that turn what the system says about the machine into
  strings: the reading of \<open>ping\<close>'s output (\<open>AnalysisFile\<close>), the machine's time, name,
  addresses (\<open>MachineInfo\<close>), the program's directory (\<open>GetProgramDir\<close>). Chinese
  literals are the bytes they have in the source.
\<close>

section \<open>Reading the output of ping\<close>

text \<open>
  \<open>fgets(ln, n, file)\<close>: at most \<open>n - 1\<close> characters, up to and including a line
  feed, and the rest of the file; \<open>None\<close> at its end.
\<close>

definition fgets :: "nat \<Rightarrow> string \<Rightarrow> (string \<times> string) option" where
  "fgets n s =
     (if s = [] then None
      else
        (let m = take (n - 1) s;
             l = takeWhile (\<lambda>c. c \<noteq> CHR 0x0A) m;
             ln = (if length l < length m then l @ [CHR 0x0A] else m)
         in Some (ln, drop (length ln) s)))"

text \<open>The buffer \<open>ln\<close>, \<open>None\<close> before anything is stored there, and the rest of the file.\<close>

definition read_ln :: "string option \<times> string \<Rightarrow> string option \<times> string" where
  "read_ln st = (case fgets 80 (snd st) of None \<Rightarrow> st | Some (ln, rest) \<Rightarrow> (Some ln, rest))"

text \<open>
  The file is \<open>None\<close> when it cannot be opened: then \<open>fgets\<close> gets a null stream. The
  third line's first number counts.
\<close>

definition AnalysisFile :: "string option \<Rightarrow> bool res" where
  "AnalysisFile file =
     (case file of
        None \<Rightarrow> Inl InvalidParameter
      | Some text \<Rightarrow>
          (case fst (read_ln (read_ln (read_ln (None, text)))) of
             None \<Rightarrow> Inl UndefinedBehaviour
           | Some ln \<Rightarrow>
               (let data = c_str ln;
                    iPos = find_char (CHR ''='') data
                in bind_res (substr data (pos_plus1 iPos) (Some 3)) (\<lambda>data.
                   let n = atoi data in Inr (0 < n)))))"

section \<open>The machine's information\<close>

record system_time =
  wYear :: "16 word"
  wMonth :: "16 word"
  wDay :: "16 word"
  wHour :: "16 word"
  wMinute :: "16 word"
  wSecond :: "16 word"

text \<open>A network adapter: its hardware address and the list of its IP addresses, never empty.\<close>

record adapter =
  Address :: "8 word list"
  IpAddressList :: "string list"

text \<open>What \<open>GetAdaptersInfo\<close> answers; the list it stores has at least one adapter.\<close>

datatype adapters_info = ERROR_SUCCESS "adapter list" | ERROR_BUFFER_OVERFLOW | AdaptersError

record machine_env =
  me_name :: "string option"
  me_time :: system_time
  me_adapters :: adapters_info
  me_adapters_again :: adapters_info

definition no_name :: string where
  "no_name = [CHR 0xCE, CHR 0xB4, CHR 0xC8, CHR 0xA1, CHR 0xB5, CHR 0xBD, CHR 0xBB, CHR 0xFA, CHR 0xC6, CHR 0xF7, CHR 0xC3, CHR 0xFB]"

definition no_ip :: string where
  "no_ip = [CHR 0xCE, CHR 0xB4, CHR 0xB5, CHR 0xBD, CHR 0xB1, CHR 0xBE, CHR 0xBB, CHR 0xFA, CHR 0x49, CHR 0x50]"

definition no_mac :: string where
  "no_mac = [CHR 0xCE, CHR 0xB4, CHR 0xB5, CHR 0xBD, CHR 0xB1, CHR 0xBE, CHR 0xBB, CHR 0xFA, CHR 0x4D, CHR 0x41, CHR 0x43]"

text \<open>The computer's name, in a buffer of 100 characters.\<close>

definition machine_name :: "machine_env \<Rightarrow> string res" where
  "machine_name env = (case me_name env of Some n \<Rightarrow> Inr (c_str n) | None \<Rightarrow> strcpy_s 100 no_name)"

definition time_text :: "system_time \<Rightarrow> string" where
  "time_text sdt =
     dec (unat (wYear sdt)) @ ''-'' @ dec02 (unat (wMonth sdt)) @ ''-'' @ dec02 (unat (wDay sdt)) @ '' '' @
     dec02 (unat (wHour sdt)) @ '':'' @ dec02 (unat (wMinute sdt)) @ '':'' @ dec02 (unat (wSecond sdt))"

definition machine_time :: "machine_env \<Rightarrow> string res" where
  "machine_time env =
     (if length (time_text (me_time env)) < 40 then
        (let chTime = time_text (me_time env)
         in if 0 = length chTime then strcpy_s 40 ''2055-05-05 11:05:05'' else Inr chTime)
      else Inl InvalidParameter)"

text \<open>A hardware address in hexadecimal, its bytes separated by hyphens.\<close>

definition append_mac :: "string \<Rightarrow> 8 word list \<Rightarrow> string" where
  "append_mac strMAC adr =
     foldl (\<lambda>s i. if i < length adr - 1 then s @ hex02 (adr ! i) @ ''-'' else s @ hex02 (adr ! i)) strMAC [0..<length adr]"

fun adapters_loop :: "adapter list \<Rightarrow> string \<Rightarrow> string \<Rightarrow> string \<times> string" where
  "adapters_loop [] strMAC strIP = (strMAC, strIP)"
| "adapters_loop (pIpAdapterInfo # rest) strMAC strIP =
     (let strMAC1 = (if 10 < length strMAC then strMAC @ ''/'' else strMAC);
          strIP1 = (if 10 < length strIP then strIP @ ''/'' else strIP)
      in adapters_loop rest (append_mac strMAC1 (Address pIpAdapterInfo))
           (strIP1 @ concat (map c_str (IpAddressList pIpAdapterInfo))))"

text \<open>The adapters' texts, and whether the buffer is freed: the loop leaves its pointer null.\<close>

definition machine_adapters :: "machine_env \<Rightarrow> (string \<times> string) \<times> bool" where
  "machine_adapters env =
     (let nRel = (case me_adapters env of ERROR_BUFFER_OVERFLOW \<Rightarrow> me_adapters_again env | r \<Rightarrow> r)
      in case nRel of
           ERROR_SUCCESS as \<Rightarrow> (adapters_loop as [] [], False)
         | _ \<Rightarrow> (([], []), True))"

definition MachineInfo :: "machine_env \<Rightarrow> string res" where
  "MachineInfo env =
     bind_res (machine_name env) (\<lambda>szBufCPName.
     bind_res (machine_time env) (\<lambda>chTime.
     let (strMAC, strIP) = fst (machine_adapters env);
         strIP = (if 0 = length strIP then no_ip else strIP);
         strMAC = (if 0 = length strMAC then no_mac else strMAC)
     in Inr (chTime @ ''^'' @ szBufCPName @ ''^'' @ strIP @ ''^'' @ strMAC)))"

section \<open>The program's directory\<close>

fun find_last_of :: "char \<Rightarrow> string \<Rightarrow> nat option" where
  "find_last_of c [] = None"
| "find_last_of c (x # xs) =
     (case find_last_of c xs of Some i \<Rightarrow> Some (Suc i) | None \<Rightarrow> if x = c then Some 0 else None)"

definition GetProgramDir :: "string \<Rightarrow> string" where
  "GetProgramDir exeFullPath =
     (let strPath = c_str exeFullPath
      in case find_last_of (CHR 0x5C) strPath of None \<Rightarrow> strPath | Some pos \<Rightarrow> take pos strPath)"

end
