(* ===== verification/Globals.thy ===== *)
theory Globals
  imports Com_Asy Http_Connect MySql_Conn Machine_Info
begin

text \<open>
  The state the threads of the program share: the variables of \<open>Global.cpp\<close>, those at the
  top of \<open>CommandWindow.cpp\<close>, the window's members and what its controls show. The three threads
  are the one LogonUI calls \<open>GetConnectedStatus\<close> on, the window's, and the serial line's.
\<close>

section \<open>The window\<close>

record command_window =
  cw_hWnd :: "nat option"
  cw_hWndEDIT :: "nat option"
  cw_hWndButton :: "nat option"
  cw_hWndButtonBack :: "nat option"
  cw_hWndLab :: "nat option"
  cw_hInst :: "nat option"
  cw_pProvider :: "nat option"
  cw_fConnected :: bool

text \<open>What a user sees: the title, the text painted, the password's characters and whether the four
  controls are shown (they are shown and hidden together).\<close>

record display =
  dp_title :: string
  dp_cLogin :: string
  dp_edit :: string
  dp_controls :: bool

section \<open>The variables\<close>

record globals =
  rx :: receiver
  SerialCom :: com_asy
  len :: nat
  SerialWr :: bool
  SerialIN :: bool
  strCom :: string
  strUser :: string
  strlogUser :: string
  strlogUserPW :: string
  initialization :: bool
  empPWCT :: bool
  boolGetBack :: bool
  isOK :: bool
  DbTconn :: mysql_conn
  BAip :: string
  BALogoutdDirectory :: string
  BALogoutT :: string
  BALOginDirectory :: string
  BALLoginDt :: string
  strGetMachineInfo :: string
  chhttpPOST :: string
  BoolHttpback :: bool
  getUpw :: string
  strCMD_deleted :: bool
  win :: command_window
  shown :: display

text \<open>The request sent to the card reader.\<close>

definition chData :: string where "chData = ''ready'' @ [CHR 0x00]"

section \<open>Texts\<close>

definition txt_device_init :: string where
  "txt_device_init = [CHR 0xC9, CHR 0xE8, CHR 0xB1, CHR 0xB8, CHR 0xB3, CHR 0xF5, CHR 0xCA, CHR 0xBC, CHR 0xBB, CHR 0xAF]"

definition txt_please_wait :: string where
  "txt_please_wait = [CHR 0xC9, CHR 0xE8, CHR 0xB1, CHR 0xB8, CHR 0xB3, CHR 0xF5, CHR 0xCA, CHR 0xBC, CHR 0xBB, CHR 0xAF, CHR 0xC7, CHR 0xEB, CHR 0xC9, CHR 0xD4, CHR 0xB5, CHR 0xC8, CHR 0xA3, CHR 0xA1]"

definition txt_connected :: string where
  "txt_connected = [CHR 0xC9, CHR 0xE8, CHR 0xB1, CHR 0xB8, CHR 0xD2, CHR 0xD1, CHR 0xC1, CHR 0xAC, CHR 0xBD, CHR 0xD3]"

definition txt_connected_bang :: string where
  "txt_connected_bang = [CHR 0xC9, CHR 0xE8, CHR 0xB1, CHR 0xB8, CHR 0xD2, CHR 0xD1, CHR 0xC1, CHR 0xAC, CHR 0xBD, CHR 0xD3, CHR 0xA3, CHR 0xA1]"

definition txt_linked :: string where
  "txt_linked = [CHR 0xC9, CHR 0xE8, CHR 0xB1, CHR 0xB8, CHR 0xD2, CHR 0xD1, CHR 0xC1, CHR 0xB4, CHR 0xBD, CHR 0xD3]"

definition txt_present_card :: string where
  "txt_present_card = [CHR 0xC7, CHR 0xEB, CHR 0xCB, CHR 0xA2, CHR 0xBF, CHR 0xA8, CHR 0xBD, CHR 0xF8, CHR 0xD0, CHR 0xD0, CHR 0xC8, CHR 0xCF, CHR 0xD6, CHR 0xA4, CHR 0xB5, CHR 0xC7, CHR 0xC2, CHR 0xBC, CHR 0xA3, CHR 0xA1]"

definition txt_network_init :: string where
  "txt_network_init = [CHR 0xCD, CHR 0xF8, CHR 0xC2, CHR 0xE7, CHR 0xB3, CHR 0xF5, CHR 0xCA, CHR 0xBC, CHR 0xBB, CHR 0xAF]"

definition txt_network_wait :: string where
  "txt_network_wait = [CHR 0xCD, CHR 0xF8, CHR 0xC2, CHR 0xE7, CHR 0xB3, CHR 0xF5, CHR 0xCA, CHR 0xBC, CHR 0xBB, CHR 0xAF, CHR 0xA3, CHR 0xAC, CHR 0xC7, CHR 0xEB, CHR 0xC9, CHR 0xD4, CHR 0xB5, CHR 0xC8, CHR 0xA3, CHR 0xA1, CHR 0x2E, CHR 0x2E, CHR 0x2E]"

definition txt_enter_password :: string where
  "txt_enter_password = [CHR 0xC7, CHR 0xEB, CHR 0xCA, CHR 0xE4, CHR 0xC8, CHR 0xEB, CHR 0xBB, CHR 0xA5, CHR 0xC1, CHR 0xAA, CHR 0xCD, CHR 0xF8, CHR 0xC3, CHR 0xDC, CHR 0xC2, CHR 0xEB, CHR 0xBD, CHR 0xF8, CHR 0xD0, CHR 0xD0, CHR 0xB5, CHR 0xC7, CHR 0xC2, CHR 0xBC, CHR 0xA3, CHR 0xA1]"

definition txt_verified :: string where
  "txt_verified = [CHR 0xD1, CHR 0xE9, CHR 0xD6, CHR 0xA4, CHR 0xCD, CHR 0xA8, CHR 0xB9, CHR 0xFD]"

definition txt_logging_in :: string where
  "txt_logging_in = [CHR 0xC3, CHR 0xDC, CHR 0xC2, CHR 0xEB, CHR 0xD1, CHR 0xE9, CHR 0xD6, CHR 0xA4, CHR 0xCD, CHR 0xA8, CHR 0xB9, CHR 0xFD, CHR 0xB5, CHR 0xC7, CHR 0xC2, CHR 0xBC, CHR 0xD6, CHR 0xD0, CHR 0xA3, CHR 0xA1, CHR 0x2E, CHR 0x2E, CHR 0x2E]"

definition txt_rejected :: string where
  "txt_rejected = [CHR 0xD1, CHR 0xE9, CHR 0xD6, CHR 0xA4, CHR 0xCA, CHR 0xA7, CHR 0xB0, CHR 0xDC]"

definition txt_password_please :: string where
  "txt_password_please = [CHR 0xC7, CHR 0xEB, CHR 0xCA, CHR 0xE4, CHR 0xC8, CHR 0xEB, CHR 0xC3, CHR 0xDC, CHR 0xC2, CHR 0xEB, CHR 0xD1, CHR 0xE9, CHR 0xD6, CHR 0xA4, CHR 0xA3, CHR 0xA1, CHR 0x2E, CHR 0x2E, CHR 0x2E]"

definition txt_rejected_again :: string where
  "txt_rejected_again = [CHR 0xC3, CHR 0xDC, CHR 0xC2, CHR 0xEB, CHR 0xD1, CHR 0xE9, CHR 0xD6, CHR 0xA4, CHR 0xCA, CHR 0xA7, CHR 0xB0, CHR 0xDC, CHR 0xC7, CHR 0xEB, CHR 0xD6, CHR 0xD8, CHR 0xD0, CHR 0xC2, CHR 0xD1, CHR 0xE9, CHR 0xD6, CHR 0xA4, CHR 0xA3, CHR 0xA1, CHR 0x2E, CHR 0x2E, CHR 0x2E]"

definition txt_password_length :: string where
  "txt_password_length = [CHR 0xC3, CHR 0xDC, CHR 0xC2, CHR 0xEB, CHR 0xB3, CHR 0xA4, CHR 0xB6, CHR 0xC8, CHR 0xB2, CHR 0xBB, CHR 0xB7, CHR 0xFB, CHR 0xBA, CHR 0xCF, CHR 0xD2, CHR 0xAA, CHR 0xC7, CHR 0xF3, CHR 0xA3, CHR 0xA1, CHR 0xC7, CHR 0xEB, CHR 0xD6, CHR 0xD8, CHR 0xD0, CHR 0xC2, CHR 0xCC, CHR 0xEE, CHR 0xD0, CHR 0xB4, CHR 0x2E, CHR 0x2E, CHR 0x2E]"

definition txt_authenticated :: string where
  "txt_authenticated = [CHR 0xC8, CHR 0xCF, CHR 0xD6, CHR 0xA4, CHR 0xB3, CHR 0xC9, CHR 0xB9, CHR 0xA6]"

definition txt_authenticated_login :: string where
  "txt_authenticated_login = [CHR 0xC8, CHR 0xCF, CHR 0xD6, CHR 0xA4, CHR 0xB3, CHR 0xC9, CHR 0xB9, CHR 0xA6, CHR 0xB5, CHR 0xC7, CHR 0xC2, CHR 0xBC, CHR 0xD6, CHR 0xD0, CHR 0x2E, CHR 0x2E, CHR 0x2E]"

definition txt_no_database :: string where
  "txt_no_database = [CHR 0xCE, CHR 0xDE, CHR 0xB7, CHR 0xA8, CHR 0xD0, CHR 0xB4, CHR 0xC8, CHR 0xEB, CHR 0xCA, CHR 0xFD, CHR 0xBE, CHR 0xDD, CHR 0xBF, CHR 0xE2, CHR 0xA3, CHR 0xA1]"

definition txt_login_failed :: string where
  "txt_login_failed = [CHR 0xB5, CHR 0xC7, CHR 0xC2, CHR 0xBC, CHR 0xCA, CHR 0xA7, CHR 0xB0, CHR 0xDC, CHR 0xA3, CHR 0xA1]"

definition txt_unknown :: string where
  "txt_unknown = [CHR 0xC8, CHR 0xCF, CHR 0xD6, CHR 0xA4, CHR 0xCA, CHR 0xA7, CHR 0xB0, CHR 0xDC, CHR 0xA3, CHR 0xA1]"

definition txt_unknown_again :: string where
  "txt_unknown_again = [CHR 0xC8, CHR 0xCF, CHR 0xD6, CHR 0xA4, CHR 0xCA, CHR 0xA7, CHR 0xB0, CHR 0xDC, CHR 0xC7, CHR 0xEB, CHR 0xD6, CHR 0xD8, CHR 0xD0, CHR 0xC2, CHR 0xC8, CHR 0xCF, CHR 0xD6, CHR 0xA4, CHR 0xA3, CHR 0xA1]"

definition txt_line_broken :: string where
  "txt_line_broken = [CHR 0xCD, CHR 0xA8, CHR 0xD0, CHR 0xC5, CHR 0xD6, CHR 0xD0, CHR 0xB6, CHR 0xCF, CHR 0xA3, CHR 0xA1]"

definition txt_line_broken_text :: string where
  "txt_line_broken_text = [CHR 0xC9, CHR 0xE8, CHR 0xB1, CHR 0xB8, CHR 0xB6, CHR 0xCF, CHR 0xBF, CHR 0xAA, CHR 0xC1, CHR 0xAC, CHR 0xBD, CHR 0xD3, CHR 0x2C, CHR 0xCD, CHR 0xA8, CHR 0xD0, CHR 0xC5, CHR 0xD6, CHR 0xD0, CHR 0xB6, CHR 0xCF, CHR 0xA3, CHR 0xA1]"

text \<open>Every text painted is copied into the 30 bytes of \<open>cLogin\<close>.\<close>

definition set_texts :: "string \<Rightarrow> string \<Rightarrow> globals \<Rightarrow> globals res" where
  "set_texts title text g =
     bind_res (strcpy_s 30 text) (\<lambda>t. Inr (g\<lparr>shown := (shown g)\<lparr>dp_title := title, dp_cLogin := t\<rparr>\<rparr>))"

definition set_controls :: "bool \<Rightarrow> globals \<Rightarrow> globals" where
  "set_controls b g = g\<lparr>shown := (shown g)\<lparr>dp_controls := b\<rparr>\<rparr>"

lemmas texts_painted =
  txt_please_wait_def txt_present_card_def txt_network_wait_def txt_logging_in_def txt_password_please_def
  txt_rejected_again_def txt_authenticated_login_def txt_login_failed_def txt_unknown_again_def txt_line_broken_text_def

definition texts :: "string list" where
  "texts = [[], txt_please_wait, txt_present_card, txt_network_wait, txt_logging_in, txt_password_please,
     txt_rejected_again, txt_authenticated_login, txt_login_failed, txt_unknown_again, txt_line_broken_text]"

lemma texts_fit: "t \<in> set texts \<Longrightarrow> strcpy_s 30 t = Inr t"
  by (auto simp: texts_def strcpy_s_def texts_painted c_str_def)

lemma set_texts_ok:
  "t \<in> set texts \<Longrightarrow> set_texts title t g = Inr (g\<lparr>shown := (shown g)\<lparr>dp_title := title, dp_cLogin := t\<rparr>\<rparr>)"
  by (simp add: set_texts_def texts_fit)

lemma texts_members [simp]:
  "[] \<in> set texts" "txt_please_wait \<in> set texts" "txt_present_card \<in> set texts" "txt_network_wait \<in> set texts"
  "txt_logging_in \<in> set texts" "txt_password_please \<in> set texts" "txt_rejected_again \<in> set texts"
  "txt_authenticated_login \<in> set texts" "txt_login_failed \<in> set texts" "txt_unknown_again \<in> set texts"
  "txt_line_broken_text \<in> set texts"
  by (simp_all add: texts_def)

lemmas set_text_simps [simp] = texts_members [THEN set_texts_ok]

section \<open>At the start of the process\<close>

definition CCommandWindow_new :: command_window where
  "CCommandWindow_new = \<lparr>cw_hWnd = None, cw_hWndEDIT = None, cw_hWndButton = None, cw_hWndButtonBack = None,
     cw_hWndLab = None, cw_hInst = None, cw_pProvider = None, cw_fConnected = False\<rparr>"

definition globals_init :: globals where
  "globals_init = \<lparr>
     rx = \<lparr>Readinfo = [], G_Readinfochs = [], isopenCOM = 0, TempReadinfo = []\<rparr>,
     SerialCom = ComAsy_new, len = length chData, SerialWr = False, SerialIN = False,
     strCom = [], strUser = [], strlogUser = [], strlogUserPW = [], initialization = False,
     empPWCT = True, boolGetBack = False, isOK = False, DbTconn = MySqlConn_new,
     BAip = [], BALogoutdDirectory = [], BALogoutT = [], BALOginDirectory = [], BALLoginDt = [],
     strGetMachineInfo = [], chhttpPOST = [], BoolHttpback = False, getUpw = [], strCMD_deleted = False,
     win = CCommandWindow_new,
     shown = \<lparr>dp_title = txt_device_init, dp_cLogin = txt_please_wait, dp_edit = [], dp_controls = False\<rparr>\<rparr>"

end
