(* ===== verification/Command_Window.thy ===== *)
theory Command_Window
  imports Globals
begin

text \<open>
  Starting the command window: \<open>CCommandWindow::Initialize\<close> reads \<open>setting.conf\<close>,
  opens the serial line, takes a reference to the provider and starts the window's thread. What the
  system answers is a parameter.
\<close>

section \<open>The configuration file\<close>

text \<open>
  The lines \<open>getline\<close> delivers before \<open>eof\<close> holds (text mode): the text between line
  feeds, an empty one behind a final line feed included.
\<close>

fun split_lines :: "string \<Rightarrow> string list" where
  "split_lines [] = [[]]"
| "split_lines (c # s) =
     (if c = CHR 0x0A then [] # split_lines s
      else (case split_lines s of [] \<Rightarrow> [[c]] | l # ls \<Rightarrow> (c # l) # ls))"

text \<open>A line goes into the map unless it starts with a hash; \<open>insert\<close> keeps the first value of a key.\<close>

definition config_line :: "(string \<rightharpoonup> string) \<Rightarrow> string \<Rightarrow> (string \<rightharpoonup> string) res" where
  "config_line mapConfig str_line =
     (if find_char (CHR ''#'') str_line = Some 0 then Inr mapConfig
      else
        (let pos = find_char (CHR ''='') str_line
         in bind_res (substr str_line 0 pos) (\<lambda>str_key.
            bind_res (substr str_line (pos_plus1 pos) None) (\<lambda>str_value.
            Inr (if mapConfig str_key = None then mapConfig(str_key \<mapsto> str_value) else mapConfig)))))"

fun config_lines :: "string list \<Rightarrow> (string \<rightharpoonup> string) \<Rightarrow> (string \<rightharpoonup> string) res" where
  "config_lines [] mapConfig = Inr mapConfig"
| "config_lines (l # ls) mapConfig = bind_res (config_line mapConfig l) (config_lines ls)"

definition read_config :: "string \<Rightarrow> (string \<rightharpoonup> string) res" where
  "read_config text = config_lines (split_lines text) Map.empty"

section \<open>Initialize\<close>

text \<open>
  The working directory, the files, what opening a port answers, whether the thread is created, and
  the last error when it is not.
\<close>

record init_env =
  ie_getcwd :: "string option"
  ie_file :: "string \<Rightarrow> string option"
  ie_port :: "string \<Rightarrow> open_env"
  ie_thread :: bool
  ie_error :: "32 word"

definition setting_conf :: string where "setting_conf = CHR 0x5C # ''setting.conf''"

text \<open>The part that reads the file: it leaves the process when there is none.\<close>

definition init_config :: "init_env \<Rightarrow> globals \<Rightarrow> globals res" where
  "init_config env g =
     (case ie_getcwd env of
        None \<Rightarrow> Inl (ProcessExit (- 1))
      | Some buffer \<Rightarrow>
          (let path = c_str buffer @ setting_conf
           in case ie_file env (c_str path) of
                None \<Rightarrow> Inl (ProcessExit (- 1))
              | Some text \<Rightarrow>
                  bind_res (read_config text) (\<lambda>mapConfig.
                  Inr (g\<lparr>strCom := (case mapConfig ''Com'' of Some v \<Rightarrow> v | None \<Rightarrow> strCom g),
                         strUser := (case mapConfig ''User'' of Some v \<Rightarrow> v | None \<Rightarrow> strUser g)\<rparr>))))"

text \<open>Opening the port the configuration names.\<close>

definition init_port :: "init_env \<Rightarrow> globals \<Rightarrow> globals res" where
  "init_port env g =
     (if length (strCom g) \<noteq> 0 then
        (let (ok, com) = InitCOM (ie_port env (c_str (strCom g))) (SerialCom g)
         in Inr (g\<lparr>SerialIN := ok, SerialCom := com\<rparr>))
      else Inl (ProcessExit (- 1)))"

text \<open>The provider's methods called, in order.\<close>

datatype window_call = Provider_AddRef nat | Provider_Release nat

definition release_provider :: "command_window \<Rightarrow> window_call list" where
  "release_provider w = (case cw_pProvider w of Some p \<Rightarrow> [Provider_Release p] | None \<Rightarrow> [])"

definition CCommandWindow_Initialize ::
  "init_env \<Rightarrow> nat \<Rightarrow> globals \<Rightarrow> (HRESULT \<times> window_call list \<times> globals) res" where
  "CCommandWindow_Initialize env pProvider g =
     bind_res (init_config env (g\<lparr>initialization := True\<rparr>)) (\<lambda>g1.
     bind_res (init_port env g1) (\<lambda>g2.
     let calls = release_provider (win g2) @ [Provider_AddRef pProvider];
         g3 = g2\<lparr>win := (win g2)\<lparr>cw_pProvider := Some pProvider\<rparr>\<rparr>;
         hr = (if \<not> ie_thread env then HRESULT_FROM_WIN32 (ie_error env) else S_OK)
     in Inr (hr, calls, g3)))"

text \<open>The destructor: whether the exit message is posted, and the reference given back.\<close>

definition CCommandWindow_delete :: "command_window \<Rightarrow> bool \<times> window_call list \<times> command_window" where
  "CCommandWindow_delete w =
     (cw_hWnd w \<noteq> None, release_provider w, w\<lparr>cw_hWnd := None, cw_pProvider := None\<rparr>)"

section \<open>The file and the settings read\<close>

lemma split_lines_ne [simp]: "split_lines s \<noteq> []"
  by (cases s) (auto split: list.splits)

lemma split_lines_one: "CHR 0x0A \<notin> set l \<Longrightarrow> split_lines l = [l]"
  by (induction l) auto

lemma split_lines_append: "CHR 0x0A \<notin> set l \<Longrightarrow> split_lines (l @ CHR 0x0A # s) = l # split_lines s"
  by (induction l) auto

text \<open>An entry that can be written as a line.\<close>

definition entry_ok :: "string \<times> string \<Rightarrow> bool" where
  "entry_ok kv \<longleftrightarrow> CHR ''='' \<notin> set (fst kv) \<and> CHR 0x0A \<notin> set (fst kv) \<and> CHR 0x0A \<notin> set (snd kv) \<and>
     (fst kv = [] \<or> hd (fst kv) \<noteq> CHR ''#'')"

definition entry_line :: "string \<times> string \<Rightarrow> string" where
  "entry_line kv = fst kv @ CHR ''='' # snd kv"

definition render :: "(string \<times> string) list \<Rightarrow> string" where
  "render kvs = concat (map (\<lambda>kv. entry_line kv @ [CHR 0x0A]) kvs)"

lemma split_render: "list_all entry_ok kvs \<Longrightarrow> split_lines (render kvs) = map entry_line kvs @ [[]]"
proof (induction kvs)
  case (Cons kv kvs)
  have "split_lines (render (kv # kvs)) = entry_line kv # split_lines (render kvs)"
    using split_lines_append [of "entry_line kv" "render kvs"] Cons.prems
    by (auto simp: render_def entry_line_def entry_ok_def)
  with Cons show ?case by simp
qed (simp add: render_def)

lemma config_line_entry:
  assumes "entry_ok kv"
  shows "config_line m (entry_line kv) = Inr (if m (fst kv) = None then m(fst kv \<mapsto> snd kv) else m)"
proof -
  have e: "find_char (CHR ''='') (entry_line kv) = Some (length (fst kv))"
    unfolding entry_line_def by (rule find_char_first) (use assms in \<open>simp add: entry_ok_def\<close>)
  have h: "find_char (CHR ''#'') (entry_line kv) \<noteq> Some 0"
  proof
    assume "find_char (CHR ''#'') (entry_line kv) = Some 0"
    then have "prefix [CHR ''#''] (entry_line kv)"
      using find_sub_Some [of "[CHR ''#'']" "entry_line kv" 0] by (simp add: find_char_def)
    then have "hd (entry_line kv) = CHR ''#''" by (cases "entry_line kv") simp_all
    with assms show False by (cases "fst kv") (simp_all add: entry_line_def entry_ok_def)
  qed
  show ?thesis by (simp add: config_line_def e h substr_def pos_plus1_def Let_def) (auto simp: entry_line_def)
qed

lemma config_line_empty: "config_line m [] = Inr (if m [] = None then m([] \<mapsto> []) else m)"
  by (simp add: config_line_def find_char_def substr_def pos_plus1_def)

lemma config_lines_append:
  "config_lines (a @ b) m = bind_res (config_lines a m) (config_lines b)"
proof (induction a arbitrary: m)
  case (Cons l a)
  then show ?case by (cases "config_line m l") auto
qed simp

lemma config_lines_entries:
  "list_all entry_ok kvs \<Longrightarrow> config_lines (map entry_line kvs) m = Inr (map_of kvs ++ m)"
proof (induction kvs arbitrary: m)
  case (Cons kv kvs)
  have "map_of kvs ++ (if m (fst kv) = None then m(fst kv \<mapsto> snd kv) else m) = map_of (kv # kvs) ++ m"
    by (cases kv) (auto simp: fun_eq_iff map_add_def split: option.splits)
  with Cons show ?case by (simp add: config_line_entry fun_upd_def)
qed simp

text \<open>C18: writing and reading \<open>setting.conf\<close>. A file of lines "key=value" (keys without equals
  sign and not starting with a hash, nothing containing a line feed; values may contain equals signs)
  is read without fault and gives every non-empty key its first value and no other key a value.\<close>

theorem config_roundtrip:
  assumes "list_all entry_ok kvs"
  shows "\<exists>m. read_config (render kvs) = Inr m \<and> (\<forall>k. k \<noteq> [] \<longrightarrow> m k = map_of kvs k)"
proof -
  have "read_config (render kvs) = bind_res (Inr (map_of kvs ++ Map.empty)) (config_lines [[]])"
    by (simp add: read_config_def split_render [OF assms] config_lines_append config_lines_entries [OF assms])
  then show ?thesis by (simp add: config_line_empty)
qed

theorem config_roundtrip_witness:
  "\<exists>m. read_config (''Com=COM3'' @ [CHR 0x0A] @ ''User=www01'' @ [CHR 0x0A] @ ''Com=COM4'' @ [CHR 0x0A]) = Inr m \<and>
     m ''Com'' = Some ''COM3'' \<and> m ''User'' = Some ''www01''"
proof -
  let ?kvs = "[(''Com'', ''COM3''), (''User'', ''www01''), (''Com'', ''COM4'')]"
  have "list_all entry_ok ?kvs" by (simp add: entry_ok_def)
  from config_roundtrip [OF this] obtain m
    where "read_config (render ?kvs) = Inr m" "\<forall>k. k \<noteq> [] \<longrightarrow> m k = map_of ?kvs k" by blast
  then show ?thesis by (auto simp: render_def entry_line_def)
qed


section \<open>Initializing\<close>

definition start_failure :: "init_env \<Rightarrow> HRESULT" where
  "start_failure env = (if ie_thread env then S_OK else HRESULT_FROM_WIN32 (ie_error env))"

text \<open>C19: \<open>Initialize\<close> on a process's first window, with a \<open>setting.conf\<close> of "key=value"
  lines. When the first "Com" is missing or empty, and when there is no directory or no file, the
  whole process exits. Otherwise it takes exactly one reference to the provider, gives none back,
  arms the initialisation of the login loop, and opens the port of the first "Com", whose failure it
  records but does not report: the result depends on the thread alone.\<close>

theorem initialize_spec:
  assumes "list_all entry_ok kvs" and "ie_getcwd env = Some dir"
    and "ie_file env (c_str (c_str dir @ setting_conf)) = Some (render kvs)"
    and "strCom g = []" and "cw_pProvider (win g) = None"
  shows "CCommandWindow_Initialize env p g =
      (case map_of kvs ''Com'' of
         None \<Rightarrow> Inl (ProcessExit (- 1))
       | Some port \<Rightarrow>
           if port = [] then Inl (ProcessExit (- 1))
           else Inr (start_failure env, [Provider_AddRef p],
             g\<lparr>initialization := True, strCom := port,
               strUser := (case map_of kvs ''User'' of Some u \<Rightarrow> u | None \<Rightarrow> strUser g),
               SerialIN := fst (InitCOM (ie_port env (c_str port)) (SerialCom g)),
               SerialCom := snd (InitCOM (ie_port env (c_str port)) (SerialCom g)),
               win := (win g)\<lparr>cw_pProvider := Some p\<rparr>\<rparr>)) \<and>
    CCommandWindow_Initialize (env\<lparr>ie_getcwd := None\<rparr>) p g = Inl (ProcessExit (- 1)) \<and>
    CCommandWindow_Initialize (env\<lparr>ie_file := \<lambda>_. None\<rparr>) p g = Inl (ProcessExit (- 1))"
proof -
  obtain m where m: "read_config (render kvs) = Inr m" and mk: "m ''Com'' = map_of kvs ''Com''" "m ''User'' = map_of kvs ''User''"
  proof -
    have "read_config (render kvs) = bind_res (Inr (map_of kvs ++ Map.empty)) (config_lines [[]])"
      by (simp add: read_config_def split_render [OF assms(1)] config_lines_append config_lines_entries [OF assms(1)])
    then show ?thesis
      using that [of "if map_of kvs [] = None then (map_of kvs)([] \<mapsto> []) else map_of kvs"] by (simp add: config_line_empty)
  qed
  have "CCommandWindow_Initialize env p g =
      (case map_of kvs ''Com'' of
         None \<Rightarrow> Inl (ProcessExit (- 1))
       | Some port \<Rightarrow>
           if port = [] then Inl (ProcessExit (- 1))
           else Inr (start_failure env, [Provider_AddRef p],
             g\<lparr>initialization := True, strCom := port,
               strUser := (case map_of kvs ''User'' of Some u \<Rightarrow> u | None \<Rightarrow> strUser g),
               SerialIN := fst (InitCOM (ie_port env (c_str port)) (SerialCom g)),
               SerialCom := snd (InitCOM (ie_port env (c_str port)) (SerialCom g)),
               win := (win g)\<lparr>cw_pProvider := Some p\<rparr>\<rparr>))"
    using assms(2-5)
    by (cases "map_of kvs ''User''"; cases "map_of kvs ''Com''"; cases "InitCOM (ie_port env (c_str (the (map_of kvs ''Com'')))) (SerialCom g)")
      (simp_all add: CCommandWindow_Initialize_def init_config_def m mk init_port_def release_provider_def start_failure_def Let_def)
  then show ?thesis
    using assms(2) by (simp add: CCommandWindow_Initialize_def init_config_def)
qed

definition example_init :: init_env where
  "example_init = \<lparr>ie_getcwd = Some ''C:'', ie_file = (\<lambda>_. Some (render [(''Com'', ''COM3''), (''User'', ''www01'')])),
     ie_port = (\<lambda>_. \<lparr>oe_CreateFile = Some 1, oe_events = (Some 2, Some 3, Some 4), oe_thread = Some 5\<rparr>),
     ie_thread = True, ie_error = 0\<rparr>"

theorem initialize_spec_witness:
  "\<exists>g. CCommandWindow_Initialize example_init 7 globals_init = Inr (S_OK, [Provider_AddRef 7], g) \<and>
     strCom g = ''COM3'' \<and> strUser g = ''www01'' \<and> initialization g \<and> m_IsOpen (SerialCom g)"
proof -
  let ?kvs = "[(''Com'', ''COM3''), (''User'', ''www01'')]"
  have e: "list_all entry_ok ?kvs" by (simp add: entry_ok_def)
  have "CCommandWindow_Initialize example_init 7 globals_init =
      (case map_of ?kvs ''Com'' of
         None \<Rightarrow> Inl (ProcessExit (- 1))
       | Some port \<Rightarrow>
           if port = [] then Inl (ProcessExit (- 1))
           else Inr (start_failure example_init, [Provider_AddRef 7],
             globals_init\<lparr>initialization := True, strCom := port,
               strUser := (case map_of ?kvs ''User'' of Some u \<Rightarrow> u | None \<Rightarrow> strUser globals_init),
               SerialIN := fst (InitCOM (ie_port example_init (c_str port)) (SerialCom globals_init)),
               SerialCom := snd (InitCOM (ie_port example_init (c_str port)) (SerialCom globals_init)),
               win := (win globals_init)\<lparr>cw_pProvider := Some 7\<rparr>\<rparr>))"
    by (rule conjunct1 [OF initialize_spec [OF e, of example_init "''C:''" globals_init 7]])
      (simp_all add: example_init_def globals_init_def CCommandWindow_new_def)
  then show ?thesis
    by (simp add: start_failure_def example_init_def InitCOM_def InitCOM_start_def Let_def globals_init_def)
qed

end
