(* ===== verification/Window_Proc.thy ===== *)
theory Window_Proc
  imports Command_Window
begin

text \<open>
  The window's thread: creating the window and its controls (\<open>_MyRegisterClass\<close>,
  \<open>_InitInstance\<close>), the window procedure, and \<open>_ProcessNextMessage\<close> with the two buttons:
  the login button checks the password typed against the network's gateway and stores it, the other
  goes back to the card prompt.

  The login thread waits on \<open>empPWCT\<close> and then reads \<open>boolGetBack\<close>, which this thread writes
  without synchronisation. A handler therefore returns its writes of the two as a list, in the code's order,
  for the login loop's step relation to interleave. What is shown is read by neither thread, so
  it is set before the writes.
\<close>

section \<open>Computations that may not return\<close>

text \<open>\<open>None\<close>: the fuel of a receive loop did not suffice.\<close>

type_synonym 'a run = "'a res option"

definition bind_run :: "'a run \<Rightarrow> ('a \<Rightarrow> 'b run) \<Rightarrow> 'b run" where
  "bind_run m f = (case m of None \<Rightarrow> None | Some (Inl e) \<Rightarrow> Some (Inl e) | Some (Inr x) \<Rightarrow> f x)"

lemma bind_run_simps [simp]:
  "bind_run None f = None" "bind_run (Some (Inl e)) f = Some (Inl e)" "bind_run (Some (Inr x)) f = f x"
  by (simp_all add: bind_run_def)

lemma bind_runE:
  assumes "bind_run m f = Some (Inr y)"
  obtains x where "m = Some (Inr x)" and "f x = Some (Inr y)"
  using assms by (auto simp: bind_run_def split: option.splits sum.splits)

section \<open>Messages\<close>

definition WM_USER :: nat where "WM_USER = 0x400"
definition WM_EXIT_THREAD :: nat where "WM_EXIT_THREAD = WM_USER + 1"
definition WM_TOGGLE_CONNECTED_STATUS :: nat where "WM_TOGGLE_CONNECTED_STATUS = WM_USER + 2"
definition WM_PAINT :: nat where "WM_PAINT = 0x0F"
definition WM_CLOSE :: nat where "WM_CLOSE = 0x10"
definition BM_CLICK :: nat where "BM_CLICK = 0xF5"
definition WM_KEYDOWN :: nat where "WM_KEYDOWN = 0x100"
definition WM_COMMAND :: nat where "WM_COMMAND = 0x111"
definition WM_DEVICECHANGE :: nat where "WM_DEVICECHANGE = 0x219"
definition VK_RETURN :: nat where "VK_RETURN = 0x0D"

lemmas message_defs = WM_USER_def WM_EXIT_THREAD_def WM_TOGGLE_CONNECTED_STATUS_def WM_PAINT_def WM_CLOSE_def
  BM_CLICK_def WM_KEYDOWN_def WM_COMMAND_def WM_DEVICECHANGE_def VK_RETURN_def

record message =
  msg_hwnd :: "nat option"
  msg_message :: nat
  msg_wParam :: nat
  msg_lParam :: "nat option"

text \<open>What the window procedure does: painting the text (with a font that is never deleted), posting
  a message to its window, hiding the window, leaving the message to the system.\<close>

datatype wnd_effect = Paint string | PostMessage message | HideWindow | DefWindowProc message

definition WndProc :: "globals \<Rightarrow> message \<Rightarrow> wnd_effect list" where
  "WndProc g m =
     (if msg_message m = WM_PAINT then [Paint (dp_cLogin (shown g))]
      else if msg_message m = WM_DEVICECHANGE then []
      else if msg_message m = WM_COMMAND then [PostMessage (m\<lparr>msg_message := BM_CLICK\<rparr>)]
      else if msg_message m = WM_CLOSE then
        [HideWindow, PostMessage \<lparr>msg_hwnd = msg_hwnd m, msg_message = WM_EXIT_THREAD, msg_wParam = 0, msg_lParam = None\<rparr>]
      else [DefWindowProc m])"

definition posts :: "wnd_effect list \<Rightarrow> message list" where
  "posts es = concat (map (\<lambda>e. case e of PostMessage m \<Rightarrow> [m] | _ \<Rightarrow> []) es)"

section \<open>The password\<close>

text \<open>The loop that replaces plus signs; it searches from the start every time.\<close>

function escape_plus :: "string \<Rightarrow> string" where
  "escape_plus strUserPW =
     (case find_sub ''+'' strUserPW of
        None \<Rightarrow> strUserPW
      | Some pos \<Rightarrow> escape_plus (take pos strUserPW @ ''%2b'' @ drop (pos + 1) strUserPW))"
  by pat_completeness auto

lemma find_plus_split:
  "find_sub ''+'' s = Some pos \<Longrightarrow> s = take pos s @ CHR ''+'' # drop (pos + 1) s"
  using find_sub_Some_split [of "''+''" s pos] by simp

termination escape_plus
proof (relation "measure (\<lambda>s. count (mset s) (CHR ''+''))")
  fix s pos
  assume "find_sub ''+'' s = Some pos"
  then have "count (mset s) (CHR ''+'') =
      count (mset (take pos s)) (CHR ''+'') + Suc (count (mset (drop (pos + 1) s)) (CHR ''+''))"
    by (subst find_plus_split [of s pos]) auto
  then show "(take pos s @ ''%2b'' @ drop (pos + 1) s, s) \<in> measure (\<lambda>s. count (mset s) (CHR ''+''))"
    by simp
qed simp

declare escape_plus.simps [simp del]

text \<open>What is written to the two flags, in order.\<close>

datatype flag_write = Set_empPWCT bool | Set_boolGetBack bool

record check_env =
  ck_fuel :: nat
  ck_logout :: http_env
  ck_login :: http_env
  ck_db :: db_server

text \<open>The request that logs a user on to the gateway; the configured text is the format.\<close>

definition login_form :: "globals \<Rightarrow> string \<Rightarrow> string res" where
  "login_form g pw = sprintf_s 1000 (c_str (BALLoginDt g)) [Some (c_str (strlogUser g)), Some (c_str pw), Some (c_str pw)]"

text \<open>The gateway's answer to a password: log the machine off, then post the form.\<close>

definition gateway_check :: "check_env \<Rightarrow> string \<Rightarrow> globals \<Rightarrow> globals run" where
  "gateway_check env pw g =
     bind_run (getData (ck_fuel env) (ck_logout env) (BAip g) (BALogoutdDirectory g) (BALogoutT g)) (\<lambda>_.
     bind_run (Some (login_form g pw)) (\<lambda>form.
     bind_run (postData (ck_fuel env) (ck_login env) (BAip g) (BALOginDirectory g) form) (\<lambda>ok.
     Some (Inr (g\<lparr>chhttpPOST := form, BoolHttpback := ok\<rparr>)))))"

text \<open>What the login button does with the gateway's answer.\<close>

definition check_answer :: "check_env \<Rightarrow> globals \<Rightarrow> (globals \<times> flag_write list) run" where
  "check_answer env g1 =
     (if BoolHttpback g1 then
        bind_run (Some (user_update (ck_db env) (getUpw g1) (DbTconn g1))) (\<lambda>(ok, c).
        let g2 = g1\<lparr>DbTconn := c, isOK := ok\<rparr>
        in if isOK g2 then
             bind_run (Some (set_texts txt_verified txt_logging_in (set_controls False g2))) (\<lambda>g3.
             Some (Inr (g3, [Set_empPWCT True, Set_boolGetBack False, Set_empPWCT False])))
           else Some (Inr (g2, [Set_boolGetBack False, Set_empPWCT True])))
      else
        bind_run (Some (set_texts txt_rejected txt_rejected_again g1)) (\<lambda>g2.
        Some (Inr (g2\<lparr>shown := (shown g2)\<lparr>dp_edit := []\<rparr>\<rparr>, [Set_boolGetBack False, Set_empPWCT True]))))"

text \<open>The login button.\<close>

definition login_click :: "check_env \<Rightarrow> globals \<Rightarrow> (globals \<times> flag_write list) run" where
  "login_click env g0 =
     (let g = g0\<lparr>getUpw := c_str (take 1023 (dp_edit (shown g0)))\<rparr>
      in if 7 < length (getUpw g) then
           bind_run (gateway_check env (escape_plus (getUpw g)) g) (check_answer env)
         else
           bind_run (Some (set_texts txt_password_length [] g)) (\<lambda>g1.
           Some (Inr (g1, [Set_boolGetBack False, Set_empPWCT True]))))"

text \<open>The other button.\<close>

definition back_click :: "globals \<Rightarrow> (globals \<times> flag_write list) run" where
  "back_click g =
     (let g1 = set_controls False g;
          g2 = g1\<lparr>shown := (shown g1)\<lparr>dp_edit := []\<rparr>\<rparr>
      in bind_run (Some (set_texts txt_linked txt_present_card g2)) (\<lambda>g3.
         Some (Inr (g3, [Set_empPWCT False, Set_boolGetBack True]))))"

text \<open>Whether to go on, the messages posted, the flag writes, the state.\<close>

definition ProcessNextMessage ::
  "check_env \<Rightarrow> message \<Rightarrow> globals \<Rightarrow> (bool \<times> message list \<times> flag_write list \<times> globals) run" where
  "ProcessNextMessage env msg g =
     (let posted = (if msg_hwnd msg = cw_hWnd (win g) then posts (WndProc g msg) else [])
      in if msg_message msg = WM_EXIT_THREAD then Some (Inr (False, posted, [], g))
         else if msg_message msg = WM_KEYDOWN then
           (let clicks = (if msg_wParam msg = VK_RETURN
              then [\<lparr>msg_hwnd = msg_hwnd msg, msg_message = BM_CLICK, msg_wParam = msg_wParam msg,
                     msg_lParam = cw_hWndButton (win g)\<rparr>] else [])
            in Some (Inr (True, posted @ clicks, [], g)))
         else if msg_message msg = BM_CLICK then
           bind_run (if msg_lParam msg = cw_hWndButton (win g) then login_click env g else Some (Inr (g, []))) (\<lambda>(g1, w1).
           bind_run (if msg_lParam msg = cw_hWndButtonBack (win g1) then back_click g1 else Some (Inr (g1, []))) (\<lambda>(g2, w2).
           Some (Inr (True, posted, w1 @ w2, g2))))
         else Some (Inr (True, posted, [], g)))"


section \<open>Creating the window\<close>

text \<open>
  What the system answers: the window handles, whether the class is registered, what the two calls
  that show the window return, and the thread's last error after each call, by the place in the code.
\<close>

datatype call_site = At_RegisterClass | At_CreateWindow | At_Lab | At_Edit | At_Button | At_Back | At_Show | At_Update | At_Module

record window_env =
  we_module :: "nat option"
  we_registered :: bool
  we_hWnd :: "nat option"
  we_lab :: "nat option"
  we_edit :: "nat option"
  we_button :: "nat option"
  we_back :: "nat option"
  we_show :: bool
  we_update :: bool
  we_error :: "call_site \<Rightarrow> 32 word"

definition MyRegisterClass :: "window_env \<Rightarrow> HRESULT" where
  "MyRegisterClass env = (if \<not> we_registered env then HRESULT_FROM_WIN32 (we_error env At_RegisterClass) else S_OK)"

definition check_handle :: "window_env \<Rightarrow> call_site \<Rightarrow> nat option \<Rightarrow> HRESULT \<Rightarrow> HRESULT" where
  "check_handle env site h hr = (if h = None then HRESULT_FROM_WIN32 (we_error env site) else hr)"

text \<open>The label, the edit field and the two buttons: each failure overwrites the result.\<close>

definition create_controls :: "window_env \<Rightarrow> globals \<Rightarrow> HRESULT \<times> globals" where
  "create_controls env g =
     (check_handle env At_Back (we_back env)
        (check_handle env At_Button (we_button env)
          (check_handle env At_Edit (we_edit env)
            (check_handle env At_Lab (we_lab env) S_OK))),
      g\<lparr>win := (win g)\<lparr>cw_hWndLab := we_lab env, cw_hWndEDIT := we_edit env, cw_hWndButton := we_button env,
          cw_hWndButtonBack := we_back env\<rparr>,
        shown := (shown g)\<lparr>dp_edit := [], dp_controls := True\<rparr>\<rparr>)"

text \<open>Showing the window: \<open>ShowWindow\<close> tells whether it was visible before.\<close>

definition show_window :: "window_env \<Rightarrow> globals \<Rightarrow> HRESULT \<times> globals" where
  "show_window env g =
     (let hr = (if \<not> we_show env then HRESULT_FROM_WIN32 (we_error env At_Show) else S_OK);
          g1 = set_controls False g
      in if SUCCEEDED hr then
           (if \<not> we_update env then HRESULT_FROM_WIN32 (we_error env At_Update) else hr, g1)
         else (hr, g1))"

definition InitInstance :: "window_env \<Rightarrow> globals \<Rightarrow> HRESULT \<times> globals" where
  "InitInstance env g =
     (let g1 = g\<lparr>win := (win g)\<lparr>cw_hWnd := we_hWnd env\<rparr>,
              shown := (if we_hWnd env = None then shown g else (shown g)\<lparr>dp_title := txt_device_init\<rparr>)\<rparr>;
          hr = (if we_hWnd env = None then HRESULT_FROM_WIN32 (we_error env At_CreateWindow) else S_OK)
      in if SUCCEEDED hr then
           (let (hr, g2) = create_controls env g1
            in if SUCCEEDED hr then show_window env g2 else (hr, g2))
         else (hr, g1))"

text \<open>Up to the message loop: the module, the class, the window; on failure the window is forgotten.\<close>

definition ThreadProc_start :: "window_env \<Rightarrow> globals \<Rightarrow> bool \<times> globals" where
  "ThreadProc_start env g =
     (let g1 = g\<lparr>win := (win g)\<lparr>cw_hInst := we_module env\<rparr>\<rparr>;
          (hr, g2) =
            (if we_module env \<noteq> None then
               (let hr = MyRegisterClass env in if SUCCEEDED hr then InitInstance env g1 else (hr, g1))
             else (HRESULT_FROM_WIN32 (we_error env At_Module), g1))
      in if SUCCEEDED hr then (True, g2)
         else (False, g2\<lparr>win := (win g2)\<lparr>cw_hWnd := None\<rparr>\<rparr>))"

text \<open>
  The message loop, on the messages that arrive, with the flag writes done after each one: the
  thread by itself.
\<close>

definition apply_write :: "flag_write \<Rightarrow> globals \<Rightarrow> globals" where
  "apply_write w g = (case w of Set_empPWCT b \<Rightarrow> g\<lparr>empPWCT := b\<rparr> | Set_boolGetBack b \<Rightarrow> g\<lparr>boolGetBack := b\<rparr>)"

fun message_loop :: "check_env \<Rightarrow> message list \<Rightarrow> globals \<Rightarrow> (bool \<times> globals) run" where
  "message_loop env [] g = Some (Inr (True, g))"
| "message_loop env (m # ms) g =
     bind_run (ProcessNextMessage env m g) (\<lambda>(go, posted, ws, g1).
       if go then message_loop env ms (fold apply_write ws g1)
       else Some (Inr (False, fold apply_write ws g1)))"

definition ThreadProc :: "window_env \<Rightarrow> check_env \<Rightarrow> message list \<Rightarrow> globals \<Rightarrow> (bool \<times> globals) run" where
  "ThreadProc wenv env ms g =
     (let (ok, g1) = ThreadProc_start wenv g
      in if ok then message_loop env ms g1 else Some (Inr (False, g1)))"

end
