(* ===== verification/Login_Loop.thy ===== *)
theory Login_Loop
  imports Window_Proc
begin

text \<open>
  \<open>CCommandWindow::GetConnectedStatus\<close>: the loop the logon process is held in until a card and its
  user's password have been accepted. Its sections are functions on the shared state, in the code's order: the
  initialisation that waits for the network, the look-up of a card, the check of a stored
  password, the records of a login and of an unknown card, the reopening of a lost serial line. \<open>Login_Steps\<close> puts them together with the other threads.
\<close>

text \<open>What the world answers in one pass of the loop.\<close>

record pass_env =
  pe_check :: check_env
  pe_exe :: string
  pe_file :: "string \<Rightarrow> string option"
  pe_machine :: machine_env
  pe_write :: write_env
  pe_port :: "string \<Rightarrow> open_env"

abbreviation pe_db :: "pass_env \<Rightarrow> db_server" where
  "pe_db env \<equiv> ck_db (pe_check env)"

section \<open>Initialisation\<close>

definition ping_file :: "string \<Rightarrow> string" where
  "ping_file exe = GetProgramDir exe @ CHR 0x5C # ''IPdat.txt''"

definition ping_command :: "string \<Rightarrow> string" where
  "ping_command filepath = ''cmd /c ping 192.168.0.7 -n 1 -w 1000 >'' @ filepath"

text \<open>Connecting and reading the gateway's settings.\<close>

definition load_settings :: "globals \<Rightarrow> globals" where
  "load_settings g = g\<lparr>
     BAip := mysqlBAip (DbTconn g),
     BALogoutdDirectory := mysqlBALogoutdDirectory (DbTconn g),
     BALogoutT := mysqlBALogoutT (DbTconn g),
     BALOginDirectory := mysqlBALOginDirectory (DbTconn g),
     BALLoginDt := mysqlBALLoginDt (DbTconn g)\<rparr>"

definition query_settings :: "pass_env \<Rightarrow> globals \<Rightarrow> globals res" where
  "query_settings env g =
     (let (_, c1) = initConnection (pe_db env) (DbTconn g)
      in bind_res (info_query (pe_db env) c1) (\<lambda>(ok, c2).
         let g1 = g\<lparr>DbTconn := c2, isOK := ok\<rparr>
         in Inr (if ok then load_settings g1 else g1)))"

text \<open>The network is there: log the machine off, mark it as off.\<close>

definition init_connected :: "pass_env \<Rightarrow> globals \<Rightarrow> globals run" where
  "init_connected env g =
     bind_run (Some (query_settings env (g\<lparr>initialization := False\<rparr>))) (\<lambda>g1.
     bind_run (if isOK g1 then getData (ck_fuel (pe_check env)) (ck_logout (pe_check env)) (BAip g1)
                 (BALogoutdDirectory g1) (BALogoutT g1)
               else Some (Inr ())) (\<lambda>_.
     bind_run (Some (MachineInfo (pe_machine env))) (\<lambda>info.
     let g2 = g1\<lparr>strGetMachineInfo := info, DbTconn := (DbTconn g1)\<lparr>GetCarNumber := []\<rparr>\<rparr>
     in bind_run (Some (user_Print (pe_db env) (strGetMachineInfo g2) (DbTconn g2))) (\<lambda>(ok, c).
        Some (set_texts txt_connected txt_present_card (g2\<lparr>DbTconn := c, isOK := ok\<rparr>))))))"

text \<open>
  One round of the inner loop. The command's string is longer than the string object's own buffer, so its
  characters are an allocation of the object; the round ends by deleting that allocation, and the
  next assignment to the object, which releases it again, has no defined behaviour.
\<close>

definition init_pass :: "pass_env \<Rightarrow> globals \<Rightarrow> globals run" where
  "init_pass env g =
     (if strCMD_deleted g then Some (Inl UndefinedBehaviour)
      else
        bind_run (Some (AnalysisFile (pe_file env (ping_file (pe_exe env))))) (\<lambda>returndata.
        bind_run
          (if returndata then init_connected env g
           else Some (set_texts txt_network_init txt_network_wait (g\<lparr>initialization := True\<rparr>))) (\<lambda>g1.
        Some (Inr (g1\<lparr>strCMD_deleted := True\<rparr>)))))"

section \<open>A card\<close>

datatype card_result = Retry | Unknown | Found

text \<open>When the settings cannot be read the pass is repeated; the card stays.\<close>

definition card_lookup :: "pass_env \<Rightarrow> globals \<Rightarrow> (card_result \<times> globals) res" where
  "card_lookup env g =
     bind_res (query_settings env g) (\<lambda>g1.
     if \<not> isOK g1 then Inr (Retry, g1)
     else bind_res (user_query (pe_db env) (Readinfo (rx g1)) (DbTconn g1)) (\<lambda>(ok, c).
       let g2 = g1\<lparr>DbTconn := c, isOK := ok\<rparr>
       in if ok then Inr (Found, g2\<lparr>strlogUser := GetUserNames c, strlogUserPW := GetUserPW c\<rparr>)
          else Inr (Unknown, g2)))"

text \<open>A user without password is asked for one.\<close>

definition ask_first_password :: "globals \<Rightarrow> globals res" where
  "ask_first_password g = bind_res (set_texts txt_enter_password [] g) (\<lambda>g1. Inr (set_controls True g1))"

text \<open>A stored password goes to the gateway as it is; what follows its answer, and whether it was accepted.\<close>

definition judge_stored_password :: "globals \<Rightarrow> (bool \<times> globals) run" where
  "judge_stored_password g1 =
     (let g2 = g1\<lparr>empPWCT := True\<rparr>
      in if BoolHttpback g2 then
           bind_run (Some (set_texts txt_verified txt_logging_in g2)) (\<lambda>g3.
           Some (Inr (True, (set_controls False g3)\<lparr>empPWCT := False, boolGetBack := False\<rparr>)))
         else
           bind_run (Some (set_texts txt_rejected txt_password_please (set_controls True g2))) (\<lambda>g3.
           Some (Inr (False, g3))))"

definition check_stored_password :: "pass_env \<Rightarrow> globals \<Rightarrow> (bool \<times> globals) run" where
  "check_stored_password env g =
     bind_run (gateway_check (pe_check env) (strlogUserPW g) g) judge_stored_password"

section \<open>Records\<close>

definition login_format :: string where
  "login_format =
     ''insert into loginTable(CarNumber,UserName,NickName, DTime,MachineName,MachineIP,MachineMAC) values( '' @ quoted_s @
     '','' @ quoted_s @ '','' @ quoted_s @ '','' @ quoted_s @ '','' @ quoted_s @ '','' @ quoted_s @ '','' @ quoted_s @ '');''"

definition login_failed_format :: string where
  "login_failed_format =
     ''insert into loginFTable(CarNumber, DTime,MachineName,MachineIP,MachineMAC) values('' @ quoted_s @
     '','' @ quoted_s @ '','' @ quoted_s @ '','' @ quoted_s @ '','' @ quoted_s @ '');''"

definition record_login :: "pass_env \<Rightarrow> globals \<Rightarrow> globals res" where
  "record_login env g =
     bind_res (MachineInfo (pe_machine env)) (\<lambda>info.
     bind_res (strcpy_s 250 info) (\<lambda>chGetMachineInfo.
     let g1 = g\<lparr>strGetMachineInfo := info\<rparr>;
         (sqlTime, sqlMachineName, sqlIP, sqlMAC) = split_info chGetMachineInfo
     in bind_res (user_Print (pe_db env) info (DbTconn g1)) (\<lambda>(_, c).
        bind_res (sprintf_s 500 login_format
          [Some (GetCarNumber c), Some (GetUserNames c), Some (GetNickNume c), sqlTime, sqlMachineName, sqlIP, sqlMAC]) (\<lambda>strSQL.
        bind_res (user_insert (pe_db env) strSQL c) (\<lambda>(ok, c1).
        Inr (g1\<lparr>DbTconn := c1, isOK := ok\<rparr>))))))"

text \<open>The login is recorded: close the line, forget the user.\<close>

definition login_done :: "globals \<Rightarrow> globals res" where
  "login_done g =
     set_texts txt_authenticated txt_authenticated_login
       (g\<lparr>SerialCom := snd (UninitCOM (SerialCom g)),
          win := (win g)\<lparr>cw_fConnected := True\<rparr>,
          DbTconn := (DbTconn g)\<lparr>GetCarNumber := [], GetUserNames := [], GetNickNume := []\<rparr>\<rparr>)"

definition login_not_recorded :: "globals \<Rightarrow> globals res" where
  "login_not_recorded g = set_texts txt_no_database txt_login_failed g"

definition clear_card :: "globals \<Rightarrow> globals" where
  "clear_card g = g\<lparr>rx := (rx g)\<lparr>Readinfo := []\<rparr>\<rparr>"

text \<open>An unknown card: ask the reader for the next one, record the failure.\<close>

definition record_unknown :: "pass_env \<Rightarrow> globals \<Rightarrow> globals res" where
  "record_unknown env g =
     bind_res (set_texts txt_unknown txt_unknown_again g) (\<lambda>g1.
     let (ok, len', _) = ComWrite (pe_write env) chData (len g1);
         g2 = g1\<lparr>SerialWr := ok, len := len'\<rparr>
     in bind_res (MachineInfo (pe_machine env)) (\<lambda>info.
        bind_res (strcpy_s 250 info) (\<lambda>chGetMachineInfo.
        let g3 = g2\<lparr>strGetMachineInfo := info\<rparr>;
            (sqlTime, sqlMachineName, sqlIP, sqlMAC) = split_info chGetMachineInfo
        in bind_res (sprintf_s 500 login_failed_format
             [Some (GetCarNumber (DbTconn g3)), sqlTime, sqlMachineName, sqlIP, sqlMAC]) (\<lambda>strSQL.
           bind_res (user_insert (pe_db env) strSQL (DbTconn g3)) (\<lambda>(ok, c).
           Inr (g3\<lparr>DbTconn := c, isOK := ok\<rparr>))))))"

section \<open>The serial line\<close>

definition reconnect :: "pass_env \<Rightarrow> globals \<Rightarrow> globals res" where
  "reconnect env g =
     bind_res (set_texts txt_line_broken txt_line_broken_text (g\<lparr>SerialCom := snd (UninitCOM (SerialCom g))\<rparr>)) (\<lambda>g1.
     if length (strCom g1) = 0 then Inl (ProcessExit (- 1))
     else
       (let (ok, com) = InitCOM (pe_port env (c_str (strCom g1))) (SerialCom g1);
            g2 = g1\<lparr>SerialIN := ok, SerialCom := com\<rparr>
        in if ok then
             bind_res (set_texts txt_connected_bang txt_present_card g2) (\<lambda>g3.
             Inr (g3\<lparr>rx := (rx g3)\<lparr>isopenCOM := 0\<rparr>\<rparr>))
           else Inr g2))"

end
