(* ===== verification/MySql_Correct.thy ===== *)
theory MySql_Correct
  imports MySql_Conn
begin

text \<open>
  What \<open>MySqlConn.cpp\<close> sends and concludes: the card look-up and how its statement is read by
  the server, the limits of the record statements, the print table, the gateway's configuration.
\<close>

section \<open>Statements\<close>

text \<open>A double-quoted field of a statement.\<close>

definition qs :: "string \<Rightarrow> string" where
  "qs s = CHR 0x22 # s @ [CHR 0x22]"

lemma fmt_field:
  "CHR ''%'' \<notin> set l \<Longrightarrow> fmt (l @ CHR ''%'' # CHR ''s'' # f) (Some a # as) = bind_res (fmt f as) (\<lambda>t. Inr (l @ a @ t))"
  by (simp add: fmt_lit) (cases "fmt f as"; simp)

lemma fmt_field_null: "CHR ''%'' \<notin> set l \<Longrightarrow> fmt (l @ CHR ''%'' # CHR ''s'' # f) (None # as) = Inl UndefinedBehaviour"
  by (simp add: fmt_lit)

definition query_prefix :: string where
  "query_prefix = ''select id,CarNumber,UserName,nickname,AES_DECRYPT(UserPW ,'' @ [CHR 0x27] @ ''Dust'' @ [CHR 0x27] @
     '')as UserPW  from CarTable where CarNumber='' @ [CHR 0x22]"

lemma user_query_format_split:
  "user_query_format = query_prefix @ CHR ''%'' # CHR ''s'' # [CHR 0x22, CHR '' '']"
  by (simp add: user_query_format_def query_prefix_def)

lemma query_prefix_facts: "CHR ''%'' \<notin> set query_prefix" "CHR 0x00 \<notin> set query_prefix" "length query_prefix = 107"
  by (simp_all add: query_prefix_def)

definition query_for :: "string \<Rightarrow> string" where
  "query_for cn = query_prefix @ cn @ [CHR 0x22, CHR '' '']"

lemma user_query_statement:
  "length cn \<le> 140 \<Longrightarrow> sprintf_s 255 user_query_format [Some cn] = Inr (query_for cn)"
  by (simp add: sprintf_s_def user_query_format_split fmt_field query_prefix_facts query_for_def)

lemma query_for_c_str: "CHR 0x00 \<notin> set cn \<Longrightarrow> c_str (query_for cn) = query_for cn"
  by (rule c_str_id) (auto simp: query_for_def query_prefix_facts)

section \<open>The card look-up\<close>

text \<open>What the server answers to the look-up of a card after the statements sent so far.\<close>

definition answer :: "db_server \<Rightarrow> mysql_conn \<Rightarrow> string \<Rightarrow> sql_row list option" where
  "answer db c cn =
     (if db_ok db (sent c @ [set_names]) (query_for cn)
      then db_rows db (sent c @ [set_names]) (query_for cn) else None)"

definition after_query :: "mysql_conn \<Rightarrow> string \<Rightarrow> mysql_conn" where
  "after_query c cn = c\<lparr>sent := sent c @ [set_names, query_for cn]\<rparr>"

lemma set_names_c_str [simp]: "c_str set_names = set_names"
  by (rule c_str_id) (simp add: set_names_def)

lemma user_query_eq:
  assumes "CHR 0x00 \<notin> set cn" and "length cn \<le> 140"
    and "\<forall>rows. answer db c cn = Some rows \<longrightarrow> list_all (\<lambda>r. length r = 5) rows"
  shows "user_query db cn c =
    (case answer db c cn of
       None \<Rightarrow> Inr (False, after_query c cn)
     | Some rows \<Rightarrow>
         if length rows \<noteq> 1
         then Inr (False, (after_query c cn)\<lparr>GetCarNumber := cn, results_open := Suc (results_open c)\<rparr>)
         else if None \<in> {hd rows ! 1, hd rows ! 2, hd rows ! 3} then Inl NullDeref
         else Inr (True, (after_query c cn)\<lparr>GetCarNumber := c_str (the (hd rows ! 1)),
           GetUserNames := c_str (the (hd rows ! 2)), GetNickNume := c_str (the (hd rows ! 3)),
           GetUserPW := (case hd rows ! 4 of None \<Rightarrow> [] | Some s \<Rightarrow> c_str s)\<rparr>))"
proof -
  note [simp] = user_query_def user_query_statement [OF assms(2)] c_str_id [OF assms(1)] mysql_query_def query_for_c_str [OF assms(1)] mysql_store_result_def
    after_query_def mysql_free_result_def cell_def Let_def
  show ?thesis
  proof (cases "answer db c cn")
    case None
    then have "\<not> db_ok db (sent c @ [set_names]) (query_for cn) \<or>
        db_rows db (sent c @ [set_names]) (query_for cn) = None" by (auto simp: answer_def split: if_splits)
    then show ?thesis unfolding None by (auto simp: butlast_append)
  next
    case (Some rows)
    then have r: "db_ok db (sent c @ [set_names]) (query_for cn)"
      "db_rows db (sent c @ [set_names]) (query_for cn) = Some rows" by (auto simp: answer_def split: if_splits)
    have l: "length rows = 1 \<Longrightarrow> length (hd rows) = 5"
      using assms(3) Some by (cases rows) auto
    note [simp] = r butlast_append
    show ?thesis
    proof (cases "length rows = 1")
      case False
      then show ?thesis unfolding Some by simp
    next
      case True
      then have "length (hd rows) = 5" by (rule l)
      with True show ?thesis unfolding Some
        by (cases "hd rows ! 1"; cases "hd rows ! 2"; cases "hd rows ! 3") simp_all
    qed
  qed
qed

text \<open>C5: \<open>user_query\<close>. For a card number of at most 140 characters without NUL, and a server
  whose rows have the five columns selected, it sends the two statements and returns true exactly when
  the server delivers one row, whose columns 1 to 3 then become the card, user and nick
  name and whose column 4, or the empty string when it is NULL, the password, and the result set is
  freed; otherwise it returns false, keeps the user of the previous look-up and, when there was a
  result set, remembers the card and leaves the set allocated. A NULL in columns 1 to 3 is
  dereferenced.\<close>

theorem user_query_spec:
  assumes "CHR 0x00 \<notin> set cn" and "length cn \<le> 140"
    and "\<forall>rows. answer db c cn = Some rows \<longrightarrow> list_all (\<lambda>r. length r = 5) rows"
  shows "user_query db cn c =
    (case answer db c cn of
       None \<Rightarrow> Inr (False, after_query c cn)
     | Some rows \<Rightarrow>
         if length rows \<noteq> 1
         then Inr (False, (after_query c cn)\<lparr>GetCarNumber := cn, results_open := Suc (results_open c)\<rparr>)
         else if None \<in> {hd rows ! 1, hd rows ! 2, hd rows ! 3} then Inl NullDeref
         else Inr (True, (after_query c cn)\<lparr>GetCarNumber := c_str (the (hd rows ! 1)),
           GetUserNames := c_str (the (hd rows ! 2)), GetNickNume := c_str (the (hd rows ! 3)),
           GetUserPW := (case hd rows ! 4 of None \<Rightarrow> [] | Some s \<Rightarrow> c_str s)\<rparr>))"
  by (rule user_query_eq [OF assms])

text \<open>A server for closed examples: every statement succeeds with the given rows.\<close>

definition example_db :: "sql_row list \<Rightarrow> db_server" where
  "example_db rows = \<lparr>db_connects = (\<lambda>_. True), db_ok = (\<lambda>_ _. True), db_rows = (\<lambda>_ _. Some rows)\<rparr>"

theorem user_query_spec_witness:
  "user_query (example_db [[Some ''1'', Some ''C'', Some ''bob'', Some ''Bob'', None]]) ''C'' MySqlConn_new =
     Inr (True, (after_query MySqlConn_new ''C'')\<lparr>GetCarNumber := ''C'', GetUserNames := ''bob'', GetNickNume := ''Bob''\<rparr>) \<and>
   user_query (example_db []) ''C'' MySqlConn_new =
     Inr (False, (after_query MySqlConn_new ''C'')\<lparr>GetCarNumber := ''C'', results_open := 1\<rparr>)"
proof -
  have a: "answer (example_db rows) MySqlConn_new ''C'' = Some rows" for rows
    by (simp add: answer_def example_db_def)
  have u: "user_query (example_db rows) ''C'' MySqlConn_new =
    (if length rows \<noteq> 1
         then Inr (False, (after_query MySqlConn_new ''C'')\<lparr>GetCarNumber := ''C'', results_open := Suc 0\<rparr>)
         else if None \<in> {hd rows ! 1, hd rows ! 2, hd rows ! 3} then Inl NullDeref
         else Inr (True, (after_query MySqlConn_new ''C'')\<lparr>GetCarNumber := c_str (the (hd rows ! 1)),
           GetUserNames := c_str (the (hd rows ! 2)), GetNickNume := c_str (the (hd rows ! 3)),
           GetUserPW := (case hd rows ! 4 of None \<Rightarrow> [] | Some s \<Rightarrow> c_str s)\<rparr>))"
    if "list_all (\<lambda>r. length r = 5) rows" for rows
    using user_query_spec [of "''C''" "example_db rows" MySqlConn_new] that
    by (simp add: a) (simp add: MySqlConn_new_def)
  show ?thesis by (simp add: u c_str_def) (simp add: after_query_def MySqlConn_new_def)
qed

section \<open>How the server reads the card number\<close>

text \<open>
  MySQL's double-quoted literals are a parameter: \<open>lit\<close> gives, from behind the opening quote, the value
  of the literal and the rest of the text, and \<open>esc\<close> what a backslash and a character stand for. Its laws
  are the rules of the reference manual (String Literals, in the default mode): a backslash escapes the next
  character, which yields one character, but stays in front of a percent sign or an underscore; a doubled quote is a
  quote; a single one ends the literal; a literal without an end is none.
\<close>

definition string_literals :: "(string \<Rightarrow> (string \<times> string) option) \<Rightarrow> (char \<Rightarrow> string) \<Rightarrow> bool" where
  "string_literals lit esc \<longleftrightarrow>
     (\<forall>d. if d = CHR ''%'' \<or> d = CHR ''_'' then esc d = [CHR 0x5C, d] else length (esc d) = 1) \<and>
     lit [] = None \<and> lit [CHR 0x5C] = None \<and> lit [CHR 0x22] = Some ([], []) \<and>
     (\<forall>d r. lit (CHR 0x5C # d # r) = map_option (\<lambda>(l, z). (esc d @ l, z)) (lit r)) \<and>
     (\<forall>d r. lit (CHR 0x22 # d # r) =
        (if d = CHR 0x22 then map_option (\<lambda>(l, z). (CHR 0x22 # l, z)) (lit r) else Some ([], d # r))) \<and>
     (\<forall>c r. c \<noteq> CHR 0x5C \<longrightarrow> c \<noteq> CHR 0x22 \<longrightarrow> lit (c # r) = map_option (\<lambda>(l, z). (c # l, z)) (lit r))"

lemma string_literalsD:
  assumes "string_literals lit esc"
  shows "d = CHR ''%'' \<or> d = CHR ''_'' \<Longrightarrow> esc d = [CHR 0x5C, d]"
    and "d \<noteq> CHR ''%'' \<Longrightarrow> d \<noteq> CHR ''_'' \<Longrightarrow> length (esc d) = 1"
    and "lit [] = None" "lit [CHR 0x5C] = None" "lit [CHR 0x22] = Some ([], [])"
    and "lit (CHR 0x5C # d # r) = map_option (\<lambda>(l, z). (esc d @ l, z)) (lit r)"
    and "lit (CHR 0x22 # d # r) =
      (if d = CHR 0x22 then map_option (\<lambda>(l, z). (CHR 0x22 # l, z)) (lit r) else Some ([], d # r))"
    and "c \<noteq> CHR 0x5C \<Longrightarrow> c \<noteq> CHR 0x22 \<Longrightarrow> lit (c # r) = map_option (\<lambda>(l, z). (c # l, z)) (lit r)"
  using assms unfolding string_literals_def by (auto split: if_splits)

text \<open>A literal's value is no longer than its text.\<close>

lemma literal_length:
  assumes lit: "string_literals lit esc"
  shows "lit s = Some (l, r) \<Longrightarrow> length l + length r < length s"
proof (induction s arbitrary: l r rule: length_induct)
  case (1 s)
  note L = string_literalsD [OF lit]
  have e: "length (esc d) \<le> 2" for d using L(1,2) [of d] by fastforce
  have IH: "lit t = Some (m, q) \<Longrightarrow> length t < length s \<Longrightarrow> length m + length q < length t" for t m q using 1(1) by blast
  show ?case
  proof (cases s)
    case Nil
    with 1(2) L(3) show ?thesis by simp
  next
    case (Cons c t)
    consider "c \<noteq> CHR 0x5C" "c \<noteq> CHR 0x22" | "c = CHR 0x5C \<or> c = CHR 0x22" "t = []"
      | d t' where "c = CHR 0x5C" "t = d # t'" | d t' where "c = CHR 0x22" "t = d # t'"
      by (cases t) auto
    then show ?thesis
    proof cases
      case 1
      with \<open>lit s = Some (l, r)\<close> Cons L(8) [of c t] IH [of t] show ?thesis by auto
    next
      case 2
      with \<open>lit s = Some (l, r)\<close> Cons L(4,5) show ?thesis by auto
    next
      case (3 d t')
      with \<open>lit s = Some (l, r)\<close> Cons obtain m where m: "lit t' = Some (m, r)" "l = esc d @ m"
        by (auto simp: L(6))
      with IH [of t' m r] Cons 3 e [of d] show ?thesis by simp
    next
      case (4 d t')
      with \<open>lit s = Some (l, r)\<close> Cons IH [of t'] show ?thesis by (fastforce simp: L(7) split: if_splits)
    qed
  qed
qed

text \<open>Text that reads as itself: no quote, and no backslash but in front of a percent sign or an underscore.\<close>

fun verbatim :: "string \<Rightarrow> bool" where
  "verbatim [] = True"
| "verbatim (c # r) =
     (if c = CHR 0x5C then (case r of [] \<Rightarrow> False | d # r' \<Rightarrow> (d = CHR ''%'' \<or> d = CHR ''_'') \<and> verbatim r')
      else c \<noteq> CHR 0x22 \<and> verbatim r)"

lemma literal_verbatim:
  assumes lit: "string_literals lit esc" and z: "z \<noteq> []" "hd z \<noteq> CHR 0x22"
  shows "lit (cn @ CHR 0x22 # z) = Some (cn, z) \<longleftrightarrow> verbatim cn"
proof (induction cn rule: verbatim.induct)
  case 1
  with z show ?case by (cases z) (simp_all add: string_literalsD(7) [OF lit])
next
  case (2 c r)
  note L = string_literalsD [OF lit] and len = literal_length [OF lit]
  have no: "lit z \<noteq> Some (l, z)" for l using len [of z l z] by auto
  have short: "lit (t @ CHR 0x22 # z) \<noteq> Some (l, z)" if "length t < length l" for t l
    using len [of "t @ CHR 0x22 # z" l z] that by auto
  consider "c \<noteq> CHR 0x5C" "c \<noteq> CHR 0x22" | "c = CHR 0x5C \<or> c = CHR 0x22" "r = []"
    | d r' where "c = CHR 0x5C" "r = d # r'" | d r' where "c = CHR 0x22" "r = d # r'"
    by (cases r) auto
  then show ?case
  proof cases
    case 1
    with 2(2) show ?thesis by (auto simp: L(8))
  next
    case c: 2
    then show ?thesis using no by (auto simp: L(6,7))
  next
    case (3 d r')
    show ?thesis
    proof (cases "d = CHR ''%'' \<or> d = CHR ''_''")
      case True
      with 3 2(1) L(1) [OF True] show ?thesis by (auto simp: L(6))
    next
      case False
      then have "length (esc d) = 1" using L(2) by blast
      then obtain x where "esc d = [x]" by (auto simp: length_Suc_conv)
      with 3 False short [of r' "d # r'"] show ?thesis by (auto simp: L(6))
    qed
  next
    case (4 d r')
    with short [of r' "d # r'"] show ?thesis by (auto simp: L(7))
  qed
qed

lemma user_query_sent:
  assumes "CHR 0x00 \<notin> set cn" and "length cn \<le> 140" and "user_query db cn c = Inr (ok, c')"
  shows "sent c' = sent c @ [set_names, query_for cn]"
  using assms(3)
  by (auto simp: user_query_def user_query_statement [OF assms(2)] c_str_id [OF assms(1)] mysql_query_def
      query_for_c_str [OF assms(1)] mysql_store_result_def mysql_free_result_def Let_def
      elim!: bind_resE split: option.splits if_splits)

text \<open>C20: the card number is not escaped. The second statement \<open>user_query\<close> sends is a fixed text up to an
  opening quote; what the server reads behind it is the card number, with nothing but a blank behind the literal,
  exactly when the card number contains no double quote, and no backslash except in front of a percent sign or an
  underscore. A reader that delivers any other number of 32 characters changes the statement itself.\<close>

theorem card_literal_injection:
  assumes "string_literals lit esc" and "CHR 0x00 \<notin> set cn" and "length cn \<le> 140"
    and "user_query db cn c = Inr (ok, c')"
  shows "\<exists>q. sent c' = sent c @ [set_names, query_prefix @ q] \<and> (lit q = Some (cn, '' '') \<longleftrightarrow> verbatim cn)"
  using user_query_sent [OF assms(2-4)] literal_verbatim [OF assms(1), of "'' ''" cn]
  by (intro exI [of _ "cn @ [CHR 0x22, CHR '' '']"]) (simp add: query_for_def)

text \<open>The literals of the manual, and a card of 32 characters that reads as an empty one with a condition behind it.\<close>

definition mysql_escape :: "char \<Rightarrow> string" where
  "mysql_escape d =
     (if d = CHR ''%'' \<or> d = CHR ''_'' then [CHR 0x5C, d]
      else if d = CHR ''0'' then [CHR 0x00] else if d = CHR ''b'' then [CHR 0x08] else if d = CHR ''n'' then [CHR 0x0A]
      else if d = CHR ''r'' then [CHR 0x0D] else if d = CHR ''t'' then [CHR 0x09] else if d = CHR ''Z'' then [CHR 0x1A]
      else [d])"

fun read_literal :: "string \<Rightarrow> (string \<times> string) option" where
  "read_literal [] = None"
| "read_literal (c # r) =
     (if c = CHR 0x5C then
        (case r of [] \<Rightarrow> None | d # r' \<Rightarrow> map_option (\<lambda>(l, z). (mysql_escape d @ l, z)) (read_literal r'))
      else if c = CHR 0x22 then
        (case r of
           [] \<Rightarrow> Some ([], r)
         | d # r' \<Rightarrow>
             if d = CHR 0x22 then map_option (\<lambda>(l, z). (CHR 0x22 # l, z)) (read_literal r')
             else Some ([], r))
      else map_option (\<lambda>(l, z). (c # l, z)) (read_literal r))"

lemma read_literal_literals: "string_literals read_literal mysql_escape"
  by (simp add: string_literals_def mysql_escape_def)

definition injecting_card :: string where
  "injecting_card = [CHR 0x22] @ '' or id=1 or CarNumber='' @ [CHR 0x22] @ ''AAAAAAAA''"

theorem card_literal_injection_witness:
  "\<exists>c' q. length injecting_card = 32 \<and> user_query (example_db []) injecting_card MySqlConn_new = Inr (False, c') \<and>
     sent c' = [set_names, query_prefix @ q] \<and> read_literal q \<noteq> Some (injecting_card, '' '') \<and>
     read_literal q = Some ([], '' or id=1 or CarNumber='' @ [CHR 0x22] @ ''AAAAAAAA'' @ [CHR 0x22, CHR '' ''])"
proof -
  have l: "length injecting_card = 32" "CHR 0x00 \<notin> set injecting_card" "length injecting_card \<le> 140"
    and n: "\<not> verbatim injecting_card" by (simp_all add: injecting_card_def)
  have a: "answer (example_db []) MySqlConn_new injecting_card = Some []" by (simp add: answer_def example_db_def)
  obtain c' where c': "user_query (example_db []) injecting_card MySqlConn_new = Inr (False, c')"
    using user_query_eq [OF l(2,3), of "example_db []" MySqlConn_new] by (auto simp: a)
  from card_literal_injection [OF read_literal_literals l(2,3) c'] obtain q where
    t: "sent c' = sent MySqlConn_new @ [set_names, query_prefix @ q]"
       "read_literal q = Some (injecting_card, '' '') \<longleftrightarrow> verbatim injecting_card" by blast
  have "q = injecting_card @ [CHR 0x22, CHR '' '']"
    using t(1) user_query_sent [OF l(2,3) c'] by (simp add: query_for_def)
  then have "read_literal q = Some ([], '' or id=1 or CarNumber='' @ [CHR 0x22] @ ''AAAAAAAA'' @ [CHR 0x22, CHR '' ''])"
    by (simp add: injecting_card_def)
  with t n c' l(1) show ?thesis by (intro exI [of _ c'] exI [of _ q]) (simp add: MySqlConn_new_def)
qed

section \<open>Records\<close>

lemma user_insert_plain:
  "CHR 0x00 \<notin> set stmt \<Longrightarrow> CHR ''%'' \<notin> set stmt \<Longrightarrow>
     user_insert db stmt c =
       (if 255 \<le> length stmt then Inl InvalidParameter
        else Inr (db_ok db (sent c @ [set_names]) stmt, c\<lparr>sent := sent c @ [set_names, stmt]\<rparr>))"
  by (simp add: user_insert_def mysql_query_def sprintf_s_def c_str_id fmt_plain)

text \<open>A text with every percent sign doubled, which is how \<open>sprintf_s\<close> reads a percent sign.\<close>

definition doubled :: "string \<Rightarrow> string" where
  "doubled t = concat (map (\<lambda>c. if c = CHR ''%'' then [c, c] else [c]) t)"

lemma doubled_simps [simp]:
  "doubled [] = []" "doubled (c # t) = (if c = CHR ''%'' then c # c # doubled t else c # doubled t)"
  by (simp_all add: doubled_def)

lemma doubled_plain: "CHR ''%'' \<notin> set t \<Longrightarrow> doubled t = t"
  by (induction t) auto

lemma set_doubled: "set (doubled t) = set t"
  by (auto simp: doubled_def)

lemma fmt_doubled: "fmt (doubled t) [] = Inr t"
  by (induction t) simp_all

lemma fmt_no_arguments: "fmt s [] = Inl UndefinedBehaviour \<or> (\<exists>t. fmt s [] = Inr t \<and> s = doubled t)"
proof (induction s "[] :: string option list" rule: fmt.induct)
  case 1
  then show ?case by simp
next
  case (2 c r)
  show ?case
  proof (cases "c = CHR ''%''")
    case False
    with 2(1) show ?thesis by (auto intro: exI [of _ "c # _"])
  next
    case c: True
    show ?thesis
    proof (cases r)
      case Nil
      with c show ?thesis by simp
    next
      case (Cons d r')
      show ?thesis
      proof (cases "d = CHR ''%''")
        case True
        with 2(2) c Cons show ?thesis by (auto intro: exI [of _ "CHR ''%'' # _"])
      qed (use c Cons in \<open>simp\<close>)
    qed
  qed
qed

text \<open>C25: \<open>user_insert\<close> passes the statement through a formatted copy of 255 bytes, the statement being the
  format. What it sends is the statement with every doubled percent sign made a single one, if all its percent signs
  are doubled and at most 254 characters are left; if more are left it stops the process (the login
  loop builds up to 499); any other statement, with a percent sign by itself as a name or password may contain, has
  no defined behaviour. A statement without percent sign is sent as it is.\<close>

theorem insert_statement_limits:
  "(\<forall>t. c_str chSQL = doubled t \<longrightarrow> user_insert db chSQL c =
      (if 255 \<le> length t then Inl InvalidParameter
       else Inr (db_ok db (sent c @ [set_names]) t, c\<lparr>sent := sent c @ [set_names, t]\<rparr>))) \<and>
   ((\<forall>t. c_str chSQL \<noteq> doubled t) \<longrightarrow> user_insert db chSQL c = Inl UndefinedBehaviour) \<and>
   (CHR ''%'' \<notin> set (c_str chSQL) \<longrightarrow> c_str chSQL = doubled (c_str chSQL))"
proof (intro conjI allI impI)
  fix t
  assume t: "c_str chSQL = doubled t"
  have "CHR 0x00 \<notin> set (c_str chSQL)" by simp
  then have "CHR 0x00 \<notin> set t" unfolding t by (simp add: set_doubled)
  then show "user_insert db chSQL c = (if 255 \<le> length t then Inl InvalidParameter
      else Inr (db_ok db (sent c @ [set_names]) t, c\<lparr>sent := sent c @ [set_names, t]\<rparr>))"
    by (simp add: user_insert_def mysql_query_def sprintf_s_def t fmt_doubled c_str_id)
next
  assume "\<forall>t. c_str chSQL \<noteq> doubled t"
  then have "fmt (c_str chSQL) [] = Inl UndefinedBehaviour" using fmt_no_arguments by blast
  then show "user_insert db chSQL c = Inl UndefinedBehaviour"
    by (simp add: user_insert_def mysql_query_def sprintf_s_def)
qed (simp add: doubled_plain)

theorem insert_statement_limits_witness:
  "user_insert (example_db []) (replicate 255 CHR ''a'') MySqlConn_new = Inl InvalidParameter \<and>
   user_insert (example_db []) ''5%%'' MySqlConn_new = Inr (True, MySqlConn_new\<lparr>sent := [set_names, ''5%'']\<rparr>) \<and>
   user_insert (example_db []) ''5%'' MySqlConn_new = Inl UndefinedBehaviour"
proof -
  note spec = insert_statement_limits [of _ "example_db []" MySqlConn_new]
  have "c_str (replicate 255 CHR ''a'') = doubled (replicate 255 CHR ''a'')" "c_str ''5%%'' = doubled ''5%''"
    by (simp_all add: c_str_def doubled_plain)
  note d = this
  have n: "c_str ''5%'' \<noteq> doubled t" for t
  proof (cases t)
    case (Cons a t')
    then show ?thesis by (cases t') (auto simp: c_str_def)
  qed (simp add: c_str_def)
  have e: "db_ok (example_db []) h q" "sent MySqlConn_new = []" for h q by (simp_all add: example_db_def MySqlConn_new_def)
  have "user_insert (example_db []) (replicate 255 CHR ''a'') MySqlConn_new = Inl InvalidParameter"
    using conjunct1 [OF spec, rule_format, OF d(1)] by simp
  moreover have "user_insert (example_db []) ''5%%'' MySqlConn_new = Inr (True, MySqlConn_new\<lparr>sent := [set_names, ''5%'']\<rparr>)"
    using conjunct1 [OF spec, rule_format, OF d(2)] by (simp add: e)
  moreover have "user_insert (example_db []) ''5%'' MySqlConn_new = Inl UndefinedBehaviour"
    using spec [of "''5%''"] n by blast
  ultimately show ?thesis by blast
qed

section \<open>The print table\<close>

text \<open>Machine information: four non-empty fields without the separator.\<close>

definition info_field :: "string \<Rightarrow> bool" where
  "info_field s \<longleftrightarrow> s \<noteq> [] \<and> CHR ''^'' \<notin> set s \<and> CHR 0x00 \<notin> set s"

definition machine_info :: "string \<Rightarrow> string \<Rightarrow> string \<Rightarrow> string \<Rightarrow> string" where
  "machine_info t n i m = t @ CHR ''^'' # n @ CHR ''^'' # i @ CHR ''^'' # m"

lemma split_machine_info:
  "info_field t \<Longrightarrow> info_field n \<Longrightarrow> info_field i \<Longrightarrow> info_field m \<Longrightarrow>
     split_info (machine_info t n i m) = (Some t, Some n, Some i, Some m)"
  by (simp add: split_info_def machine_info_def info_field_def strtok_token strtok_last)

definition print_select :: "string \<Rightarrow> string" where
  "print_select m = ''select * from PrintUser where MachineMAC='' @ [CHR 0x27] @ m @ [CHR 0x27]"

text \<open>The statement that marks the machine: whether it is known decides between update and insert, and
  whether a card is present between "on" with the user and "off".\<close>

definition print_stmt ::
  "bool \<Rightarrow> string \<Rightarrow> string \<Rightarrow> string \<Rightarrow> string \<Rightarrow> string \<Rightarrow> string \<Rightarrow> string \<Rightarrow> string" where
  "print_stmt known t n i m cn nick user =
     (if known then
        (if cn = [] then ''update PrintUser set PuTime='' @ qs t @ '',PrintMark='' @ qs ''off'' @ ''  where MachineMAC='' @ qs m
         else ''update PrintUser set MachineName='' @ qs n @ '',MachineIP='' @ qs i @ '',CarNumber='' @ qs cn @
              '',PrintUserNickName='' @ qs nick @ '',PrintUserName='' @ qs user @ '',PuTime='' @ qs t @
              '',PrintMark='' @ qs ''on'' @ ''  where MachineMAC='' @ qs m)
      else
        (if cn = [] then ''insert into PrintUser(MachineName,MachineMAC,MachineIP,PuTime,PrintMark)values( '' @
              qs n @ '','' @ qs m @ '','' @ qs i @ '','' @ qs t @ '','' @ qs ''off'' @ '');''
         else ''insert into PrintUser(MachineName,MachineMAC,MachineIP,CarNumber,PrintUserNickName,PrintUserName,PuTime,PrintMark)values( '' @
              qs n @ '','' @ qs m @ '','' @ qs i @ '','' @ qs cn @ '','' @ qs nick @ '','' @ qs user @ '','' @ qs t @
              '','' @ qs ''on'' @ '');''))"

lemma bind_assoc_Inr: "bind_res (bind_res x f) g = bind_res x (\<lambda>y. bind_res (f y) g)"
  by (cases x) auto

lemma print_formats:
  "fmt print_select_format [Some m] = Inr (print_select m)"
  "fmt print_update_off_format [Some t, Some ''off'', Some m] = Inr (print_stmt True t n i m [] nick user)"
  "fmt print_insert_off_format [Some n, Some m, Some i, Some t, Some ''off''] = Inr (print_stmt False t n i m [] nick user)"
  "cn \<noteq> [] \<Longrightarrow> fmt print_update_on_format [Some n, Some i, Some cn, Some nick, Some user, Some t, Some ''on'', Some m]
     = Inr (print_stmt True t n i m cn nick user)"
  "cn \<noteq> [] \<Longrightarrow> fmt print_insert_on_format [Some n, Some m, Some i, Some cn, Some nick, Some user, Some t, Some ''on'']
     = Inr (print_stmt False t n i m cn nick user)"
  by (simp_all add: print_select_format_def print_select_def print_update_off_format_def print_update_on_format_def
      print_insert_off_format_def print_insert_on_format_def quoted_s_def qs_def print_stmt_def)

lemma print_stmt_length:
  "length t + length n + length i + length m \<le> 246 \<Longrightarrow> length cn + length nick + length user \<le> 100 \<Longrightarrow>
     length (print_stmt k t n i m cn nick user) < 500"
  by (simp add: print_stmt_def qs_def)

lemma print_stmt_no_nul:
  "CHR 0x00 \<notin> set t \<union> set n \<union> set i \<union> set m \<union> set cn \<union> set nick \<union> set user \<Longrightarrow>
     c_str (print_stmt k t n i m cn nick user) = print_stmt k t n i m cn nick user"
  by (rule c_str_id) (simp add: print_stmt_def qs_def)

lemma print_select_no_nul: "CHR 0x00 \<notin> set m \<Longrightarrow> c_str (print_select m) = print_select m"
  by (rule c_str_id) (simp add: print_select_def)

lemma print_choices:
  assumes "length t + length n + length i + length m \<le> 246" and "length cn + length nick + length user \<le> 100"
  shows "sprintf_s 500 print_update_off_format [Some t, Some ''off'', Some m] = Inr (print_stmt True t n i m [] nick user)"
    "cn \<noteq> [] \<Longrightarrow> sprintf_s 500 print_update_on_format
       [Some n, Some i, Some cn, Some nick, Some user, Some t, Some ''on'', Some m] = Inr (print_stmt True t n i m cn nick user)"
    "sprintf_s 500 print_insert_off_format [Some n, Some m, Some i, Some t, Some ''off''] =
       Inr (print_stmt False t n i m [] nick user)"
    "cn \<noteq> [] \<Longrightarrow> sprintf_s 500 print_insert_on_format
       [Some n, Some m, Some i, Some cn, Some nick, Some user, Some t, Some ''on''] = Inr (print_stmt False t n i m cn nick user)"
proof -
  have l: "length (print_stmt k t n i m cn nick user) < 500" for k
    using assms by (rule print_stmt_length)
  have l': "length (print_stmt k t n i m [] nick user) < 500" for k
    using assms by (intro print_stmt_length) auto
  show "sprintf_s 500 print_update_off_format [Some t, Some ''off'', Some m] = Inr (print_stmt True t n i m [] nick user)"
    by (rule sprintf_s_fits [OF print_formats(2) l'])
  show "sprintf_s 500 print_insert_off_format [Some n, Some m, Some i, Some t, Some ''off''] =
       Inr (print_stmt False t n i m [] nick user)"
    by (rule sprintf_s_fits [OF print_formats(3) l'])
  show "sprintf_s 500 print_update_on_format
       [Some n, Some i, Some cn, Some nick, Some user, Some t, Some ''on'', Some m] = Inr (print_stmt True t n i m cn nick user)"
    if "cn \<noteq> []" by (rule sprintf_s_fits [OF print_formats(4) [OF that] l])
  show "sprintf_s 500 print_insert_on_format
       [Some n, Some m, Some i, Some cn, Some nick, Some user, Some t, Some ''on''] = Inr (print_stmt False t n i m cn nick user)"
    if "cn \<noteq> []" by (rule sprintf_s_fits [OF print_formats(5) [OF that] l])
qed

lemma machine_info_length:
  "length (machine_info t n i m) = length t + length n + length i + length m + 3"
  by (simp add: machine_info_def)

lemma machine_info_c_str:
  "info_field t \<Longrightarrow> info_field n \<Longrightarrow> info_field i \<Longrightarrow> info_field m \<Longrightarrow>
     c_str (machine_info t n i m) = machine_info t n i m"
  by (rule c_str_id) (simp add: machine_info_def info_field_def)

lemma user_Print_eq:
  assumes f: "info_field t" "info_field n" "info_field i" "info_field m"
    and l: "length (machine_info t n i m) < 250"
      "length (GetCarNumber c) + length (GetNickNume c) + length (GetUserNames c) \<le> 100"
    and z: "CHR 0x00 \<notin> set (GetCarNumber c) \<union> set (GetNickNume c) \<union> set (GetUserNames c)"
    and r: "db_rows db (sent c @ [set_names]) (print_select m) = Some rows"
  shows "user_Print db (machine_info t n i m) c =
    (if \<not> db_ok db (sent c @ [set_names]) (print_select m) then Inl UndefinedBehaviour
     else
       (let stmt = print_stmt (length rows = 1) t n i m (GetCarNumber c) (GetNickNume c) (GetUserNames c)
        in Inr (db_ok db (sent c @ [set_names, print_select m]) stmt,
                c\<lparr>sent := sent c @ [set_names, print_select m, stmt], results_open := Suc (results_open c)\<rparr>)))"
proof -
  have b: "length t + length n + length i + length m \<le> 246" using l(1) by (simp add: machine_info_length)
  have cp: "strcpy_s 250 (machine_info t n i m) = Inr (machine_info t n i m)"
    using l(1) by (simp add: strcpy_s_def machine_info_c_str [OF f])
  have nul: "CHR 0x00 \<notin> set t \<union> set n \<union> set i \<union> set m" using f by (simp add: info_field_def)
  have sel: "sprintf_s 500 print_select_format [Some m] = Inr (print_select m)"
    using b by (simp add: sprintf_s_def print_formats(1)) (simp add: print_select_def)
  have cs: "c_str (print_select m) = print_select m" using nul by (simp add: print_select_no_nul)
  have st: "c_str (print_stmt k t n i m (GetCarNumber c) (GetNickNume c) (GetUserNames c)) =
      print_stmt k t n i m (GetCarNumber c) (GetNickNume c) (GetUserNames c)" for k
    using nul z by (intro print_stmt_no_nul) auto
  note ch = print_choices [OF b l(2)]
  note ev = user_Print_def cp split_machine_info [OF f] sel mysql_query_def cs mysql_store_result_def butlast_append r Let_def
  show ?thesis
  proof (cases "db_ok db (sent c @ [set_names]) (print_select m)")
    case False
    then show ?thesis by (simp add: ev)
  next
    case True
    note st1 = st [of "length rows = 1"]
    show ?thesis
    proof (cases "GetCarNumber c = []")
      case e: True
      show ?thesis
        using st1 by (cases "length rows = 1") (simp_all add: ev True e ch(1,3))
    next
      case False
      show ?thesis
        using st1 by (cases "length rows = 1") (simp_all add: ev True False ch(2,4) [OF False])
    qed
  qed
qed

text \<open>C17: \<open>user_Print\<close>. For machine information of at most 249 characters in four fields (time,
  name, address, MAC) and a user whose three names have at most 100 characters, it sends the
  character set, the look-up of the MAC and, when the look-up delivers its rows, one more
  statement: an update when the MAC has exactly one row and an insert otherwise, marking the
  machine on with the user's card and names when a card is present and off when none is. A
  look-up that fails makes it read a result it never assigned. The result set is not freed.\<close>

theorem user_print_spec:
  assumes f: "info_field t" "info_field n" "info_field i" "info_field m"
    and l: "length (machine_info t n i m) < 250"
      "length (GetCarNumber c) + length (GetNickNume c) + length (GetUserNames c) \<le> 100"
    and z: "CHR 0x00 \<notin> set (GetCarNumber c) \<union> set (GetNickNume c) \<union> set (GetUserNames c)"
    and r: "db_rows db (sent c @ [set_names]) (print_select m) = Some rows"
  shows "user_Print db (machine_info t n i m) c =
    (if \<not> db_ok db (sent c @ [set_names]) (print_select m) then Inl UndefinedBehaviour
     else
       (let stmt = print_stmt (length rows = 1) t n i m (GetCarNumber c) (GetNickNume c) (GetUserNames c)
        in Inr (db_ok db (sent c @ [set_names, print_select m]) stmt,
                c\<lparr>sent := sent c @ [set_names, print_select m, stmt], results_open := Suc (results_open c)\<rparr>)))"
  using assms by (rule user_Print_eq)

theorem user_print_spec_witness:
  "user_Print (example_db [[Some ''1'']]) (machine_info ''10:00'' ''pc'' ''10.0.0.1'' ''00-11'') MySqlConn_new =
     Inr (True, MySqlConn_new\<lparr>sent := [set_names, print_select ''00-11'',
       ''update PrintUser set PuTime='' @ qs ''10:00'' @ '',PrintMark='' @ qs ''off'' @ ''  where MachineMAC='' @ qs ''00-11''],
       results_open := 1\<rparr>)"
  using user_print_spec [of "''10:00''" "''pc''" "''10.0.0.1''" "''00-11''" MySqlConn_new "example_db [[Some ''1'']]"
      "[[Some ''1'']]"]
  by (simp add: info_field_def machine_info_length MySqlConn_new_def)
    (simp add: example_db_def print_stmt_def Let_def MySqlConn_new_def)

section \<open>The gateway's configuration\<close>

text \<open>The value the table has for a key: the last row of that name counts.\<close>

definition config_value :: "sql_row list \<Rightarrow> string \<Rightarrow> string \<Rightarrow> string" where
  "config_value rows key old =
     (case find (\<lambda>row. row ! 1 = Some key) (rev rows) of
        None \<Rightarrow> old
      | Some row \<Rightarrow> c_str (the (row ! 2)))"

definition config_row :: "sql_row \<Rightarrow> bool" where
  "config_row row \<longleftrightarrow> 3 \<le> length row \<and>
     (\<exists>k. row ! 1 = Some k \<and> CHR 0x00 \<notin> set k) \<and> row ! 2 \<noteq> None"

lemma find_append: "find P (xs @ ys) = (case find P xs of None \<Rightarrow> find P ys | Some x \<Rightarrow> Some x)"
  by (induction xs) auto

lemma config_value_Nil [simp]: "config_value [] key old = old"
  by (simp add: config_value_def)

lemma config_value_Cons:
  "config_value (row # rows) key old =
     config_value rows key (if row ! 1 = Some key then c_str (the (row ! 2)) else old)"
  by (simp add: config_value_def find_append split: option.splits)

text \<open>The five settings after the rows.\<close>

definition with_config :: "sql_row list \<Rightarrow> mysql_conn \<Rightarrow> mysql_conn" where
  "with_config rows c = c\<lparr>
     mysqlBAip := config_value rows ''BAip'' (mysqlBAip c),
     mysqlBALogoutdDirectory := config_value rows ''BALogoutdDirectory'' (mysqlBALogoutdDirectory c),
     mysqlBALogoutT := config_value rows ''BALogoutT'' (mysqlBALogoutT c),
     mysqlBALOginDirectory := config_value rows ''BALOginDirectory'' (mysqlBALOginDirectory c),
     mysqlBALLoginDt := config_value rows ''BALLoginDt'' (mysqlBALLoginDt c)\<rparr>"

lemma with_config_Nil [simp]: "with_config [] c = c"
  by (simp add: with_config_def)

lemma info_row_eq:
  assumes "config_row row"
  shows "info_row row c = Inr (with_config [row] c)"
proof -
  obtain k v where k: "row ! 1 = Some k" "CHR 0x00 \<notin> set k" and v: "row ! 2 = Some v" and l: "3 \<le> length row"
    using assms by (auto simp: config_row_def)
  have n: "\<not> length row \<le> 1" "\<not> length row \<le> 2" using l by auto
  show ?thesis
    by (simp add: info_row_def cell_def k v n c_str_id [OF k(2)] with_config_def config_value_Cons del: One_nat_def)
qed

lemma with_config_Cons: "with_config rows (with_config [row] c) = with_config (row # rows) c"
  by (simp add: with_config_def config_value_Cons)

lemma info_rows_eq: "list_all config_row rows \<Longrightarrow> info_rows rows c = Inr (with_config rows c)"
  by (induction rows arbitrary: c) (simp_all add: info_row_eq with_config_Cons)

text \<open>\<open>info_query\<close> reads the gateway's settings from the table: for rows whose name is a C
  string and whose value is not NULL, each of the five settings becomes the value of the last
  row of that name and keeps what it was when no row has the name; every other row is ignored.
  The result set stays allocated, one more per call. When the statement fails, nothing is read and the settings stay.\<close>

theorem info_query_last_wins:
  assumes "list_all config_row rows"
    and "db_rows db (sent c @ [set_names]) ''select * from BehavioralAudit'' = Some rows"
  shows "info_query db c =
    (let c' = c\<lparr>sent := sent c @ [set_names, ''select * from BehavioralAudit'']\<rparr>
     in if db_ok db (sent c @ [set_names]) ''select * from BehavioralAudit''
        then Inr (True, with_config rows (c'\<lparr>results_open := Suc (results_open c)\<rparr>))
        else Inr (False, c'))"
proof -
  have s: "c_str ''select * from BehavioralAudit'' = ''select * from BehavioralAudit''"
    by (rule c_str_id) simp
  show ?thesis
    by (simp add: info_query_def mysql_query_def s mysql_store_result_def butlast_append assms(2)
        info_rows_eq [OF assms(1)] Let_def)
qed

theorem info_query_last_wins_witness:
  "\<exists>c'. info_query (example_db [[None, Some ''BAip'', Some ''10.0.0.1''], [None, Some ''x'', Some []],
        [None, Some ''BAip'', Some ''10.0.0.2'']]) MySqlConn_new = Inr (True, c') \<and>
     mysqlBAip c' = ''10.0.0.2'' \<and> mysqlBALogoutT c' = [] \<and> results_open c' = 1"
proof -
  let ?rows = "[[None, Some ''BAip'', Some ''10.0.0.1''], [None, Some ''x'', Some []],
        [None, Some ''BAip'', Some ''10.0.0.2'']] :: sql_row list"
  have "list_all config_row ?rows" by (simp add: config_row_def)
  from info_query_last_wins [OF this, of "example_db ?rows" MySqlConn_new]
  show ?thesis by (simp add: example_db_def Let_def with_config_def config_value_def MySqlConn_new_def c_str_def)
qed

end
