(* ===== verification/Machine_Info_Correct.thy ===== *)
theory Machine_Info_Correct
  imports Machine_Info MySql_Correct
begin

text \<open>
  What the strings of \<open>Machine_Info\<close> mean to the rest of the program: which output of
  \<open>ping\<close> counts as a connection, that the machine's information splits into its four fields
  again, and which adapters' texts can be told apart.
\<close>

text \<open>Evaluation of computed characters.\<close>

lemma char_eqs:
  "c = char_of n \<longleftrightarrow> of_char c = n mod (256::nat)" "char_of n = c \<longleftrightarrow> of_char c = n mod (256::nat)"
proof -
  show "c = char_of n \<longleftrightarrow> of_char c = n mod (256::nat)" by (metis char_of_char of_char_of)
  then show "char_of n = c \<longleftrightarrow> of_char c = n mod (256::nat)" by auto
qed

section \<open>Reading lines\<close>

definition line :: "string \<Rightarrow> bool" where
  "line l \<longleftrightarrow> CHR 0x0A \<notin> set l \<and> length l < 79"

lemma read_ln_line:
  assumes "line l"
  shows "read_ln (b, l @ CHR 0x0A # rest) = (Some (l @ [CHR 0x0A]), rest)"
proof -
  have n: "CHR 0x0A \<notin> set l" and k: "length l < 79" using assms by (auto simp: line_def)
  have t: "take 79 (l @ CHR 0x0A # rest) = l @ CHR 0x0A # take (78 - length l) rest"
  proof -
    have "79 - length l = Suc (78 - length l)" using k by simp
    then show ?thesis using k by simp
  qed
  have w: "takeWhile (\<lambda>c. c \<noteq> CHR 0x0A) (l @ CHR 0x0A # r) = l" for r
    using n by (subst takeWhile_append2) auto
  show ?thesis by (simp add: read_ln_def fgets_def t w Let_def del: take_append)
qed

lemma AnalysisFile_lines:
  assumes "line l1" and "line l2" and "line l3" and "CHR 0x00 \<notin> set l3"
  shows "AnalysisFile (Some (l1 @ CHR 0x0A # l2 @ CHR 0x0A # l3 @ CHR 0x0A # rest)) =
    Inr (0 < atoi (take 3 (drop (pos_plus1 (find_char (CHR ''='') (l3 @ [CHR 0x0A]))) (l3 @ [CHR 0x0A]))))"
proof -
  have c: "c_str (l3 @ [CHR 0x0A]) = l3 @ [CHR 0x0A]" using assms(4) by (intro c_str_id) auto
  have p: "pos_plus1 (find_char (CHR ''='') s) \<le> length s" for s
  proof (cases "find_char (CHR ''='') s")
    case (Some i)
    then show ?thesis using find_sub_Some_split [of "[CHR ''='']" s i]
      by (simp add: find_char_def pos_plus1_def)
  qed (simp add: pos_plus1_def)
  show ?thesis
    using p [of "l3 @ [CHR 0x0A]"]
    by (simp add: AnalysisFile_def read_ln_line assms(1-3) c substr_def Let_def not_less)
qed

section \<open>Numbers in the reply\<close>

lemma length_dec: "n < 10 \<Longrightarrow> length (dec n) = 1" "10 \<le> n \<Longrightarrow> length (dec n) = Suc (length (dec (n div 10)))"
  by (simp_all add: dec.simps [of n])

lemma length_dec_3: "n < 1000 \<Longrightarrow> length (dec n) \<le> 3"
proof -
  assume n: "n < 1000"
  consider "n < 10" | "10 \<le> n" "n < 100" | "100 \<le> n" by linarith
  then show ?thesis
  proof cases
    case 1
    then show ?thesis by (simp add: length_dec)
  next
    case 2
    then show ?thesis by (simp add: length_dec)
  next
    case 3
    then have "10 \<le> n" "10 \<le> n div 10" "n div 10 div 10 < 10" using n by auto
    then show ?thesis by (simp add: length_dec)
  qed
qed

lemma hd_dec_digit: "is_digit (hd (dec n))"
  using dec_digits [of "hd (dec n)" n] by simp

lemma digit_not_space: "is_digit c \<Longrightarrow> \<not> is_space c \<and> c \<noteq> CHR ''-'' \<and> c \<noteq> CHR ''+''"
  by (auto simp: is_digit_def is_space_def)

lemma digit_not_nul: "is_digit c \<Longrightarrow> c \<noteq> CHR 0x00"
  by (auto simp: is_digit_def)

lemma atoi_number:
  assumes "list_all is_digit s" and "s \<noteq> []" and "r = [] \<or> \<not> is_digit (hd r)"
  shows "atoi (s @ r) = int (undec s)"
proof -
  have nul: "CHR 0x00 \<notin> set s" using assms(1) digit_not_nul by (auto simp: list_all_iff)
  obtain c t where s: "s = c # t" and c: "is_digit c" using assms(1,2) by (cases s) auto
  have cs: "c_str (s @ r) = s @ c_str r" by (rule c_str_append [OF nul])
  have d: "dropWhile is_space (s @ c_str r) = s @ c_str r"
    using digit_not_space [OF c] by (simp add: s)
  have h: "c_str r = [] \<or> \<not> is_digit (hd (c_str r))"
    using assms(3) by (cases r) (auto simp: c_str_def)
  have t: "takeWhile is_digit (s @ c_str r) = s"
    using h assms(1) by (cases "c_str r") (auto simp: list_all_iff takeWhile_append)
  show ?thesis
    using digit_not_space [OF c] t by (simp add: atoi_def cs d Let_def) (simp add: s)
qed

text \<open>Which answer of \<open>ping\<close> counts as a network. With output whose third line is a reply,
  \<open>AnalysisFile\<close> returns true exactly when the number behind the first equals sign is positive
  (for numbers of at most three digits, followed by something else); a third line without equals
  sign, as of a host that cannot be reached, counts as no network unless it begins with a number. A
  missing file and an empty one are not handled.\<close>

theorem ping_reply_spec:
  assumes "line l1" and "line l2" and "line l3" and "CHR 0x00 \<notin> set l3"
  shows "(\<forall>a n c b. l3 = a @ CHR ''='' # dec n @ c # b \<longrightarrow> CHR ''='' \<notin> set a \<longrightarrow> n < 1000 \<longrightarrow> \<not> is_digit c \<longrightarrow>
       AnalysisFile (Some (l1 @ CHR 0x0A # l2 @ CHR 0x0A # l3 @ CHR 0x0A # rest)) = Inr (0 < n)) \<and>
    (CHR ''='' \<notin> set l3 \<longrightarrow> l3 = [] \<or> \<not> is_digit (hd l3) \<and> \<not> is_space (hd l3) \<and> hd l3 \<noteq> CHR ''+'' \<longrightarrow>
       AnalysisFile (Some (l1 @ CHR 0x0A # l2 @ CHR 0x0A # l3 @ CHR 0x0A # rest)) = Inr False) \<and>
    AnalysisFile None = Inl InvalidParameter \<and> AnalysisFile (Some []) = Inl UndefinedBehaviour"
proof (intro conjI allI impI)
  fix a n c b
  assume l: "l3 = a @ CHR ''='' # dec n @ c # b" and a: "CHR ''='' \<notin> set a" and n: "n < 1000" and c: "\<not> is_digit c"
  have f: "find_char (CHR ''='') (l3 @ [CHR 0x0A]) = Some (length a)"
    using find_char_first [OF a] by (simp add: l)
  have t: "take 3 (dec n @ c # b @ [CHR 0x0A]) = dec n @ take (3 - length (dec n)) (c # b @ [CHR 0x0A])"
    using length_dec_3 [OF n] by simp
  have "atoi (take 3 (dec n @ c # b @ [CHR 0x0A])) = int (undec (dec n))"
    unfolding t by (rule atoi_number) (use c dec_digits in \<open>auto simp: list_all_iff take_Cons'\<close>)
  moreover have "drop (pos_plus1 (find_char (CHR ''='') (l3 @ [CHR 0x0A]))) (l3 @ [CHR 0x0A]) = dec n @ c # b @ [CHR 0x0A]"
    unfolding f by (simp add: pos_plus1_def l)
  ultimately show "AnalysisFile (Some (l1 @ CHR 0x0A # l2 @ CHR 0x0A # l3 @ CHR 0x0A # rest)) = Inr (0 < n)"
    unfolding AnalysisFile_lines [OF assms] by simp
next
  assume e: "CHR ''='' \<notin> set l3" and h: "l3 = [] \<or> \<not> is_digit (hd l3) \<and> \<not> is_space (hd l3) \<and> hd l3 \<noteq> CHR ''+''"
  have f: "find_char (CHR ''='') (l3 @ [CHR 0x0A]) = None" using e by (simp add: find_char_None)
  have "atoi (take 3 (l3 @ [CHR 0x0A])) \<le> 0"
  proof (cases l3)
    case Nil
    then show ?thesis by (simp add: atoi_def c_str_def is_space_def)
  next
    case (Cons x xs)
    with h assms(4) show ?thesis by (auto simp: atoi_def c_str_def undec_def)
  qed
  then show "AnalysisFile (Some (l1 @ CHR 0x0A # l2 @ CHR 0x0A # l3 @ CHR 0x0A # rest)) = Inr False"
    using AnalysisFile_lines [OF assms, of rest] by (simp add: f pos_plus1_def)
qed (simp_all add: AnalysisFile_def read_ln_def fgets_def)


theorem ping_reply_spec_witness:
  "AnalysisFile (Some ([] @ CHR 0x0A # ''Pinging 192.168.0.7 with 32 bytes of data:'' @ CHR 0x0A #
      ''Reply from 192.168.0.7: bytes=32 time<1ms TTL=64'' @ CHR 0x0A # [])) = Inr True \<and>
   AnalysisFile (Some ([] @ CHR 0x0A # ''Pinging 192.168.0.7 with 32 bytes of data:'' @ CHR 0x0A #
      ''Request timed out.'' @ CHR 0x0A # [])) = Inr False"
proof -
  let ?p = "''Pinging 192.168.0.7 with 32 bytes of data:''"
  let ?r = "''Reply from 192.168.0.7: bytes=32 time<1ms TTL=64''"
  have l: "line []" "line ?p" "line ?r" "line ''Request timed out.''" by (simp_all add: line_def)
  have z: "CHR 0x00 \<notin> set ?r" "CHR 0x00 \<notin> set ''Request timed out.''" by simp_all
  have d: "?r = ''Reply from 192.168.0.7: bytes'' @ CHR ''='' # dec 32 @ CHR '' '' # ''time<1ms TTL=64''"
    by (simp add: dec.simps digit_def char_eqs)
  have a: "CHR ''='' \<notin> set ''Reply from 192.168.0.7: bytes''" and c: "\<not> is_digit (CHR '' '')"
    by (simp_all add: is_digit_def)
  have "AnalysisFile (Some ([] @ CHR 0x0A # ?p @ CHR 0x0A # ?r @ CHR 0x0A # [])) = Inr ((0::nat) < 32)"
    by (rule conjunct1 [OF ping_reply_spec [OF l(1,2,3) z(1)], rule_format, OF d a _ c]) simp
  moreover have "AnalysisFile (Some ([] @ CHR 0x0A # ?p @ CHR 0x0A # ''Request timed out.'' @ CHR 0x0A # [])) = Inr False"
    by (rule conjunct1 [OF conjunct2 [OF ping_reply_spec [OF l(1,2,4) z(2)]], rule_format])
      (simp_all add: is_digit_def is_space_def)
  ultimately show ?thesis by simp
qed

section \<open>The four fields\<close>

lemma digit_not_sep: "is_digit c \<Longrightarrow> c \<noteq> CHR ''^'' \<and> c \<noteq> CHR 0x00"
  by (auto simp: is_digit_def)

lemma dec02_digits: "c \<in> set (dec02 n) \<Longrightarrow> is_digit c"
  using dec_digits by (auto simp: dec02_def is_digit_def split: if_splits)

lemma length_dec_word: "length (dec (unat (w :: 16 word))) \<le> 5"
proof -
  let ?n = "unat w"
  have n: "?n < 65536" using unsigned_less [of w, where ?'a = nat] by simp
  show ?thesis
  proof (cases "?n < 1000")
    case True
    then show ?thesis using length_dec_3 [of ?n] by simp
  next
    case False
    then have "10 \<le> ?n" "10 \<le> ?n div 10" "?n div 10 div 10 < 1000" using n by auto
    then show ?thesis
      using length_dec_3 [of "?n div 10 div 10"] length_dec(2) [of ?n] length_dec(2) [of "?n div 10"] by linarith
  qed
qed

lemma length_dec02_word: "length (dec02 (unat (w :: 16 word))) \<le> 5"
  using length_dec_word [of w] by (auto simp: dec02_def length_dec)

lemma time_text_field: "info_field (time_text t)"
proof -
  have d: "CHR ''^'' \<notin> set (dec n)" "CHR 0x00 \<notin> set (dec n)" "CHR ''^'' \<notin> set (dec02 n)" "CHR 0x00 \<notin> set (dec02 n)" for n
    using dec_digits dec02_digits digit_not_sep by blast+
  show ?thesis by (simp add: info_field_def time_text_def d)
qed

lemma machine_time_ok: "machine_time env = Inr (time_text (me_time env))"
proof -
  have "length (time_text t) < 40" for t
    using length_dec_word [of "wYear t"] length_dec02_word [of "wMonth t"] length_dec02_word [of "wDay t"]
      length_dec02_word [of "wHour t"] length_dec02_word [of "wMinute t"] length_dec02_word [of "wSecond t"]
    by (simp add: time_text_def)
  then show ?thesis by (simp add: machine_time_def) (simp add: time_text_def)
qed

definition no_sep :: "string \<Rightarrow> bool" where
  "no_sep s \<longleftrightarrow> CHR ''^'' \<notin> set s \<and> CHR 0x00 \<notin> set s"

lemma no_sep_simps [simp]:
  "no_sep []" "no_sep (a @ b) \<longleftrightarrow> no_sep a \<and> no_sep b"
  "no_sep (c # b) \<longleftrightarrow> c \<noteq> CHR ''^'' \<and> c \<noteq> CHR 0x00 \<and> no_sep b"
  by (auto simp: no_sep_def)

lemma info_field_no_sep: "info_field s \<longleftrightarrow> s \<noteq> [] \<and> no_sep s"
  by (simp add: info_field_def no_sep_def)

lemma hex_digit_no_sep: "n < 16 \<Longrightarrow> hex_digit n \<noteq> CHR ''^'' \<and> hex_digit n \<noteq> CHR 0x00"
proof -
  have "of_char (CHR ''^'') = (94::nat)" "of_char (CHR 0x00) = (0::nat)" by simp_all
  moreover assume "n < 16"
  then have "of_char (hex_digit n) = (if n < 10 then 48 + n else 55 + n)" by (simp add: hex_digit_def)
  ultimately show ?thesis using \<open>n < 16\<close> by (auto split: if_splits)
qed

lemma hex02_no_sep [simp]: "no_sep (hex02 b)"
proof -
  have "unat b < 256" using unsigned_less [of b, where ?'a = nat] by simp
  then have "unat b div 16 < 16" "unat b mod 16 < 16" by auto
  then show ?thesis by (simp add: hex02_def hex_digit_no_sep)
qed

lemma append_mac_no_sep: "no_sep s \<Longrightarrow> no_sep (append_mac s adr)"
proof -
  have "no_sep s \<Longrightarrow> no_sep (foldl (\<lambda>s i. if i < length adr - 1 then s @ hex02 (adr ! i) @ ''-'' else s @ hex02 (adr ! i)) s is)" for "is"
    by (induction "is" arbitrary: s) auto
  then show "no_sep s \<Longrightarrow> no_sep (append_mac s adr)" by (simp add: append_mac_def)
qed

definition adapter_ok :: "adapter \<Rightarrow> bool" where
  "adapter_ok a \<longleftrightarrow> list_all (\<lambda>s. CHR ''^'' \<notin> set s) (IpAddressList a)"

lemma c_str_no_sep: "CHR ''^'' \<notin> set s \<Longrightarrow> no_sep (c_str s)"
  by (auto simp: no_sep_def c_str_def dest: set_takeWhileD)

lemma adapters_loop_no_sep:
  "list_all adapter_ok as \<Longrightarrow> no_sep m \<Longrightarrow> no_sep i \<Longrightarrow>
     no_sep (fst (adapters_loop as m i)) \<and> no_sep (snd (adapters_loop as m i))"
proof (induction as arbitrary: m i)
  case (Cons a as)
  have c: "list_all (\<lambda>s. CHR ''^'' \<notin> set s) l \<Longrightarrow> no_sep (concat (map c_str l))" for l
    by (induction l) (auto simp: c_str_no_sep)
  have "no_sep (concat (map c_str (IpAddressList a)))" using Cons.prems(1) c by (simp add: adapter_ok_def)
  with Cons show ?case by (auto simp: Let_def append_mac_no_sep)
qed simp

definition adapters_ok :: "adapters_info \<Rightarrow> bool" where
  "adapters_ok r = (case r of ERROR_SUCCESS as \<Rightarrow> list_all adapter_ok as | _ \<Rightarrow> True)"

lemma machine_adapters_no_sep:
  assumes "adapters_ok (me_adapters env)" and "adapters_ok (me_adapters_again env)"
  shows "no_sep (fst (fst (machine_adapters env))) \<and> no_sep (snd (fst (machine_adapters env)))"
  using assms adapters_loop_no_sep [of _ "[]" "[]"]
  by (auto simp: machine_adapters_def adapters_ok_def Let_def split: adapters_info.splits)

lemma literal_fields: "info_field no_name" "info_field no_ip" "info_field no_mac"
  by (simp_all add: info_field_def no_name_def no_ip_def no_mac_def)

definition name_ok :: "string option \<Rightarrow> bool" where
  "name_ok n = (case n of None \<Rightarrow> True | Some n \<Rightarrow> c_str n \<noteq> [] \<and> CHR ''^'' \<notin> set n)"

lemma machine_name_ok: "name_ok (me_name env) \<Longrightarrow> \<exists>n. machine_name env = Inr n \<and> info_field n"
proof (cases "me_name env")
  case None
  have "c_str no_name = no_name" using literal_fields(1) by (intro c_str_id) (simp add: info_field_def)
  then show ?thesis using None literal_fields(1)
    by (simp add: machine_name_def strcpy_s_def) (simp add: no_name_def)
qed (simp add: machine_name_def name_ok_def info_field_no_sep c_str_no_sep)

text \<open>C16: \<open>MachineInfo\<close> and its reader agree. Whatever the clock says and whether or not the
  name and the adapters can be had, as long as the name is not empty and neither the name nor an
  address contains the separator, \<open>MachineInfo\<close> returns (its buffers are large enough) four
  non-empty fields, and the four calls of \<open>strtok\<close> in \<open>user_Print\<close> and in the login
  loop give them back, the first being the time.\<close>

theorem machine_info_splits:
  assumes "name_ok (me_name env)" and "adapters_ok (me_adapters env)" and "adapters_ok (me_adapters_again env)"
  shows "\<exists>n i m. MachineInfo env = Inr (machine_info (time_text (me_time env)) n i m) \<and>
    machine_name env = Inr n \<and> info_field n \<and> info_field i \<and> info_field m \<and>
    split_info (machine_info (time_text (me_time env)) n i m) = (Some (time_text (me_time env)), Some n, Some i, Some m)"
proof -
  obtain n where n: "machine_name env = Inr n" "info_field n" using machine_name_ok [OF assms(1)] by blast
  obtain ma ia fr where a: "machine_adapters env = ((ma, ia), fr)" by (metis surj_pair)
  have ns: "no_sep ma" "no_sep ia" using machine_adapters_no_sep [OF assms(2,3)] by (simp_all add: a)
  let ?i = "if 0 = length ia then no_ip else ia" and ?m = "if 0 = length ma then no_mac else ma"
  have f: "info_field ?i" "info_field ?m" using ns literal_fields by (auto simp: info_field_no_sep)
  have "MachineInfo env = Inr (machine_info (time_text (me_time env)) n ?i ?m)"
    by (simp add: MachineInfo_def n machine_time_ok a machine_info_def Let_def)
  with n f show ?thesis using split_machine_info [OF time_text_field n(2) f] by blast
qed


theorem machine_info_splits_witness:
  "\<exists>n i m. MachineInfo \<lparr>me_name = Some ''pc'', me_time = \<lparr>wYear = 2019, wMonth = 3, wDay = 26, wHour = 12, wMinute = 44, wSecond = 8\<rparr>,
       me_adapters = ERROR_BUFFER_OVERFLOW,
       me_adapters_again = ERROR_SUCCESS [\<lparr>Address = [0, 0x1A], IpAddressList = [''10.0.0.1'']\<rparr>]\<rparr> =
     Inr (machine_info (time_text \<lparr>wYear = 2019, wMonth = 3, wDay = 26, wHour = 12, wMinute = 44, wSecond = 8\<rparr>) n i m) \<and>
     n = ''pc''"
proof -
  let ?t = "\<lparr>wYear = 2019, wMonth = 3, wDay = 26, wHour = 12, wMinute = 44, wSecond = 8\<rparr>"
  let ?e = "\<lparr>me_name = Some ''pc'', me_time = ?t, me_adapters = ERROR_BUFFER_OVERFLOW,
       me_adapters_again = ERROR_SUCCESS [\<lparr>Address = [0, 0x1A], IpAddressList = [''10.0.0.1'']\<rparr>]\<rparr>"
  have h: "name_ok (me_name ?e)" "adapters_ok (me_adapters ?e)" "adapters_ok (me_adapters_again ?e)"
    by (simp_all add: name_ok_def c_str_def adapters_ok_def adapter_ok_def)
  have n: "machine_name ?e = Inr ''pc''" by (simp add: machine_name_def c_str_def)
  obtain k i m where "MachineInfo ?e = Inr (machine_info (time_text (me_time ?e)) k i m)" "machine_name ?e = Inr k"
    using machine_info_splits [OF h] by blast
  with n show ?thesis by auto
qed

section \<open>Several adapters\<close>

fun join :: "string \<Rightarrow> string list \<Rightarrow> string" where
  "join sep [] = []"
| "join sep [x] = x"
| "join sep (x # y # xs) = x @ sep @ join sep (y # xs)"

definition mac_text :: "8 word list \<Rightarrow> string" where
  "mac_text adr = join ''-'' (map hex02 adr)"

lemma join_snoc: "xs \<noteq> [] \<Longrightarrow> join sep (xs @ [x]) = join sep xs @ sep @ x"
  by (induction sep xs rule: join.induct) auto

lemma join_Cons: "xs \<noteq> [] \<Longrightarrow> join sep (x # xs) = x @ sep @ join sep xs"
  by (cases xs) auto

lemma append_mac_prefix:
  "k < length adr \<Longrightarrow>
     foldl (\<lambda>s i. if i < length adr - 1 then s @ hex02 (adr ! i) @ ''-'' else s @ hex02 (adr ! i)) s [0..<k] =
     s @ concat (map (\<lambda>b. hex02 b @ ''-'') (take k adr))"
  by (induction k) (auto simp: take_Suc_conv_app_nth)

lemma concat_join: "xs \<noteq> [] \<Longrightarrow> concat (map (\<lambda>b. f b @ sep) (butlast xs)) @ f (last xs) = join sep (map f xs)"
  by (induction xs) (auto simp: join_Cons)

lemma append_mac_eq: "append_mac s adr = s @ mac_text adr"
proof (cases "adr = []")
  case True
  then show ?thesis by (simp add: append_mac_def mac_text_def)
next
  case False
  then obtain k where k: "length adr = Suc k" by (cases adr) auto
  have "append_mac s adr = s @ concat (map (\<lambda>b. hex02 b @ ''-'') (butlast adr)) @ hex02 (last adr)"
    using append_mac_prefix [of k adr s] k False
    by (simp add: append_mac_def butlast_conv_take last_conv_nth)
  then show ?thesis using concat_join [OF False, of hex02 "''-''"] by (simp add: mac_text_def)
qed

lemma length_mac_text: "length adr = 6 \<Longrightarrow> length (mac_text adr) = 17"
proof -
  have "adr \<noteq> [] \<Longrightarrow> length (join ''-'' (map hex02 adr)) = 3 * length adr - 1"
    by (induction adr rule: induct_list012) (simp_all add: hex02_def)
  then show "length adr = 6 \<Longrightarrow> length (mac_text adr) = 17" by (cases "adr = []") (simp_all add: mac_text_def)
qed

lemma adapters_loop_macs:
  "list_all (\<lambda>a. length (Address a) = 6) as \<Longrightarrow>
     fst (adapters_loop as m i) =
       (if m = [] then join ''/'' (map (mac_text \<circ> Address) as)
        else m @ concat (map (\<lambda>a. (if 10 < length m then ''/'' else []) @ mac_text (Address a)) (take 1 as)) @
          concat (map (\<lambda>a. ''/'' @ mac_text (Address a)) (drop 1 as)))"
proof (induction as arbitrary: m i)
  case (Cons a as)
  have l: "length (mac_text (Address a)) = 17" using Cons.prems by (simp add: length_mac_text)
  have ne: "mac_text (Address a) \<noteq> []" using l by auto
  have j: "xs \<noteq> [] \<Longrightarrow> concat (map (\<lambda>a. ''/'' @ f a) xs) = ''/'' @ join ''/'' (map f xs)" for f :: "adapter \<Rightarrow> string" and xs
    by (induction xs rule: induct_list012) (simp_all add: join_Cons)
  have t: "concat (map (\<lambda>a. ''/'' @ f a) (take 1 xs)) @ concat (map (\<lambda>a. ''/'' @ f a) (drop 1 xs)) =
      concat (map (\<lambda>a. ''/'' @ f a) xs)" for f :: "adapter \<Rightarrow> string" and xs
    by (cases xs) auto
  show ?case
    using Cons l ne t [of "\<lambda>a. mac_text (Address a)" as] j [of as "\<lambda>a. mac_text (Address a)"]
    by (cases "as = []") (auto simp: Let_def append_mac_eq join_Cons comp_def)
qed simp

text \<open>Several adapters. Hardware addresses of six bytes are joined by slashes, whatever their
  number. IP addresses are not: those of one adapter always follow each other directly, and a slash
  stands in front of the next adapter only when the text so far has more than ten characters, so
  that two adapters with one short address each read as one run of digits and dots.\<close>

theorem adapter_texts:
  assumes "list_all (\<lambda>a. length (Address a) = 6) as"
  shows "fst (adapters_loop as [] []) = join ''/'' (map (mac_text \<circ> Address) as) \<and>
    (\<forall>a b. as = [a, b] \<longrightarrow> snd (adapters_loop as [] []) =
       (let s = concat (map c_str (IpAddressList a)); t = concat (map c_str (IpAddressList b))
        in if length s \<le> 10 then s @ t else s @ ''/'' @ t))"
  using adapters_loop_macs [OF assms, of "[]" "[]"] by (auto simp: Let_def)

theorem adapter_texts_witness:
  "adapters_loop [\<lparr>Address = [0, 1, 2, 3, 4, 5], IpAddressList = [''10.0.0.1'']\<rparr>,
      \<lparr>Address = [0, 1, 2, 3, 4, 6], IpAddressList = [''10.0.0.2'']\<rparr>] [] [] =
    (''00-01-02-03-04-05/00-01-02-03-04-06'', ''10.0.0.110.0.0.2'')"
proof -
  let ?as = "[\<lparr>Address = [0, 1, 2, 3, 4, 5], IpAddressList = [''10.0.0.1'']\<rparr>,
      \<lparr>Address = [0, 1, 2, 3, 4, 6], IpAddressList = [''10.0.0.2'']\<rparr>]"
  have "fst (adapters_loop ?as [] []) = ''00-01-02-03-04-05/00-01-02-03-04-06''"
    using adapter_texts [of ?as] by (simp add: mac_text_def hex02_def hex_digit_def char_eqs)
  moreover have "snd (adapters_loop ?as [] []) = ''10.0.0.110.0.0.2''"
    using adapter_texts [of ?as] by (simp add: c_str_def Let_def del: adapters_loop.simps)
  ultimately show ?thesis by (simp add: prod_eq_iff del: adapters_loop.simps)
qed

end
