(* ===== verification/Login_Records.thy ===== *)
theory Login_Records
  imports Login_Loop Machine_Info_Correct
begin

text \<open>
  What the login loop writes to the database: the statements of a login and of an unknown card, with
  the conditions under which they can be sent at all.
\<close>

section \<open>Statements\<close>

definition login_stmt ::
  "string \<Rightarrow> string \<Rightarrow> string \<Rightarrow> string \<Rightarrow> string \<Rightarrow> string \<Rightarrow> string \<Rightarrow> string" where
  "login_stmt cn user nick t n i m =
     ''insert into loginTable(CarNumber,UserName,NickName, DTime,MachineName,MachineIP,MachineMAC) values( '' @
     qs cn @ '','' @ qs user @ '','' @ qs nick @ '','' @ qs t @ '','' @ qs n @ '','' @ qs i @ '','' @ qs m @ '');''"

definition failed_stmt :: "string \<Rightarrow> string \<Rightarrow> string \<Rightarrow> string \<Rightarrow> string \<Rightarrow> string" where
  "failed_stmt cn t n i m =
     ''insert into loginFTable(CarNumber, DTime,MachineName,MachineIP,MachineMAC) values('' @
     qs cn @ '','' @ qs t @ '','' @ qs n @ '','' @ qs i @ '','' @ qs m @ '');''"

lemma login_formats:
  "fmt login_format [Some cn, Some user, Some nick, Some t, Some n, Some i, Some m] = Inr (login_stmt cn user nick t n i m)"
  "fmt login_failed_format [Some cn, Some t, Some n, Some i, Some m] = Inr (failed_stmt cn t n i m)"
  by (simp_all add: login_format_def login_failed_format_def quoted_s_def qs_def login_stmt_def failed_stmt_def)

lemma login_stmt_length:
  "length (login_stmt cn user nick t n i m) =
     122 + length cn + length user + length nick + length t + length n + length i + length m"
  by (simp add: login_stmt_def qs_def)

lemma failed_stmt_length:
  "length (failed_stmt cn t n i m) = 98 + length cn + length t + length n + length i + length m"
  by (simp add: failed_stmt_def qs_def)

text \<open>Text that is neither cut short as a C string nor read as a conversion.\<close>

definition plain :: "string \<Rightarrow> bool" where
  "plain s \<longleftrightarrow> CHR 0x00 \<notin> set s \<and> CHR ''%'' \<notin> set s"

lemma plain_simps [simp]:
  "plain []" "plain (a @ b) \<longleftrightarrow> plain a \<and> plain b"
  "plain (c # b) \<longleftrightarrow> c \<noteq> CHR 0x00 \<and> c \<noteq> CHR ''%'' \<and> plain b"
  by (auto simp: plain_def)

lemma plain_stmts:
  "list_all plain [cn, user, nick, t, n, i, m] \<Longrightarrow> plain (login_stmt cn user nick t n i m)"
  "list_all plain [cn, t, n, i, m] \<Longrightarrow> plain (failed_stmt cn t n i m)"
  by (simp_all add: login_stmt_def failed_stmt_def qs_def)

lemma user_insert_stmt:
  "plain stmt \<Longrightarrow> user_insert db stmt c =
     (if 255 \<le> length stmt then Inl InvalidParameter
      else Inr (db_ok db (sent c @ [set_names]) stmt, c\<lparr>sent := sent c @ [set_names, stmt]\<rparr>))"
  by (rule user_insert_plain) (simp_all add: plain_def)

section \<open>A login\<close>

lemma machine_info_strcpy:
  assumes "info_field t" "info_field n" "info_field i" "info_field m" and "length (machine_info t n i m) < 250"
  shows "strcpy_s 250 (machine_info t n i m) = Inr (machine_info t n i m)"
  using assms machine_info_c_str by (simp add: strcpy_s_def)

lemma record_login_eq:
  fixes t n i m :: string and g :: globals
  defines "c \<equiv> DbTconn g"
  assumes f: "info_field t" "info_field n" "info_field i" "info_field m"
    and info: "MachineInfo (pe_machine env) = Inr (machine_info t n i m)"
    and l: "length (machine_info t n i m) < 250"
      "length (GetCarNumber c) + length (GetNickNume c) + length (GetUserNames c) \<le> 100"
    and z: "list_all plain [GetCarNumber c, GetUserNames c, GetNickNume c, t, n, i, m]"
    and r: "db_ok (pe_db env) (sent c @ [set_names]) (print_select m)"
      "db_rows (pe_db env) (sent c @ [set_names]) (print_select m) = Some rows"
  shows "record_login env g =
    (let p = print_stmt (length rows = 1) t n i m (GetCarNumber c) (GetNickNume c) (GetUserNames c);
         stmt = login_stmt (GetCarNumber c) (GetUserNames c) (GetNickNume c) t n i m
     in if 255 \<le> length stmt then Inl InvalidParameter
        else Inr (g\<lparr>strGetMachineInfo := machine_info t n i m,
          DbTconn := c\<lparr>sent := sent c @ [set_names, print_select m, p, set_names, stmt], results_open := Suc (results_open c)\<rparr>,
          isOK := db_ok (pe_db env) (sent c @ [set_names, print_select m, p, set_names]) stmt\<rparr>))"
proof -
  let ?p = "print_stmt (length rows = 1) t n i m (GetCarNumber c) (GetNickNume c) (GetUserNames c)"
  let ?stmt = "login_stmt (GetCarNumber c) (GetUserNames c) (GetNickNume c) t n i m"
  have b: "length t + length n + length i + length m \<le> 246" using l(1) by (simp add: machine_info_length)
  have z': "CHR 0x00 \<notin> set (GetCarNumber c) \<union> set (GetNickNume c) \<union> set (GetUserNames c)"
    using z by (simp add: plain_def)
  have up: "user_Print (pe_db env) (machine_info t n i m) c =
      Inr (db_ok (pe_db env) (sent c @ [set_names, print_select m]) ?p,
        c\<lparr>sent := sent c @ [set_names, print_select m, ?p], results_open := Suc (results_open c)\<rparr>)"
    using user_Print_eq [OF f l z' r(2)] r(1) by (simp add: Let_def)
  have sp: "sprintf_s 500 login_format
      [Some (GetCarNumber c), Some (GetUserNames c), Some (GetNickNume c), Some t, Some n, Some i, Some m] = Inr ?stmt"
    using b l(2) by (intro sprintf_s_fits [OF login_formats(1)]) (simp add: login_stmt_length)
  have in_stmt: "user_insert db ?stmt c' = (if 255 \<le> length ?stmt then Inl InvalidParameter
      else Inr (db_ok db (sent c' @ [set_names]) ?stmt, c'\<lparr>sent := sent c' @ [set_names, ?stmt]\<rparr>))" for db c'
    by (rule user_insert_stmt [OF plain_stmts(1) [OF z]])
  show ?thesis
    unfolding record_login_def info
    by (simp add: machine_info_strcpy [OF f l(1)] split_machine_info [OF f] up [unfolded c_def]
        sp [unfolded c_def] in_stmt [unfolded c_def] Let_def c_def)
qed

lemma record_unknown_eq:
  assumes f: "info_field t" "info_field n" "info_field i" "info_field m"
    and info: "MachineInfo (pe_machine env) = Inr (machine_info t n i m)"
    and l: "length (machine_info t n i m) < 250" "length (GetCarNumber (DbTconn g)) \<le> 100"
    and z: "list_all plain [GetCarNumber (DbTconn g), t, n, i, m]"
  shows "record_unknown env g =
    (let stmt = failed_stmt (GetCarNumber (DbTconn g)) t n i m;
         c = DbTconn g
     in if 255 \<le> length stmt then Inl InvalidParameter
        else Inr (g\<lparr>shown := (shown g)\<lparr>dp_title := txt_unknown, dp_cLogin := txt_unknown_again\<rparr>,
          SerialWr := fst (ComWrite (pe_write env) chData (len g)),
          len := fst (snd (ComWrite (pe_write env) chData (len g))),
          strGetMachineInfo := machine_info t n i m,
          DbTconn := c\<lparr>sent := sent c @ [set_names, stmt]\<rparr>,
          isOK := db_ok (pe_db env) (sent c @ [set_names]) stmt\<rparr>))"
proof -
  let ?stmt = "failed_stmt (GetCarNumber (DbTconn g)) t n i m"
  have b: "length t + length n + length i + length m \<le> 246" using l(1) by (simp add: machine_info_length)
  have sp: "sprintf_s 500 login_failed_format
      [Some (GetCarNumber (DbTconn g)), Some t, Some n, Some i, Some m] = Inr ?stmt"
    using b l(2) by (intro sprintf_s_fits [OF login_formats(2)]) (simp add: failed_stmt_length)
  have in_stmt: "user_insert db ?stmt c' = (if 255 \<le> length ?stmt then Inl InvalidParameter
      else Inr (db_ok db (sent c' @ [set_names]) ?stmt, c'\<lparr>sent := sent c' @ [set_names, ?stmt]\<rparr>))" for db c'
    by (rule user_insert_stmt [OF plain_stmts(2) [OF z]])
  obtain ok len' bs where w: "ComWrite (pe_write env) chData (len g) = (ok, len', bs)" by (rule prod_cases3)
  show ?thesis
    unfolding record_unknown_def info
    by (simp add: machine_info_strcpy [OF f l(1)] split_machine_info [OF f] sp in_stmt w Let_def)
qed

end
