(* ===== verification/Login_Steps.thy ===== *)
theory Login_Steps
  imports Login_Loop
begin

text \<open>
  The threads together. A step is one of: a section of the login thread, a message of the window's
  thread (its handler up to the flag writes, or one of the two halves of the login button's handler, before
  and behind the gateway's answer), one flag write, a round of the serial reader, or something
  the user does. Nothing orders them but the program counters, the message queue and the two flags.

  Three parameters say what a correct program would have to guarantee and this one does not: that a
  handler's flag writes take effect at once, that the login thread reads the two flags at once, and that
  no other thread moves while the login button's handler or the login thread's check of a stored
  password waits for the gateway.
\<close>

text \<open>
  The login thread: at the head of its loop, behind the gateway's answer to a stored password, between showing
  the password controls and setting \<open>empPWCT\<close>, waiting on it, behind the wait, behind the reading of \<open>boolGetBack\<close>, returned.
\<close>

datatype login_pc = AtLoop | Judging | Prompting | Waiting | Resumed | Recording | Returned bool

text \<open>What the user does: clicks a button, presses Enter, leaves a text in the edit field.\<close>

datatype user_input = Clicked "nat option" | Pressed_enter | Typed string

text \<open>
  \<open>in_check\<close>: the login button's handler waits for the gateway, with its environment and the
  user whose name is in the form. \<open>accepted\<close> is no variable of the program: whether a password
  has been accepted since the login thread last began to treat a card, posted with the name of that card's user.
  Nor is \<open>inputs\<close>: all that the user has done since the start. \<open>starting\<close>: the reader threads
  that have been created and have not begun, at first the one of \<open>Initialize\<close>. One reader is followed: the thread
  of a line that has been closed is taken to end, although it goes on if the line is open again when it looks.
\<close>

record login_conf =
  pc :: login_pc
  glob :: globals
  queue :: "message list"
  pending :: "flag_write list"
  in_check :: "(check_env \<times> string) option"
  accepted :: bool
  starting :: nat
  inputs :: "user_input list"

record sync =
  sync_writes :: bool
  sync_reads :: bool
  sync_handlers :: bool

definition card_ready :: "globals \<Rightarrow> bool" where
  "card_ready g \<longleftrightarrow> length (c_str (Readinfo (rx g))) = 32"

definition at_head :: "login_conf \<Rightarrow> bool" where
  "at_head c \<longleftrightarrow> pc c = AtLoop \<and> \<not> cw_fConnected (win (glob c))"

text \<open>Where the wait leads.\<close>

definition resume_pc :: "sync \<Rightarrow> globals \<Rightarrow> login_pc" where
  "resume_pc sy g = (if sync_reads sy \<and> \<not> boolGetBack g then Recording else Resumed)"

text \<open>The text in the edit field, as the handler reads it.\<close>

definition edit_text :: "globals \<Rightarrow> string" where
  "edit_text g = c_str (take 1023 (dp_edit (shown g)))"

text \<open>The first half of the login button's handler, for a password that is long enough.\<close>

definition ask_gateway :: "check_env \<Rightarrow> globals \<Rightarrow> globals run" where
  "ask_gateway env g = gateway_check env (escape_plus (edit_text g)) (g\<lparr>getUpw := edit_text g\<rparr>)"

text \<open>What the second half finds: the answer is yes, and the database stores the password.\<close>

definition answer_accepted :: "check_env \<Rightarrow> globals \<Rightarrow> bool" where
  "answer_accepted env g \<longleftrightarrow> BoolHttpback g \<and>
     (case user_update (ck_db env) (getUpw g) (DbTconn g) of Inr (ok, _) \<Rightarrow> ok | _ \<Rightarrow> False)"

text \<open>A processed message is the login button's, and its password passes the gateway and the database.\<close>

definition password_accepted :: "check_env \<Rightarrow> message \<Rightarrow> globals \<Rightarrow> bool" where
  "password_accepted env m g \<longleftrightarrow>
     msg_message m = BM_CLICK \<and> msg_lParam m = cw_hWndButton (win g) \<and>
     7 < length (edit_text g) \<and>
     (case ask_gateway env g of Some (Inr g1) \<Rightarrow> answer_accepted env g1 | _ \<Rightarrow> False)"

inductive login_step :: "sync \<Rightarrow> login_conf \<Rightarrow> login_conf \<Rightarrow> bool" for sy :: sync where
  connected: "pc c = AtLoop \<Longrightarrow> cw_fConnected (win (glob c)) \<Longrightarrow> login_step sy c (c\<lparr>pc := Returned True\<rparr>)"
| init: "at_head c \<Longrightarrow> initialization (glob c) \<Longrightarrow> init_pass env (glob c) = Some (Inr g) \<Longrightarrow>
    login_step sy c (c\<lparr>glob := g\<rparr>)"
| retry: "at_head c \<Longrightarrow> \<not> initialization (glob c) \<Longrightarrow> card_ready (glob c) \<Longrightarrow>
    card_lookup env (glob c) = Inr (Retry, g) \<Longrightarrow> login_step sy c (c\<lparr>glob := g\<rparr>)"
| unknown: "at_head c \<Longrightarrow> \<not> initialization (glob c) \<Longrightarrow> card_ready (glob c) \<Longrightarrow>
    card_lookup env (glob c) = Inr (Unknown, g) \<Longrightarrow> record_unknown env g = Inr g' \<Longrightarrow>
    login_step sy c (c\<lparr>glob := clear_card g'\<rparr>)"
| first_card: "at_head c \<Longrightarrow> \<not> initialization (glob c) \<Longrightarrow> card_ready (glob c) \<Longrightarrow>
    card_lookup env (glob c) = Inr (Found, g) \<Longrightarrow> GetUserPW (DbTconn g) = [] \<Longrightarrow>
    ask_first_password g = Inr g' \<Longrightarrow>
    login_step sy c (c\<lparr>pc := Prompting, glob := g', accepted := False\<rparr>)"
| stored: "at_head c \<Longrightarrow> \<not> initialization (glob c) \<Longrightarrow> card_ready (glob c) \<Longrightarrow>
    card_lookup env (glob c) = Inr (Found, g) \<Longrightarrow> GetUserPW (DbTconn g) \<noteq> [] \<Longrightarrow>
    check_stored_password env g = Some (Inr (ok, g')) \<Longrightarrow>
    login_step sy c (c\<lparr>pc := (if ok then Waiting else Prompting), glob := g', accepted := ok\<rparr>)"
| ask_stored: "\<not> sync_handlers sy \<Longrightarrow> at_head c \<Longrightarrow> \<not> initialization (glob c) \<Longrightarrow> card_ready (glob c) \<Longrightarrow>
    card_lookup env (glob c) = Inr (Found, g) \<Longrightarrow> GetUserPW (DbTconn g) \<noteq> [] \<Longrightarrow>
    gateway_check (pe_check env) (strlogUserPW g) g = Some (Inr g') \<Longrightarrow>
    login_step sy c (c\<lparr>pc := Judging, glob := g', accepted := BoolHttpback g'\<rparr>)"
| judge_stored: "pc c = Judging \<Longrightarrow> judge_stored_password (glob c) = Some (Inr (ok, g)) \<Longrightarrow>
    login_step sy c (c\<lparr>pc := (if ok then Waiting else Prompting), glob := g\<rparr>)"
| prompted: "pc c = Prompting \<Longrightarrow> login_step sy c (c\<lparr>pc := Waiting, glob := (glob c)\<lparr>empPWCT := True\<rparr>\<rparr>)"
| resume: "pc c = Waiting \<Longrightarrow> \<not> empPWCT (glob c) \<Longrightarrow> login_step sy c (c\<lparr>pc := resume_pc sy (glob c)\<rparr>)"
| read_back: "pc c = Resumed \<Longrightarrow> \<not> sync_reads sy \<Longrightarrow> \<not> boolGetBack (glob c) \<Longrightarrow>
    login_step sy c (c\<lparr>pc := Recording\<rparr>)"
| go_back: "pc c = Resumed \<Longrightarrow> sync_reads sy \<or> boolGetBack (glob c) \<Longrightarrow>
    login_step sy c (c\<lparr>pc := AtLoop, glob := clear_card (glob c)\<rparr>)"
| recorded: "pc c = Recording \<Longrightarrow> record_login env (glob c) = Inr g \<Longrightarrow> isOK g \<Longrightarrow> login_done g = Inr g' \<Longrightarrow>
    login_step sy c (c\<lparr>pc := Returned True, glob := g'\<rparr>)"
| not_recorded: "pc c = Recording \<Longrightarrow> record_login env (glob c) = Inr g \<Longrightarrow> \<not> isOK g \<Longrightarrow>
    login_not_recorded g = Inr g' \<Longrightarrow> login_step sy c (c\<lparr>pc := AtLoop, glob := clear_card g'\<rparr>)"
| reopen: "at_head c \<Longrightarrow> \<not> initialization (glob c) \<Longrightarrow> \<not> card_ready (glob c) \<Longrightarrow> isopenCOM (rx (glob c)) = 1 \<Longrightarrow>
    reconnect env (glob c) = Inr g \<Longrightarrow> login_step sy c (c\<lparr>glob := g, starting := starting c + (if SerialIN g then 1 else 0)\<rparr>)"
| reader_begins: "0 < starting c \<Longrightarrow>
    login_step sy c (c\<lparr>glob := (glob c)\<lparr>rx := OnRecv_start (rx (glob c))\<rparr>, starting := starting c - 1\<rparr>)"
| reader: "OnRecv_iter ev (rx (glob c)) = Inr r \<Longrightarrow> login_step sy c (c\<lparr>glob := (glob c)\<lparr>rx := r\<rparr>\<rparr>)"
| put_flag: "pending c = w # ws \<Longrightarrow>
    login_step sy c (c\<lparr>pending := ws, glob := apply_write w (glob c)\<rparr>)"
| ask: "\<not> sync_handlers sy \<Longrightarrow> in_check c = None \<Longrightarrow> pending c = [] \<Longrightarrow> queue c = m # ms \<Longrightarrow>
    msg_message m = BM_CLICK \<Longrightarrow> msg_lParam m = cw_hWndButton (win (glob c)) \<Longrightarrow>
    msg_lParam m \<noteq> cw_hWndButtonBack (win (glob c)) \<Longrightarrow> 7 < length (edit_text (glob c)) \<Longrightarrow>
    ask_gateway env (glob c) = Some (Inr g) \<Longrightarrow>
    login_step sy c (c\<lparr>queue := ms, glob := g, in_check := Some (env, strlogUser (glob c))\<rparr>)"
| answer: "in_check c = Some (env, user) \<Longrightarrow> check_answer env (glob c) = Some (Inr (g, ws)) \<Longrightarrow>
    login_step sy c (c\<lparr>in_check := None, pending := (if sync_writes sy then [] else ws),
      glob := (if sync_writes sy then fold apply_write ws g else g),
      accepted := accepted c \<or> user = strlogUser (glob c) \<and> answer_accepted env (glob c)\<rparr>)"
| message: "in_check c = None \<Longrightarrow> pending c = [] \<Longrightarrow> queue c = m # ms \<Longrightarrow>
    ProcessNextMessage env m (glob c) = Some (Inr (go, posted, ws, g)) \<Longrightarrow>
    login_step sy c (c\<lparr>queue := ms @ posted,
      pending := (if sync_writes sy then [] else ws),
      glob := (if sync_writes sy then fold apply_write ws g else g),
      accepted := accepted c \<or> password_accepted env m (glob c)\<rparr>)"
| click: "dp_controls (shown (glob c)) \<Longrightarrow> b \<in> {cw_hWndButton (win (glob c)), cw_hWndButtonBack (win (glob c))} \<Longrightarrow>
    login_step sy c (c\<lparr>queue := queue c @ [\<lparr>msg_hwnd = cw_hWnd (win (glob c)), msg_message = WM_COMMAND, msg_wParam = 0, msg_lParam = b\<rparr>],
      inputs := inputs c @ [Clicked b]\<rparr>)"
| enter: "login_step sy c (c\<lparr>queue := queue c @ [\<lparr>msg_hwnd = h, msg_message = WM_KEYDOWN, msg_wParam = VK_RETURN, msg_lParam = l\<rparr>],
      inputs := inputs c @ [Pressed_enter]\<rparr>)"
| keys: "dp_controls (shown (glob c)) \<Longrightarrow>
    login_step sy c (c\<lparr>glob := (glob c)\<lparr>shown := (shown (glob c))\<lparr>dp_edit := s\<rparr>\<rparr>, inputs := inputs c @ [Typed s]\<rparr>)"

definition login_start :: "globals \<Rightarrow> login_conf" where
  "login_start g = \<lparr>pc = AtLoop, glob = g, queue = [], pending = [], in_check = None, accepted = False, starting = 1, inputs = []\<rparr>"

abbreviation login_steps :: "sync \<Rightarrow> login_conf \<Rightarrow> login_conf \<Rightarrow> bool" where
  "login_steps sy \<equiv> (login_step sy)\<^sup>*\<^sup>*"

text \<open>The program as it is, with the flags synchronised, and with everything.\<close>

definition unsynchronised :: sync where
  "unsynchronised = \<lparr>sync_writes = False, sync_reads = False, sync_handlers = False\<rparr>"

definition synchronised_flags :: sync where
  "synchronised_flags = \<lparr>sync_writes = True, sync_reads = True, sync_handlers = False\<rparr>"

definition synchronised :: sync where
  "synchronised = \<lparr>sync_writes = True, sync_reads = True, sync_handlers = True\<rparr>"

lemmas sync_defs = unsynchronised_def synchronised_flags_def synchronised_def

end
