(* ===== verification/Window_Correct.thy ===== *)
theory Window_Correct
  imports Window_Proc MySql_Correct
begin

text \<open>
  What the window's thread does: the escaping of passwords, when the login button lets the login loop
  go on, what the keys and buttons lead to, when the window comes up at all.
\<close>

section \<open>Escaping\<close>

definition escape_char :: "char \<Rightarrow> string" where
  "escape_char c = (if c = CHR ''+'' then ''%2b'' else [c])"

lemma escape_no_plus: "CHR ''+'' \<notin> set s \<Longrightarrow> concat (map escape_char s) = s"
  by (induction s) (auto simp: escape_char_def)

lemma escape_plus_eq: "escape_plus s = concat (map escape_char s)"
proof (induction s rule: escape_plus.induct)
  case (1 s)
  show ?case
  proof (cases "find_sub ''+'' s")
    case None
    then have "CHR ''+'' \<notin> set s" using find_char_None [of "CHR ''+''" s] by (simp add: find_char_def)
    with None show ?thesis by (simp add: escape_plus.simps [of s] escape_no_plus)
  next
    case (Some pos)
    have "escape_plus s = concat (map escape_char (take pos s @ ''%2b'' @ drop (pos + 1) s))"
      using 1 [OF Some] Some by (simp add: escape_plus.simps [of s])
    also have "\<dots> = concat (map escape_char (take pos s @ CHR ''+'' # drop (pos + 1) s))"
      by (simp add: escape_char_def)
    also have "\<dots> = concat (map escape_char s)" by (simp only: find_plus_split [OF Some, symmetric])
    finally show ?thesis .
  qed
qed

text \<open>C27: the replacement loop ends and does what a single pass does: every plus sign becomes "%2b"
  and nothing else changes, so none is left. A percent sign or an ampersand is not escaped: a
  typed "%2b" is sent like a plus sign, so different passwords are sent as the same.\<close>

theorem escape_plus_spec:
  "escape_plus s = concat (map escape_char s) \<and> CHR ''+'' \<notin> set (escape_plus s) \<and>
   escape_plus (a @ CHR ''+'' # b) = escape_plus (a @ ''%2b'' @ b)"
proof -
  have "CHR ''+'' \<notin> set (concat (map escape_char s))" by (auto simp: escape_char_def split: if_splits)
  then show ?thesis unfolding escape_plus_eq by (simp add: escape_char_def)
qed

section \<open>The login button\<close>

text \<open>The handler's flag writes let the login loop go on.\<close>

definition releases :: "flag_write list \<Rightarrow> bool" where
  "releases ws \<longleftrightarrow> \<not> empPWCT (fold apply_write ws (globals_init\<lparr>empPWCT := True\<rparr>))"

lemma apply_write_simps [simp]:
  "apply_write (Set_empPWCT b) g = g\<lparr>empPWCT := b\<rparr>"
  "apply_write (Set_boolGetBack b) g = g\<lparr>boolGetBack := b\<rparr>"
  by (simp_all add: apply_write_def)

text \<open>The two ways the gateway's answer can end.\<close>

lemma releases_simps:
  "releases [Set_empPWCT True, Set_boolGetBack False, Set_empPWCT False]" "\<not> releases [Set_boolGetBack False, Set_empPWCT True]"
  by (simp_all add: releases_def)

lemma check_answer_cases:
  assumes "check_answer env g1 = Some (Inr (g', ws))"
  obtains (accepted) "BoolHttpback g1" "user_update (ck_db env) (getUpw g1) (DbTconn g1) = Inr (True, DbTconn g')"
      "ws = [Set_empPWCT True, Set_boolGetBack False, Set_empPWCT False]" "getUpw g' = getUpw g1"
      "chhttpPOST g' = chhttpPOST g1" "\<not> dp_controls (shown g')"
  | (refused) "BoolHttpback g1 \<Longrightarrow> \<exists>c. user_update (ck_db env) (getUpw g1) (DbTconn g1) = Inr (False, c)"
      "ws = [Set_boolGetBack False, Set_empPWCT True]" "getUpw g' = getUpw g1"
proof (cases "BoolHttpback g1")
  case False
  with assms show thesis by (intro refused) (auto simp: check_answer_def elim!: bind_runE)
next
  case True
  with assms obtain ok c where u: "user_update (ck_db env) (getUpw g1) (DbTconn g1) = Inr (ok, c)"
    by (auto simp: check_answer_def elim!: bind_runE)
  show thesis
  proof (cases ok)
    case True
    with assms u \<open>BoolHttpback g1\<close> show thesis by (intro accepted) (auto simp: check_answer_def Let_def set_controls_def elim!: bind_runE)
  next
    case False
    with assms u \<open>BoolHttpback g1\<close> show thesis by (intro refused) (auto simp: check_answer_def Let_def)
  qed
qed

lemma gateway_checkE:
  assumes "gateway_check env pw g = Some (Inr g1)"
  obtains f b where "g1 = g\<lparr>chhttpPOST := f, BoolHttpback := b\<rparr>"
  using assms by (auto simp: gateway_check_def elim!: bind_runE)

text \<open>C12: the login button. Whatever the gateway and the database do, when the handler returns it lets
  the login loop go on exactly when the password had more than seven characters, the gateway
  accepted the form, and the database accepted the new password: then the statement sent last
  stores the password as typed, \<open>boolGetBack\<close> is cleared before the loop is let go, and the controls are
  hidden. In every other case the loop keeps waiting.\<close>

theorem login_click_spec:
  assumes "login_click env g = Some (Inr (g', ws))"
  shows "(releases ws \<longleftrightarrow>
      7 < length (getUpw g') \<and>
      gateway_check env (escape_plus (getUpw g')) (g\<lparr>getUpw := getUpw g'\<rparr>) = Some (Inr (g\<lparr>getUpw := getUpw g', chhttpPOST := chhttpPOST g', BoolHttpback := True\<rparr>)) \<and>
      user_update (ck_db env) (getUpw g') (DbTconn g) = Inr (True, DbTconn g')) \<and>
    getUpw g' = c_str (take 1023 (dp_edit (shown g))) \<and>
    (releases ws \<longrightarrow> ws = [Set_empPWCT True, Set_boolGetBack False, Set_empPWCT False] \<and> \<not> dp_controls (shown g')) \<and>
    (\<not> releases ws \<longrightarrow> ws = [Set_boolGetBack False, Set_empPWCT True])"
proof -
  let ?u = "c_str (take 1023 (dp_edit (shown g)))"
  let ?g = "g\<lparr>getUpw := ?u\<rparr>"
  show ?thesis
  proof (cases "7 < length ?u")
    case False
    with assms have "ws = [Set_boolGetBack False, Set_empPWCT True]" "getUpw g' = ?u"
      by (auto simp: login_click_def elim!: bind_runE)
    with False show ?thesis by (simp add: releases_simps)
  next
    case long: True
    with assms obtain g1 where g1: "gateway_check env (escape_plus ?u) ?g = Some (Inr g1)"
      and answer: "check_answer env g1 = Some (Inr (g', ws))" by (auto simp: login_click_def elim!: bind_runE)
    obtain f b where f: "g1 = ?g\<lparr>chhttpPOST := f, BoolHttpback := b\<rparr>" using g1 by (rule gateway_checkE)
    from answer show ?thesis
    proof (cases rule: check_answer_cases)
      case accepted
      with g1 f long show ?thesis by (simp add: releases_simps)
    next
      case refused
      have "\<not> user_update (ck_db env) ?u (DbTconn g) = Inr (True, DbTconn g')" if "g1 = ?g\<lparr>chhttpPOST := x, BoolHttpback := True\<rparr>" for x
        using refused(1) by (auto simp: that)
      with refused g1 f show ?thesis by (auto simp: releases_simps)
    qed
  qed
qed


text \<open>A gateway that answers with an empty reply and a database that accepts everything.\<close>

definition easy_check :: "sql_row list \<Rightarrow> check_env" where
  "easy_check rows = \<lparr>ck_fuel = 1, ck_logout = example_network [], ck_login = example_network [], ck_db = example_db rows\<rparr>"

lemma easy_postData: "postData 1 (example_network []) host path content = Some (Inr True)"
  by (simp add: postData_def socketHttp_def example_network_def deliver_def buf_write_def BUF_SIZE_def c_str_def find_sub_None Let_def)

lemma easy_getData: "getData 1 (example_network []) host path content = Some (Inr ())"
  by (simp add: getData_def socketHttp_def example_network_def deliver_def buf_write_def BUF_SIZE_def)

lemma easy_gateway_check:
  "login_form g pw = Inr form \<Longrightarrow>
     gateway_check (easy_check rows) pw g = Some (Inr (g\<lparr>chhttpPOST := form, BoolHttpback := True\<rparr>))"
  using easy_postData easy_getData by (simp add: gateway_check_def easy_check_def)

definition typed :: "string \<Rightarrow> globals" where
  "typed pw = globals_init\<lparr>BALLoginDt := ''u=%s&p=%s'', strlogUser := ''bob'',
     shown := \<lparr>dp_title = [], dp_cLogin = [], dp_edit = pw, dp_controls = True\<rparr>\<rparr>"

theorem login_click_spec_witness:
  "\<exists>g' ws. login_click (easy_check []) (typed ''secret+word'') = Some (Inr (g', ws)) \<and> releases ws \<and>
     chhttpPOST g' = ''u=bob&p=secret%2bword'' \<and> getUpw g' = ''secret+word'' \<and> \<not> dp_controls (shown g')"
proof -
  let ?g = "(typed ''secret+word'')\<lparr>getUpw := ''secret+word''\<rparr>"
  have u: "c_str (take 1023 (dp_edit (shown (typed ''secret+word'')))) = ''secret+word''"
    by (simp add: typed_def c_str_def)
  have e: "escape_plus ''secret+word'' = ''secret%2bword''"
    by (simp add: escape_plus_eq escape_char_def)
  have "login_form ?g ''secret%2bword'' = Inr ''u=bob&p=secret%2bword''"
    by (simp add: login_form_def typed_def sprintf_s_def c_str_def)
  from easy_gateway_check [OF this]
  have gc: "gateway_check (easy_check []) (escape_plus ''secret+word'') ?g =
      Some (Inr (?g\<lparr>chhttpPOST := ''u=bob&p=secret%2bword'', BoolHttpback := True\<rparr>))" unfolding e by simp
  have dbt: "DbTconn (typed ''secret+word'') = MySqlConn_new" by (simp add: typed_def globals_init_def)
  obtain c where up: "user_update (ck_db (easy_check [])) ''secret+word'' MySqlConn_new = Inr (True, c)"
    by (simp add: user_update_def easy_check_def example_db_def mysql_query_def Let_def MySqlConn_new_def
        user_update_format_def sprintf_s_def c_str_def)
  have "\<exists>g' ws. login_click (easy_check []) (typed ''secret+word'') = Some (Inr (g', ws)) \<and>
      chhttpPOST g' = ''u=bob&p=secret%2bword''"
    using gc up by (simp add: login_click_def u check_answer_def dbt Let_def set_controls_def)
  then obtain g' ws where l: "login_click (easy_check []) (typed ''secret+word'') = Some (Inr (g', ws))"
    and f: "chhttpPOST g' = ''u=bob&p=secret%2bword''" by blast
  have d: "DbTconn g' = c"
    using l gc up by (auto simp: login_click_def u check_answer_def dbt Let_def set_controls_def)
  note sp = login_click_spec [OF l]
  have gu: "getUpw g' = ''secret+word''" using sp u by simp
  have "releases ws" using sp gc up by (simp add: gu f d dbt)
  then show ?thesis using l f gu sp by blast
qed

section \<open>Keys and buttons\<close>

text \<open>How input reaches the handlers. The command message of a button and the Enter key in any
  child window are answered by a posted click that carries the button's handle; processed in its turn
  it runs the login button's handler (the Enter key always stands for that button, shown or not) or
  the other's, and posts nothing. Closing the window hides it and posts the message that ends the
  loop.\<close>

theorem input_protocol:
  assumes w: "cw_hWnd (win g) = Some h" "cw_hWndButton (win g) = Some b" "cw_hWndButtonBack (win g) = Some k" "b \<noteq> k"
  shows "(let click = \<lparr>msg_hwnd = Some h, msg_message = BM_CLICK, msg_wParam = p, msg_lParam = Some x\<rparr>
      in ProcessNextMessage env \<lparr>msg_hwnd = Some h, msg_message = WM_COMMAND, msg_wParam = p, msg_lParam = Some x\<rparr> g =
           Some (Inr (True, [click], [], g))) \<and>
    (let key = \<lparr>msg_hwnd = Some c, msg_message = WM_KEYDOWN, msg_wParam = VK_RETURN, msg_lParam = l\<rparr>
     in ProcessNextMessage env key g =
          Some (Inr (True, [\<lparr>msg_hwnd = Some c, msg_message = BM_CLICK, msg_wParam = VK_RETURN, msg_lParam = Some b\<rparr>], [], g))) \<and>
    ProcessNextMessage env \<lparr>msg_hwnd = Some c, msg_message = BM_CLICK, msg_wParam = p, msg_lParam = Some k\<rparr> g =
      bind_run (back_click g) (\<lambda>(g', ws). Some (Inr (True, [], ws, g'))) \<and>
    (\<forall>g' ws. login_click env g = Some (Inr (g', ws)) \<longrightarrow>
      ProcessNextMessage env \<lparr>msg_hwnd = Some c, msg_message = BM_CLICK, msg_wParam = p, msg_lParam = Some b\<rparr> g =
        Some (Inr (True, [], ws, g'))) \<and>
    (let exit = \<lparr>msg_hwnd = Some h, msg_message = WM_EXIT_THREAD, msg_wParam = 0, msg_lParam = None\<rparr>
     in WndProc g \<lparr>msg_hwnd = Some h, msg_message = WM_CLOSE, msg_wParam = p, msg_lParam = l\<rparr> = [HideWindow, PostMessage exit] \<and>
        message_loop env (exit # ms) g = Some (Inr (False, g)))"
proof -
  have "cw_hWndButtonBack (win g') = Some k" if "login_click env g = Some (Inr (g', ws))" for g' ws
    using that w(3)
    by (auto simp: login_click_def gateway_check_def check_answer_def set_controls_def Let_def
        elim!: bind_runE split: if_splits)
  moreover have "posts [DefWindowProc m] = []" for m by (simp add: posts_def)
  ultimately show ?thesis
    using w by (auto simp: ProcessNextMessage_def WndProc_def message_defs posts_def Let_def
        split: option.splits)
qed


definition open_window :: globals where
  "open_window = globals_init\<lparr>win := \<lparr>cw_hWnd = Some 1, cw_hWndEDIT = Some 2, cw_hWndButton = Some 3,
     cw_hWndButtonBack = Some 4, cw_hWndLab = Some 5, cw_hInst = Some 6, cw_pProvider = Some 7, cw_fConnected = False\<rparr>\<rparr>"

theorem input_protocol_witness:
  "\<exists>g'. ProcessNextMessage (easy_check []) \<lparr>msg_hwnd = Some 1, msg_message = BM_CLICK, msg_wParam = 0, msg_lParam = Some 4\<rparr>
      open_window = Some (Inr (True, [], [Set_empPWCT False, Set_boolGetBack True], g'))"
proof -
  have "cw_hWnd (win open_window) = Some 1" "cw_hWndButton (win open_window) = Some 3"
    "cw_hWndButtonBack (win open_window) = Some 4" "(3::nat) \<noteq> 4" by (simp_all add: open_window_def)
  from input_protocol [OF this, where c = 1 and p = 0 and env = "easy_check []"]
  have "ProcessNextMessage (easy_check []) \<lparr>msg_hwnd = Some 1, msg_message = BM_CLICK, msg_wParam = 0, msg_lParam = Some 4\<rparr>
      open_window = bind_run (back_click open_window) (\<lambda>(g', ws). Some (Inr (True, [], ws, g')))" by blast
  then show ?thesis by (simp add: back_click_def Let_def)
qed

section \<open>Starting the thread\<close>

text \<open>Whether the window's thread runs. When any of the class, the window and its controls cannot be
  had for a positive system error, the thread ends and the window is forgotten. When all of them
  can, and the window is updated, it still depends on a value that nothing has set:
  \<open>ShowWindow\<close> answers false for a window that was not visible before, as here, and the code takes that for
  a failure whose reason is the thread's last error; it goes on exactly when that one is not a failure, as
  when it happens to be 0.\<close>

theorem window_start:
  assumes "\<not> we_show env" and "\<And>s. s \<noteq> At_Show \<Longrightarrow> 0 < sint (we_error env s)"
  shows "(let all = we_module env \<noteq> None \<and> we_registered env \<and> we_hWnd env \<noteq> None \<and> we_lab env \<noteq> None \<and>
          we_edit env \<noteq> None \<and> we_button env \<noteq> None \<and> we_back env \<noteq> None \<and> we_update env
      in fst (ThreadProc_start env g) = (all \<and> SUCCEEDED (HRESULT_FROM_WIN32 (we_error env At_Show))) \<and>
         cw_hWnd (win (snd (ThreadProc_start env g))) = (if fst (ThreadProc_start env g) then we_hWnd env else None))"
proof -
  have f: "\<not> SUCCEEDED (HRESULT_FROM_WIN32 (we_error env s))" if "s \<noteq> At_Show" for s
    using assms(2) [OF that] by (rule HRESULT_FROM_WIN32_fails)
  note [simp] = f [of At_RegisterClass, simplified] f [of At_CreateWindow, simplified] f [of At_Lab, simplified]
    f [of At_Edit, simplified] f [of At_Button, simplified] f [of At_Back, simplified] f [of At_Update, simplified]
    f [of At_Module, simplified] assms(1)
  note defs = ThreadProc_start_def MyRegisterClass_def InitInstance_def create_controls_def check_handle_def
    show_window_def set_controls_def
  show ?thesis
  proof (cases "we_module env \<noteq> None \<and> we_registered env \<and> we_hWnd env \<noteq> None")
    case False
    then show ?thesis by (cases "we_module env"; cases "we_hWnd env") (auto simp: defs Let_def)
  next
    case True
    then obtain h where h: "we_hWnd env = Some h" by auto
    show ?thesis
    proof (cases "we_lab env \<noteq> None \<and> we_edit env \<noteq> None \<and> we_button env \<noteq> None \<and> we_back env \<noteq> None")
      case False
      then have "\<not> SUCCEEDED (fst (create_controls env k))" for k
        by (auto simp: create_controls_def check_handle_def)
      then show ?thesis using True h False
        by (auto simp: ThreadProc_start_def MyRegisterClass_def InitInstance_def Let_def split: prod.splits)
          (metis fst_conv)+
    next
      case all: True
      then show ?thesis using True h
        by (cases "SUCCEEDED (HRESULT_FROM_WIN32 (we_error env At_Show))") (auto simp: defs Let_def)
    qed
  qed
qed

theorem window_start_witness:
  "fst (ThreadProc_start \<lparr>we_module = Some 1, we_registered = True, we_hWnd = Some 2, we_lab = Some 3, we_edit = Some 4,
       we_button = Some 5, we_back = Some 6, we_show = False, we_update = True, we_error = (\<lambda>s. if s = At_Show then 0 else 8)\<rparr>
     globals_init) \<and>
   \<not> fst (ThreadProc_start \<lparr>we_module = Some 1, we_registered = True, we_hWnd = Some 2, we_lab = Some 3, we_edit = Some 4,
       we_button = Some 5, we_back = Some 6, we_show = False, we_update = True, we_error = (\<lambda>s. 8)\<rparr>
     globals_init)"
proof -
  let ?e = "\<lambda>k. \<lparr>we_module = Some 1, we_registered = True, we_hWnd = Some 2, we_lab = Some 3, we_edit = Some 4,
       we_button = Some 5, we_back = Some 6, we_show = False, we_update = True, we_error = (\<lambda>s. if s = At_Show then k else 8)\<rparr>"
  have p: "0 < sint (8 :: 32 word)" by simp
  have "fst (ThreadProc_start (?e k) globals_init) = SUCCEEDED (HRESULT_FROM_WIN32 k)" for k
    using window_start [of "?e k" globals_init] p by (simp add: Let_def)
  from this [of 0] this [of 8] show ?thesis
    using HRESULT_FROM_WIN32_fails [OF p] by simp
qed

end
