(* ===== verification/Login_Examples.thy ===== *)
theory Login_Examples
  imports Login_Records Login_Steps Window_Correct
begin

text \<open>
  A small world in which runs of the login loop can be computed: one card, its user with or without
  a stored password, a gateway that accepts everything, a machine without network adapters.
\<close>

definition some_card :: string where "some_card = ''AAAABBBBCCCCDDDDEEEEFFFF00001111''"

definition user_row :: "string option \<Rightarrow> sql_row list" where
  "user_row pw = [[None, Some some_card, Some ''bob'', Some ''Bob'', pw]]"

definition easy_time :: system_time where
  "easy_time = \<lparr>wYear = 2019, wMonth = 3, wDay = 26, wHour = 12, wMinute = 44, wSecond = 8\<rparr>"

definition easy_pass :: "string option \<Rightarrow> pass_env" where
  "easy_pass pw = \<lparr>pe_check = easy_check (user_row pw), pe_exe = [], pe_file = (\<lambda>_. None),
     pe_machine = \<lparr>me_name = Some ''pc'', me_time = easy_time, me_adapters = AdaptersError, me_adapters_again = AdaptersError\<rparr>,
     pe_write = \<lparr>we_rtn = True, we_size = 6, we_pending = False, we_overlapped = False, we_overlapped_size = 0\<rparr>,
     pe_port = (\<lambda>_. \<lparr>oe_CreateFile = None, oe_events = (None, None, None), oe_thread = None\<rparr>)\<rparr>"

definition card_there :: globals where
  "card_there = open_window\<lparr>rx := (rx open_window)\<lparr>Readinfo := some_card\<rparr>\<rparr>"

definition card_user :: "string option \<Rightarrow> mysql_conn" where
  "card_user pw = (let c = MySqlConn_new\<lparr>sent := [set_names, ''select * from BehavioralAudit'', set_names, query_for some_card],
     results_open := 1, GetCarNumber := some_card, GetUserNames := ''bob'', GetNickNume := ''Bob'',
     GetUserPW := (case pw of None \<Rightarrow> [] | Some s \<Rightarrow> c_str s)\<rparr> in c)"

lemma some_card: "CHR 0x00 \<notin> set some_card" "length some_card = 32" "c_str some_card = some_card"
  by (simp_all add: some_card_def c_str_def)

lemma some_texts: "c_str ''bob'' = ''bob''" "c_str ''Bob'' = ''Bob''"
  "c_str ''select * from BehavioralAudit'' = ''select * from BehavioralAudit''"
  by (simp_all add: c_str_def)

lemma info_ok:
  "info_query (pe_db (easy_pass pw)) MySqlConn_new = Inr (True, MySqlConn_new\<lparr>sent := [set_names, ''select * from BehavioralAudit''], results_open := 1\<rparr>)"
proof -
  have r: "info_row [None, Some some_card, Some ''bob'', Some ''Bob'', pw] c = Inr c" for c
  proof -
    have "some_card \<noteq> ''BAip''" "some_card \<noteq> ''BALogoutdDirectory''" "some_card \<noteq> ''BALogoutT''"
      "some_card \<noteq> ''BALOginDirectory''" "some_card \<noteq> ''BALLoginDt''" by (simp_all add: some_card_def)
    then show ?thesis by (simp add: info_row_def cell_def some_card)
  qed
  show ?thesis
    by (simp add: info_query_def mysql_query_def mysql_store_result_def easy_pass_def easy_check_def example_db_def
        user_row_def r Let_def MySqlConn_new_def some_texts)
qed

lemma lookup_ok:
  "card_lookup (easy_pass pw) card_there = Inr (Found, card_there\<lparr>DbTconn := card_user pw, isOK := True,
     strlogUser := ''bob'', strlogUserPW := (case pw of None \<Rightarrow> [] | Some s \<Rightarrow> c_str s)\<rparr>)"
proof -
  have s: "sprintf_s 255 user_query_format [Some some_card] = Inr (query_for some_card)"
    by (rule user_query_statement) (simp add: some_card)
  have q: "c_str (query_for some_card) = query_for some_card" by (rule query_for_c_str) (rule some_card)
  have i: "query_settings (easy_pass pw) card_there = Inr (card_there\<lparr>DbTconn := MySqlConn_new\<lparr>sent := [set_names, ''select * from BehavioralAudit''], results_open := 1\<rparr>, isOK := True\<rparr>)"
    using info_ok [of pw] by (simp add: query_settings_def initConnection_def card_there_def open_window_def globals_init_def
      load_settings_def MySqlConn_new_def)
  have "user_query (pe_db (easy_pass pw)) some_card (MySqlConn_new\<lparr>sent := [set_names, ''select * from BehavioralAudit''], results_open := 1\<rparr>)
     = Inr (True, card_user pw)"
    by (simp add: user_query_def some_card s q mysql_query_def mysql_store_result_def easy_pass_def easy_check_def
       example_db_def user_row_def cell_def Let_def mysql_free_result_def card_user_def MySqlConn_new_def some_texts)
  moreover have "Readinfo (rx card_there) = some_card" by (simp add: card_there_def)
  ultimately show ?thesis by (simp add: card_lookup_def i) (simp add: card_user_def)
qed


definition easy_info :: string where
  "easy_info = machine_info ''2019-03-26 12:44:08'' ''pc'' no_ip no_mac"

lemma easy_MachineInfo: "MachineInfo (pe_machine (easy_pass pw)) = Inr easy_info"
proof -
  have "time_text easy_time = ''2019-03-26 12:44:08''"
    by (simp add: time_text_def easy_time_def dec.simps dec02_def digit_def char_eqs)
  then show ?thesis
    using machine_time_ok [of "pe_machine (easy_pass pw)"]
    by (simp add: MachineInfo_def easy_pass_def machine_name_def machine_adapters_def easy_info_def machine_info_def c_str_def)
qed

lemma easy_fields: "info_field ''2019-03-26 12:44:08''" "info_field ''pc''" "info_field no_ip" "info_field no_mac"
  using literal_fields by (simp_all add: info_field_def)

lemma easy_info_facts: "strcpy_s 250 easy_info = Inr easy_info"
  "split_info easy_info = (Some ''2019-03-26 12:44:08'', Some ''pc'', Some no_ip, Some no_mac)"
proof -
  have "length easy_info = 45" by (simp add: easy_info_def machine_info_def no_ip_def no_mac_def)
  then show "strcpy_s 250 easy_info = Inr easy_info"
    using machine_info_c_str [OF easy_fields] by (simp add: strcpy_s_def easy_info_def)
  show "split_info easy_info = (Some ''2019-03-26 12:44:08'', Some ''pc'', Some no_ip, Some no_mac)"
    unfolding easy_info_def by (rule split_machine_info [OF easy_fields])
qed


text \<open>The row of the login.\<close>

definition easy_login_stmt :: string where
  "easy_login_stmt = login_stmt some_card ''bob'' ''Bob'' ''2019-03-26 12:44:08'' ''pc'' no_ip no_mac"

lemma easy_record_login:
  assumes "GetCarNumber (DbTconn g) = some_card" "GetUserNames (DbTconn g) = ''bob''" "GetNickNume (DbTconn g) = ''Bob''"
  shows "\<exists>g'. record_login (easy_pass pw) g = Inr g' \<and> isOK g' \<and> last (sent (DbTconn g')) = easy_login_stmt"
proof -
  have z: "list_all plain [GetCarNumber (DbTconn g), GetUserNames (DbTconn g), GetNickNume (DbTconn g),
      ''2019-03-26 12:44:08'', ''pc'', no_ip, no_mac]"
    unfolding assms by (simp add: some_card_def no_ip_def no_mac_def)
  have l: "length (machine_info ''2019-03-26 12:44:08'' ''pc'' no_ip no_mac) < 250"
    "length (GetCarNumber (DbTconn g)) + length (GetNickNume (DbTconn g)) + length (GetUserNames (DbTconn g)) \<le> 100"
    unfolding assms by (simp_all add: machine_info_length no_ip_def no_mac_def some_card)
  have d: "db_ok (pe_db (easy_pass pw)) h q" "db_rows (pe_db (easy_pass pw)) h q = Some (user_row pw)" for h q
    by (simp_all add: easy_pass_def easy_check_def example_db_def)
  have n: "\<not> 255 \<le> length easy_login_stmt"
    by (simp add: easy_login_stmt_def login_stmt_length some_card no_ip_def no_mac_def)
  show ?thesis
    using record_login_eq [OF easy_fields easy_MachineInfo [unfolded easy_info_def] l z d(1) d(2)] n
    by (simp add: assms easy_login_stmt_def d(1) Let_def)
qed

lemma card_there_facts:
  "\<not> cw_fConnected (win card_there)" "\<not> initialization card_there" "card_ready card_there" "\<not> boolGetBack card_there"
  "cw_hWndButton (win card_there) \<noteq> cw_hWndButtonBack (win card_there)" "BALLoginDt card_there = []"
  by (simp_all add: card_there_def open_window_def globals_init_def card_ready_def some_card)

lemma card_user_names:
  "GetCarNumber (card_user pw) = some_card" "GetUserNames (card_user pw) = ''bob''" "GetNickNume (card_user pw) = ''Bob''"
  "GetUserPW (card_user pw) = (case pw of None \<Rightarrow> [] | Some s \<Rightarrow> c_str s)"
  by (simp_all add: card_user_def)

text \<open>A stored password is accepted.\<close>

lemma easy_stored:
  assumes "BALLoginDt g = []"
  shows "\<exists>g'. check_stored_password (easy_pass pw) g = Some (Inr (True, g')) \<and> DbTconn g' = DbTconn g \<and> \<not> empPWCT g' \<and> \<not> boolGetBack g'"
proof -
  have "login_form g (strlogUserPW g) = Inr []" using assms by (simp add: login_form_def sprintf_s_def c_str_def)
  from easy_gateway_check [OF this, of "user_row pw"]
  have "gateway_check (pe_check (easy_pass pw)) (strlogUserPW g) g = Some (Inr (g\<lparr>chhttpPOST := [], BoolHttpback := True\<rparr>))"
    by (simp add: easy_pass_def)
  then show ?thesis by (simp add: check_stored_password_def judge_stored_password_def set_controls_def)
qed

text \<open>A run with a stored password, synchronised or not, to the returned value.\<close>

lemma easy_run:
  "\<exists>c. login_steps sy (login_start card_there) c \<and> pc c = Returned True"
proof -
  let ?g = "card_there\<lparr>DbTconn := card_user (Some ''secret12''), isOK := True, strlogUser := ''bob'', strlogUserPW := ''secret12''\<rparr>"
  have l: "card_lookup (easy_pass (Some ''secret12'')) card_there = Inr (Found, ?g)"
    using lookup_ok [of "Some ''secret12''"] by (simp add: c_str_def)
  obtain g' where g': "check_stored_password (easy_pass (Some ''secret12'')) ?g = Some (Inr (True, g'))"
    "DbTconn g' = card_user (Some ''secret12'')" "\<not> empPWCT g'" "\<not> boolGetBack g'"
    using easy_stored [of ?g] card_there_facts by auto
  let ?c = "\<lambda>p. \<lparr>pc = p, glob = g', queue = [], pending = [], in_check = None, accepted = True, starting = 1, inputs = []\<rparr>"
  have "login_step sy (login_start card_there) (?c Waiting)"
    using stored [of "login_start card_there" "easy_pass (Some ''secret12'')" ?g True g' sy] card_there_facts l g'
    by (simp add: login_start_def at_head_def card_user_names c_str_def)
  moreover have "login_steps sy (?c Waiting) (?c Recording)"
  proof (cases "sync_reads sy")
    case True
    then show ?thesis using resume [of "?c Waiting" sy] g' by (auto simp: resume_pc_def)
  next
    case False
    then have "login_step sy (?c Waiting) (?c Resumed)" "login_step sy (?c Resumed) (?c Recording)"
      using resume [of "?c Waiting" sy] read_back [of "?c Resumed" sy] g' by (simp_all add: resume_pc_def)
    then show ?thesis by simp
  qed
  moreover obtain h where h: "record_login (easy_pass (Some ''secret12'')) g' = Inr h" "isOK h"
    using easy_record_login [of g' "Some ''secret12''"] g'(2) card_user_names by auto
  moreover obtain h' where "login_done h = Inr h'" by (simp add: login_done_def)
  ultimately show ?thesis
    using recorded [of "?c Recording" "easy_pass (Some ''secret12'')" h h' sy]
    by (intro exI [of _ "(?c Recording)\<lparr>pc := Returned True, glob := h'\<rparr>"])
      (auto intro: rtranclp.rtrancl_into_rtrancl converse_rtranclp_into_rtranclp)
qed

end
