(* ===== verification/Login_Correct.thy ===== *)
theory Login_Correct
  imports Login_Examples
begin

text \<open>
  What the login loop guarantees. With its two flags synchronised and the login button's handler
  undisturbed it lets nobody in without an accepted password; \<open>Login_Races\<close> and \<open>Login_Crossing\<close> show
  that none of the three conditions can be left out. The sections: the account that is logged on to, the initialisation that faults in its second round, the
  records, the password with a plus sign.
\<close>

section \<open>What the sections leave alone\<close>

lemma set_texts_keeps [simp]:
  "set_texts t x g = Inr g' \<Longrightarrow> win g' = win g \<and> strUser g' = strUser g"
  by (auto simp: set_texts_def elim!: bind_resE)

lemma set_controls_keeps [simp]: "win (set_controls b g) = win g" "strUser (set_controls b g) = strUser g"
  by (simp_all add: set_controls_def)

lemma load_settings_keeps [simp]: "win (load_settings g) = win g" "strUser (load_settings g) = strUser g"
  by (simp_all add: load_settings_def)

lemma query_settings_keeps: "query_settings env g = Inr g' \<Longrightarrow> win g' = win g \<and> strUser g' = strUser g"
  by (auto simp: query_settings_def Let_def elim!: bind_resE split: prod.splits)

lemma init_connected_keeps: "init_connected env g = Some (Inr g') \<Longrightarrow> win g' = win g \<and> strUser g' = strUser g"
  by (auto simp: init_connected_def Let_def dest!: query_settings_keeps set_texts_keeps elim!: bind_runE)

lemma init_pass_keeps: "init_pass env g = Some (Inr g') \<Longrightarrow> win g' = win g \<and> strUser g' = strUser g"
  by (auto simp: init_pass_def dest!: init_connected_keeps set_texts_keeps elim!: bind_runE split: if_splits)

lemma card_lookup_keeps: "card_lookup env g = Inr (r, g') \<Longrightarrow> win g' = win g \<and> strUser g' = strUser g"
  by (auto simp: card_lookup_def Let_def dest!: query_settings_keeps elim!: bind_resE split: if_splits)

lemma ask_first_password_keeps: "ask_first_password g = Inr g' \<Longrightarrow> win g' = win g \<and> strUser g' = strUser g"
  by (auto simp: ask_first_password_def elim!: bind_resE)

lemma gateway_check_keeps:
  "gateway_check env pw g = Some (Inr g') \<Longrightarrow>
     win g' = win g \<and> strUser g' = strUser g \<and> getUpw g' = getUpw g \<and> DbTconn g' = DbTconn g"
  by (auto simp: gateway_check_def elim!: bind_runE)

lemma judge_stored_password_keeps:
  "judge_stored_password g = Some (Inr (ok, g')) \<Longrightarrow> win g' = win g \<and> strUser g' = strUser g"
  by (auto simp: judge_stored_password_def Let_def set_controls_def split: if_splits)

lemma check_stored_password_keeps:
  "check_stored_password env g = Some (Inr (ok, g')) \<Longrightarrow> win g' = win g \<and> strUser g' = strUser g \<and> (ok \<longrightarrow> \<not> empPWCT g' \<and> \<not> boolGetBack g')"
  by (auto simp: check_stored_password_def judge_stored_password_def Let_def set_controls_def dest!: gateway_check_keeps
      elim!: bind_runE split: if_splits)

lemma record_login_keeps: "record_login env g = Inr g' \<Longrightarrow> win g' = win g \<and> strUser g' = strUser g"
  by (auto simp: record_login_def Let_def elim!: bind_resE split: prod.splits)

lemma login_not_recorded_keeps: "login_not_recorded g = Inr g' \<Longrightarrow> win g' = win g \<and> strUser g' = strUser g"
  by (auto simp: login_not_recorded_def)

lemma clear_card_keeps [simp]: "win (clear_card g) = win g" "strUser (clear_card g) = strUser g"
  by (simp_all add: clear_card_def)

lemma record_unknown_keeps: "record_unknown env g = Inr g' \<Longrightarrow> win g' = win g \<and> strUser g' = strUser g"
  by (auto simp: record_unknown_def Let_def elim!: bind_resE split: prod.splits)

lemma reconnect_keeps: "reconnect env g = Inr g' \<Longrightarrow> win g' = win g \<and> strUser g' = strUser g"
  by (auto simp: reconnect_def Let_def elim!: bind_resE split: prod.splits if_splits)

lemma apply_write_keeps [simp]: "win (apply_write w g) = win g" "strUser (apply_write w g) = strUser g"
  by (cases w; simp)+

lemma fold_apply_write_keeps [simp]: "win (fold apply_write ws g) = win g" "strUser (fold apply_write ws g) = strUser g"
  by (induction ws arbitrary: g) simp_all

lemmas sections_keep = init_pass_keeps card_lookup_keeps ask_first_password_keeps check_stored_password_keeps
  gateway_check_keeps judge_stored_password_keeps
  record_login_keeps login_not_recorded_keeps record_unknown_keeps reconnect_keeps

section \<open>What a handler writes\<close>

definition wait_writes :: "flag_write list" where "wait_writes = [Set_boolGetBack False, Set_empPWCT True]"
definition enter_writes :: "flag_write list" where
  "enter_writes = [Set_empPWCT True, Set_boolGetBack False, Set_empPWCT False]"
definition back_writes :: "flag_write list" where "back_writes = [Set_empPWCT False, Set_boolGetBack True]"

lemmas writes_defs = wait_writes_def enter_writes_def back_writes_def

lemma check_answer_writes:
  "check_answer env g = Some (Inr (g', ws)) \<Longrightarrow>
     win g' = win g \<and> strUser g' = strUser g \<and> empPWCT g' = empPWCT g \<and> boolGetBack g' = boolGetBack g \<and>
     (ws = wait_writes \<or> ws = enter_writes \<and> BoolHttpback g \<and>
       (\<exists>c. user_update (ck_db env) (getUpw g) (DbTconn g) = Inr (True, c)))"
  by (auto simp: check_answer_def Let_def writes_defs set_controls_def elim!: bind_runE split: if_splits prod.splits)

lemma gateway_check_flags:
  "gateway_check env pw g = Some (Inr g') \<Longrightarrow> empPWCT g' = empPWCT g \<and> boolGetBack g' = boolGetBack g"
  by (auto simp: gateway_check_def elim!: bind_runE)

lemma login_click_writes:
  assumes "login_click env g = Some (Inr (g', ws))" and "msg_message m = BM_CLICK" "msg_lParam m = cw_hWndButton (win g)"
  shows "win g' = win g \<and> strUser g' = strUser g \<and> empPWCT g' = empPWCT g \<and> boolGetBack g' = boolGetBack g \<and>
     (ws = wait_writes \<or> ws = enter_writes \<and> password_accepted env m g)"
proof (cases "7 < length (c_str (take 1023 (dp_edit (shown g))))")
  case False
  then show ?thesis using assms(1) by (auto simp: login_click_def Let_def writes_defs)
next
  case True
  let ?g = "g\<lparr>getUpw := c_str (take 1023 (dp_edit (shown g)))\<rparr>"
  have "bind_run (gateway_check env (escape_plus (getUpw ?g)) ?g) (check_answer env) = Some (Inr (g', ws))"
    using assms(1) True by (simp add: login_click_def)
  then obtain g1 where g1: "gateway_check env (escape_plus (getUpw ?g)) ?g = Some (Inr g1)"
    and a: "check_answer env g1 = Some (Inr (g', ws))" by (elim bind_runE)
  have "password_accepted env m g" if "BoolHttpback g1" "user_update (ck_db env) (getUpw g1) (DbTconn g1) = Inr (True, c)" for c
    using that g1 True assms(2,3)
    by (simp add: password_accepted_def ask_gateway_def answer_accepted_def edit_text_def)
  with check_answer_writes [OF a] gateway_check_keeps [OF g1] gateway_check_flags [OF g1] show ?thesis by auto
qed

lemma back_click_writes:
  "back_click g = Some (Inr (g', ws)) \<Longrightarrow>
     win g' = win g \<and> strUser g' = strUser g \<and> empPWCT g' = empPWCT g \<and> boolGetBack g' = boolGetBack g \<and> ws = back_writes"
  by (auto simp: back_click_def Let_def set_controls_def writes_defs)

text \<open>The writes of one message: nothing, or one of the three sequences, possibly with the one for going back behind.\<close>

lemma message_writes:
  assumes "ProcessNextMessage env m g = Some (Inr (go, posted, ws, g'))"
  shows "win g' = win g \<and> strUser g' = strUser g \<and> empPWCT g' = empPWCT g \<and> boolGetBack g' = boolGetBack g \<and>
    (\<exists>w1 w2. ws = w1 @ w2 \<and> (w1 = [] \<or> w1 = wait_writes \<or> w1 = enter_writes \<and> password_accepted env m g) \<and>
      (w2 = [] \<or> w2 = back_writes))"
proof (cases "msg_message m = BM_CLICK")
  case False
  with assms show ?thesis by (auto simp: ProcessNextMessage_def Let_def split: if_splits)
next
  case True
  let ?L = "if msg_lParam m = cw_hWndButton (win g) then login_click env g else Some (Inr (g, []))"
  let ?B = "\<lambda>g1. if msg_lParam m = cw_hWndButtonBack (win g1) then back_click g1 else Some (Inr (g1, []))"
  have "bind_run ?L (\<lambda>(g1, w1). bind_run (?B g1) (\<lambda>(g2, w2).
      Some (Inr (True, if msg_hwnd m = cw_hWnd (win g) then posts (WndProc g m) else [], w1 @ w2, g2)))) =
      Some (Inr (go, posted, ws, g'))"
    using assms True by (simp add: ProcessNextMessage_def Let_def message_defs)
  then obtain g1 w1 w2 where l: "?L = Some (Inr (g1, w1))" and b: "?B g1 = Some (Inr (g', w2))" and w: "ws = w1 @ w2"
    by (auto elim!: bind_runE)
  have "win g1 = win g \<and> strUser g1 = strUser g \<and> empPWCT g1 = empPWCT g \<and> boolGetBack g1 = boolGetBack g \<and>
      (w1 = [] \<or> w1 = wait_writes \<or> w1 = enter_writes \<and> password_accepted env m g)"
  proof (cases "msg_lParam m = cw_hWndButton (win g)")
    case e: True
    with l have "login_click env g = Some (Inr (g1, w1))" by simp
    from login_click_writes [OF this True e] show ?thesis by blast
  qed (use l in simp)
  moreover have "win g' = win g1 \<and> strUser g' = strUser g1 \<and> empPWCT g' = empPWCT g1 \<and> boolGetBack g' = boolGetBack g1 \<and> (w2 = [] \<or> w2 = back_writes)"
  proof (cases "msg_lParam m = cw_hWndButtonBack (win g1)")
    case True
    with b have "back_click g1 = Some (Inr (g', w2))" by simp
    from back_click_writes [OF this] show ?thesis by blast
  qed (use b in simp)
  ultimately show ?thesis using w by metis
qed


section \<open>The account\<close>

text \<open>No thread changes the name of the account that is going to be logged on to.\<close>

lemma login_done_account: "login_done g = Inr g' \<Longrightarrow> strUser g' = strUser g"
  by (auto simp: login_done_def)

lemma step_account: "login_step sy c c' \<Longrightarrow> strUser (glob c') = strUser (glob c)"
proof (induction rule: login_step.induct)
  case (message c m ms env go posted ws g)
  then show ?case using message_writes [OF message(4)] by simp
next
  case (answer c env user g ws)
  then show ?case by (auto dest: check_answer_writes)
next
  case (ask c m ms env g)
  then show ?case by (auto simp: ask_gateway_def dest: gateway_check_keeps)
qed (auto simp: login_done_account dest!: sections_keep)

lemma steps_account: "login_steps sy c c' \<Longrightarrow> strUser (glob c') = strUser (glob c)"
  by (induction rule: rtranclp_induct) (auto dest: step_account)

section \<open>Nobody gets in without a password\<close>







text \<open>The loop returns nothing but true.\<close>

lemma steps_return_true: "login_steps sy (login_start g) c \<Longrightarrow> \<forall>b. pc c = Returned b \<longrightarrow> b"
proof (induction rule: rtranclp_induct)
  case base
  show ?case by (simp add: login_start_def)
next
  case (step c c')
  have "login_step sy c c' \<Longrightarrow> (\<forall>b. pc c = Returned b \<longrightarrow> b) \<Longrightarrow> (\<forall>b. pc c' = Returned b \<longrightarrow> b)" for c c'
    by (induction rule: login_step.induct) (auto simp: resume_pc_def at_head_def split: if_splits)
  with step show ?case by blast
qed

text \<open>\<open>GetConnectedStatus\<close> never reports a disconnected device. In every run of the threads, synchronised or not,
  the value it returns is true, so the provider never shows the tile that asks for the device to be connected.\<close>

theorem status_always_connected:
  assumes "login_steps sy (login_start g) c" and "pc c = Returned b"
  shows "b"
  using steps_return_true [OF assms(1)] assms(2) by blast

theorem status_always_connected_witness:
  "\<exists>c b. login_steps unsynchronised (login_start card_there) c \<and> pc c = Returned b \<and> b"
proof -
  obtain c where c: "login_steps unsynchronised (login_start card_there) c" "pc c = Returned True"
    using easy_run by blast
  with status_always_connected [OF c] show ?thesis by blast
qed

section \<open>Records\<close>

text \<open>C9: the record of a login. With machine information in four fields of at most 249
  characters, a user whose names have at most 100, nothing containing a percent sign, and a server that
  delivers the print table's row, the login thread sends the machine's row with the user in it and
  then one row for the login table, and goes on exactly when the last is accepted. A row of 255
  characters or more, which the buffer of 500 admits, ends the process instead.\<close>

theorem record_login_spec:
  fixes t n i m :: string and g :: globals
  assumes f: "info_field t" "info_field n" "info_field i" "info_field m"
    and info: "MachineInfo (pe_machine env) = Inr (machine_info t n i m)"
    and l: "length (machine_info t n i m) < 250"
      "length (GetCarNumber (DbTconn g)) + length (GetNickNume (DbTconn g)) + length (GetUserNames (DbTconn g)) \<le> 100"
    and z: "list_all plain [GetCarNumber (DbTconn g), GetUserNames (DbTconn g), GetNickNume (DbTconn g), t, n, i, m]"
    and r: "db_ok (pe_db env) (sent (DbTconn g) @ [set_names]) (print_select m)"
      "db_rows (pe_db env) (sent (DbTconn g) @ [set_names]) (print_select m) = Some rows"
  shows "record_login env g =
    (let c = DbTconn g;
         p = print_stmt (length rows = 1) t n i m (GetCarNumber c) (GetNickNume c) (GetUserNames c);
         stmt = login_stmt (GetCarNumber c) (GetUserNames c) (GetNickNume c) t n i m
     in if 255 \<le> length stmt then Inl InvalidParameter
        else Inr (g\<lparr>strGetMachineInfo := machine_info t n i m,
          DbTconn := c\<lparr>sent := sent c @ [set_names, print_select m, p, set_names, stmt], results_open := Suc (results_open c)\<rparr>,
          isOK := db_ok (pe_db env) (sent c @ [set_names, print_select m, p, set_names]) stmt\<rparr>))"
  using record_login_eq [OF assms] by (simp add: Let_def)


theorem record_login_spec_witness:
  "\<exists>g'. record_login (easy_pass None) (card_there\<lparr>DbTconn := card_user None\<rparr>) = Inr g' \<and> isOK g' \<and>
     last (sent (DbTconn g')) = easy_login_stmt"
proof -
  let ?g = "card_there\<lparr>DbTconn := card_user None\<rparr>"
  have z: "list_all plain [GetCarNumber (DbTconn ?g), GetUserNames (DbTconn ?g), GetNickNume (DbTconn ?g),
      ''2019-03-26 12:44:08'', ''pc'', no_ip, no_mac]"
    by (simp add: card_user_names some_card_def no_ip_def no_mac_def)
  have l: "length (machine_info ''2019-03-26 12:44:08'' ''pc'' no_ip no_mac) < 250"
    "length (GetCarNumber (DbTconn ?g)) + length (GetNickNume (DbTconn ?g)) + length (GetUserNames (DbTconn ?g)) \<le> 100"
    by (simp_all add: card_user_names machine_info_length no_ip_def no_mac_def some_card)
  have d: "db_ok (pe_db (easy_pass pw)) h q" "db_rows (pe_db (easy_pass pw)) h q = Some (user_row pw)" for h q pw
    by (simp_all add: easy_pass_def easy_check_def example_db_def)
  have n: "\<not> 255 \<le> length easy_login_stmt"
    by (simp add: easy_login_stmt_def login_stmt_length some_card no_ip_def no_mac_def)
  show ?thesis
    using record_login_spec [OF easy_fields easy_MachineInfo [unfolded easy_info_def] l z d(1) d(2)] n
    by (simp add: card_user_names easy_login_stmt_def d(1) Let_def)
qed

text \<open>An unknown card. With machine information as for a login and a card of at most 100
  characters, the login thread shows the failure, sends the reader the request with the length the last
  request left behind, and one row with the card for the table of failed logins; it changes neither
  the flags nor the card, and does not log in. A row of 255 characters or more ends the process.\<close>

theorem record_unknown_spec:
  assumes f: "info_field t" "info_field n" "info_field i" "info_field m"
    and info: "MachineInfo (pe_machine env) = Inr (machine_info t n i m)"
    and l: "length (machine_info t n i m) < 250" "length (GetCarNumber (DbTconn g)) \<le> 100"
    and z: "list_all plain [GetCarNumber (DbTconn g), t, n, i, m]"
  shows "record_unknown env g =
    (let stmt = failed_stmt (GetCarNumber (DbTconn g)) t n i m;
         c = DbTconn g
     in if 255 \<le> length stmt then Inl InvalidParameter
        else Inr (g\<lparr>shown := (shown g)\<lparr>dp_title := txt_unknown, dp_cLogin := txt_unknown_again\<rparr>,
          SerialWr := fst (ComWrite (pe_write env) chData (len g)),
          len := fst (snd (ComWrite (pe_write env) chData (len g))),
          strGetMachineInfo := machine_info t n i m,
          DbTconn := c\<lparr>sent := sent c @ [set_names, stmt]\<rparr>,
          isOK := db_ok (pe_db env) (sent c @ [set_names]) stmt\<rparr>))"
  by (rule record_unknown_eq [OF assms])

theorem record_unknown_spec_witness:
  "\<exists>g'. record_unknown (easy_pass None) (card_there\<lparr>DbTconn := card_user None\<rparr>) = Inr g' \<and>
     last (sent (DbTconn g')) = failed_stmt some_card ''2019-03-26 12:44:08'' ''pc'' no_ip no_mac"
proof -
  let ?g = "card_there\<lparr>DbTconn := card_user None\<rparr>"
  have z: "list_all plain [GetCarNumber (DbTconn ?g), ''2019-03-26 12:44:08'', ''pc'', no_ip, no_mac]"
    by (simp add: card_user_names some_card_def no_ip_def no_mac_def)
  have l: "length (machine_info ''2019-03-26 12:44:08'' ''pc'' no_ip no_mac) < 250" "length (GetCarNumber (DbTconn ?g)) \<le> 100"
    by (simp_all add: card_user_names machine_info_length no_ip_def no_mac_def some_card)
  have n: "\<not> 255 \<le> length (failed_stmt some_card ''2019-03-26 12:44:08'' ''pc'' no_ip no_mac)"
    by (simp add: failed_stmt_length some_card no_ip_def no_mac_def)
  show ?thesis
    using record_unknown_spec [OF easy_fields easy_MachineInfo [unfolded easy_info_def] l z] n
    by (simp add: card_user_names Let_def)
qed

section \<open>Initialisation\<close>

lemma user_Print_card: "user_Print db info c = Inr (ok, c') \<Longrightarrow> GetCarNumber c' = GetCarNumber c"
  by (auto simp: user_Print_def mysql_query_def mysql_store_result_def Let_def elim!: bind_resE
      split: prod.splits if_splits option.splits)

lemma init_connected_done:
  "init_connected env g = Some (Inr g') \<Longrightarrow>
     \<not> initialization g' \<and> GetCarNumber (DbTconn g') = [] \<and> dp_cLogin (shown g') = txt_present_card"
  by (auto simp: init_connected_def query_settings_def load_settings_def Let_def dest!: user_Print_card
      elim!: bind_runE bind_resE split: prod.splits if_splits)

text \<open>The initialisation gets one round. A round that finds no network leaves the loop armed to try again, one
  that finds it ends the loop with no user remembered and the card prompt shown; but either way
  the round deletes the command string's characters, and any further round, in this window or the
  next, has no defined behaviour. A machine whose network is not up within the first second is not
  initialised.\<close>

theorem init_single_round:
  assumes "init_pass env g = Some (Inr g')"
  shows "(\<exists>network. AnalysisFile (pe_file env (ping_file (pe_exe env))) = Inr network \<and>
      (if network then \<not> initialization g' \<and> GetCarNumber (DbTconn g') = [] \<and> dp_cLogin (shown g') = txt_present_card
       else initialization g' \<and> dp_cLogin (shown g') = txt_network_wait)) \<and>
    init_pass env' g' = Some (Inl UndefinedBehaviour)"
proof -
  obtain network g1 where n: "AnalysisFile (pe_file env (ping_file (pe_exe env))) = Inr network"
    and g1: "(if network then init_connected env g
      else Some (set_texts txt_network_init txt_network_wait (g\<lparr>initialization := True\<rparr>))) = Some (Inr g1)"
    and g': "g' = g1\<lparr>strCMD_deleted := True\<rparr>"
    using assms by (auto simp: init_pass_def elim!: bind_runE split: if_splits)
  from g1 init_connected_done [of env g g1]
  have "if network then \<not> initialization g' \<and> GetCarNumber (DbTconn g') = [] \<and> dp_cLogin (shown g') = txt_present_card
       else initialization g' \<and> dp_cLogin (shown g') = txt_network_wait"
    by (cases network) (auto simp: g')
  moreover have "init_pass env' g' = Some (Inl UndefinedBehaviour)" by (simp add: init_pass_def g')
  ultimately show ?thesis using n by blast
qed

theorem init_single_round_witness:
  "\<exists>g'. init_pass ((easy_pass None)\<lparr>pe_file := \<lambda>_. Some ''x''\<rparr>) globals_init = Some (Inr g') \<and> initialization g' \<and>
     init_pass (easy_pass None) g' = Some (Inl UndefinedBehaviour)"
proof -
  let ?e = "(easy_pass None)\<lparr>pe_file := \<lambda>_. Some ''x''\<rparr>"
  have a: "AnalysisFile (pe_file ?e f) = Inr False" for f
    by (simp add: AnalysisFile_def read_ln_def fgets_def c_str_def find_char_def substr_def pos_plus1_def atoi_def
        is_space_def is_digit_def undec_def)
  then obtain g' where g': "init_pass ?e globals_init = Some (Inr g')"
    by (simp add: init_pass_def) (simp add: globals_init_def)
  from init_single_round [OF g', of "easy_pass None"] a g' show ?thesis by auto
qed

section \<open>Passwords with a plus sign\<close>

lemma length_escape: "length (escape_plus s) = length s + 2 * count (mset s) (CHR ''+'')"
  unfolding escape_plus_eq by (induction s) (auto simp: escape_char_def)

text \<open>The gateway's settings as a format with the user and two passwords.\<close>

definition login_form_of :: "string \<Rightarrow> string \<Rightarrow> string \<Rightarrow> string \<Rightarrow> string \<Rightarrow> string \<Rightarrow> string" where
  "login_form_of user a b d e pw = a @ user @ b @ pw @ d @ pw @ e"

lemma login_form_eq:
  assumes f: "BALLoginDt g = a @ CHR ''%'' # CHR ''s'' # b @ CHR ''%'' # CHR ''s'' # d @ CHR ''%'' # CHR ''s'' # e"
    and p: "list_all plain [a, b, d, e]" and x: "CHR 0x00 \<notin> set x"
    and l: "length (login_form_of (strlogUser g) a b d e x) < 1000"
  shows "login_form g x = Inr (login_form_of (c_str (strlogUser g)) a b d e x)"
proof -
  have np: "CHR ''%'' \<notin> set a" "CHR ''%'' \<notin> set b" "CHR ''%'' \<notin> set d" "CHR ''%'' \<notin> set e"
    and nz: "CHR 0x00 \<notin> set a" "CHR 0x00 \<notin> set b" "CHR 0x00 \<notin> set d" "CHR 0x00 \<notin> set e"
    using p by (simp_all add: plain_def)
  have c: "c_str (BALLoginDt g) = BALLoginDt g" using nz by (intro c_str_id) (simp add: f)
  have "fmt (BALLoginDt g) [Some (c_str (strlogUser g)), Some x, Some x] = Inr (login_form_of (c_str (strlogUser g)) a b d e x)"
    unfolding f by (simp add: fmt_field np fmt_plain [OF np(4)] login_form_of_def)
  moreover have "length (login_form_of (c_str (strlogUser g)) a b d e x) < 1000"
    using l length_c_str [of "strlogUser g"] by (simp add: login_form_of_def)
  ultimately show ?thesis by (simp add: login_form_def c c_str_id [OF x] sprintf_s_fits)
qed

lemma login_form_of_inject: "login_form_of u a b d e x = login_form_of u a b d e y \<longleftrightarrow> x = y"
proof
  assume "login_form_of u a b d e x = login_form_of u a b d e y"
  then have "x @ d @ x @ e = y @ d @ y @ e" by (simp add: login_form_of_def)
  moreover from this have "length (x @ d @ x @ e) = length (y @ d @ y @ e)" by (rule arg_cong)
  ultimately show "x = y" by simp
qed simp

lemma escape_plus_bound: "length (escape_plus s) \<le> 3 * length s"
proof -
  have "count (mset s) (CHR ''+'') \<le> length s" by (metis count_le_size size_mset)
  then show ?thesis by (simp add: length_escape)
qed

lemma escape_plus_nul: "CHR 0x00 \<notin> set s \<Longrightarrow> CHR 0x00 \<notin> set (escape_plus s)"
  unfolding escape_plus_eq by (auto simp: escape_char_def split: if_splits)

lemma escape_plus_same: "escape_plus s = s \<longleftrightarrow> CHR ''+'' \<notin> set s"
  using length_escape [of s] escape_no_plus [of s] unfolding escape_plus_eq
  by (metis add_cancel_left_right count_eq_zero_iff mult_eq_0_iff set_mset_mset zero_neq_numeral)

lemma gateway_check_form:
  "gateway_check env pw g = Some (Inr g') \<Longrightarrow> login_form g pw = Inr (chhttpPOST g')"
  by (auto simp: gateway_check_def elim!: bind_runE)

lemma check_stored_password_form:
  "check_stored_password env g = Some (Inr (ok, g')) \<Longrightarrow> login_form g (strlogUserPW g) = Inr (chhttpPOST g')"
  by (auto simp: check_stored_password_def judge_stored_password_def set_controls_def Let_def
      dest!: gateway_check_form elim!: bind_runE split: if_splits)

text \<open>C24: a password with a plus sign is stored but cannot be used. Let the gateway's settings be a form with the
  user and two passwords. What the login button's handler posts for a typed password has its plus
  signs escaped, while the password it keeps for the database is the one typed; what the login thread
  posts when it checks a stored password, here the same one for the same user, is the password as it is.
  So the two posts agree exactly when the password has no plus sign.\<close>

theorem stored_password_not_escaped:
  assumes "BALLoginDt g = a @ CHR ''%'' # CHR ''s'' # b @ CHR ''%'' # CHR ''s'' # d @ CHR ''%'' # CHR ''s'' # e"
    and "list_all plain [a, b, d, e]"
    and "length a + length (strlogUser g) + length b + length d + length e + 6 * length (edit_text g) < 1000"
    and "ask_gateway env g = Some (Inr clicked)"
    and "BALLoginDt g' = BALLoginDt g" "strlogUser g' = strlogUser g" "strlogUserPW g' = edit_text g"
    and "check_stored_password penv g' = Some (Inr (ok, checked))"
  shows "getUpw clicked = edit_text g \<and>
    chhttpPOST clicked = login_form_of (c_str (strlogUser g)) a b d e (escape_plus (edit_text g)) \<and>
    chhttpPOST checked = login_form_of (c_str (strlogUser g)) a b d e (edit_text g) \<and>
    (chhttpPOST clicked = chhttpPOST checked \<longleftrightarrow> CHR ''+'' \<notin> set (edit_text g))"
proof -
  let ?pw = "edit_text g"
  have z: "CHR 0x00 \<notin> set ?pw" by (simp add: edit_text_def)
  have l: "length (login_form_of (strlogUser g) a b d e x) < 1000" if "length x \<le> 3 * length ?pw" for x
    using assms(3) that by (simp add: login_form_of_def)
  have t: "login_form (g\<lparr>getUpw := ?pw\<rparr>) (escape_plus ?pw) = Inr (chhttpPOST clicked)"
    using assms(4) unfolding ask_gateway_def by (rule gateway_check_form)
  have "login_form (g\<lparr>getUpw := ?pw\<rparr>) (escape_plus ?pw) = Inr (login_form_of (c_str (strlogUser g)) a b d e (escape_plus ?pw))"
    using login_form_eq [of "g\<lparr>getUpw := ?pw\<rparr>" a b d e "escape_plus ?pw"] assms(1,2) escape_plus_nul [OF z]
      l [OF escape_plus_bound] by simp
  with t have 1: "chhttpPOST clicked = login_form_of (c_str (strlogUser g)) a b d e (escape_plus ?pw)" by simp
  have "login_form g' ?pw = Inr (login_form_of (c_str (strlogUser g)) a b d e ?pw)"
    using login_form_eq [of g' a b d e ?pw] assms(1,2,5,6) z l [of ?pw] by simp
  with check_stored_password_form [OF assms(8)] assms(7)
  have 2: "chhttpPOST checked = login_form_of (c_str (strlogUser g)) a b d e ?pw" by simp
  have "getUpw clicked = ?pw" using assms(4) by (auto simp: ask_gateway_def dest: gateway_check_keeps)
  with 1 2 show ?thesis by (auto simp: login_form_of_inject escape_plus_same)
qed

definition plus_user :: globals where
  "plus_user = globals_init\<lparr>BALLoginDt := ''u=%s&p=%s&q=%s'', strlogUser := ''bob'', strlogUserPW := ''secret+1'',
     shown := \<lparr>dp_title = [], dp_cLogin = [], dp_edit = ''secret+1'', dp_controls = True\<rparr>\<rparr>"

theorem stored_password_not_escaped_witness:
  "\<exists>clicked ok checked. ask_gateway (easy_check []) plus_user = Some (Inr clicked) \<and>
     check_stored_password (easy_pass None) plus_user = Some (Inr (ok, checked)) \<and>
     chhttpPOST clicked = ''u=bob&p=secret%2b1&q=secret%2b1'' \<and> chhttpPOST checked = ''u=bob&p=secret+1&q=secret+1''"
proof -
  have e: "edit_text plus_user = ''secret+1''" by (simp add: edit_text_def plus_user_def c_str_def)
  have esc: "escape_plus ''secret+1'' = ''secret%2b1''" by (simp add: escape_plus_eq escape_char_def)
  have f: "BALLoginDt plus_user = ''u='' @ CHR ''%'' # CHR ''s'' # ''&p='' @ CHR ''%'' # CHR ''s'' # ''&q='' @ CHR ''%'' # CHR ''s'' # []"
    and u: "strlogUser plus_user = ''bob''" "strlogUserPW plus_user = edit_text plus_user"
    by (simp_all add: plus_user_def edit_text_def c_str_def)
  have "login_form (plus_user\<lparr>getUpw := ''secret+1''\<rparr>) ''secret%2b1'' = Inr ''u=bob&p=secret%2b1&q=secret%2b1''"
    "login_form plus_user ''secret+1'' = Inr ''u=bob&p=secret+1&q=secret+1''"
    by (simp_all add: login_form_def plus_user_def sprintf_s_def c_str_def)
  note g = easy_gateway_check [OF this(1), of "[]"] easy_gateway_check [OF this(2), of "user_row None"]
  obtain clicked where c: "ask_gateway (easy_check []) plus_user = Some (Inr clicked)"
    using g(1) by (simp add: ask_gateway_def e esc)
  obtain ok checked where s: "check_stored_password (easy_pass None) plus_user = Some (Inr (ok, checked))"
    using g(2) u by (simp add: check_stored_password_def easy_pass_def judge_stored_password_def set_controls_def e Let_def)
  from stored_password_not_escaped [OF f _ _ c refl refl u(2) s] c s show ?thesis
    by (simp add: e esc u(1) login_form_of_def c_str_def)
qed

end
