(* ===== verification/Login_Races.thy ===== *)
theory Login_Races
  imports Login_Correct
begin

text \<open>
  What goes wrong between the login thread and the window's: runs of the step relation in which the back button lets
  a card's holder in without a password, or leaves the login thread waiting with nothing to click.
\<close>

section \<open>The way in without a password\<close>

lemma query_settings_flags: "query_settings env g = Inr g' \<Longrightarrow> boolGetBack g' = boolGetBack g"
  by (auto simp: query_settings_def load_settings_def Let_def elim!: bind_resE split: prod.splits if_splits)

lemma card_lookup_flags: "card_lookup env g = Inr (r, g') \<Longrightarrow> boolGetBack g' = boolGetBack g"
  by (auto simp: card_lookup_def Let_def dest!: query_settings_flags elim!: bind_resE split: if_splits)

text \<open>Messages as the back button and the Enter key make them.\<close>

definition back_command :: "globals \<Rightarrow> message" where
  "back_command g = \<lparr>msg_hwnd = cw_hWnd (win g), msg_message = WM_COMMAND, msg_wParam = 0, msg_lParam = cw_hWndButtonBack (win g)\<rparr>"

definition prompt_display :: "globals \<Rightarrow> display" where
  "prompt_display g = \<lparr>dp_title = txt_enter_password, dp_cLogin = [], dp_edit = dp_edit (shown g), dp_controls = True\<rparr>"

definition back_display :: display where
  "back_display = \<lparr>dp_title = txt_linked, dp_cLogin = txt_present_card, dp_edit = [], dp_controls = False\<rparr>"

lemma process_back_command:
  "ProcessNextMessage env (back_command g) g =
     Some (Inr (True, [(back_command g)\<lparr>msg_message := BM_CLICK\<rparr>], [], g))"
  by (simp add: ProcessNextMessage_def back_command_def WndProc_def message_defs posts_def)

lemma process_back_click:
  "cw_hWndButton (win g) \<noteq> cw_hWndButtonBack (win g) \<Longrightarrow>
     ProcessNextMessage env ((back_command g)\<lparr>msg_message := BM_CLICK\<rparr>) g =
       Some (Inr (True, [], back_writes, g\<lparr>shown := back_display\<rparr>))"
  by (simp add: ProcessNextMessage_def back_command_def WndProc_def message_defs posts_def back_click_def
      set_controls_def back_display_def writes_defs Let_def)

lemma login_done_ok: "\<exists>g'. login_done g = Inr g'"
  by (simp add: login_done_def)

text \<open>The database records a login whatever the other variables are.\<close>

definition recordable :: "pass_env \<Rightarrow> mysql_conn \<Rightarrow> bool" where
  "recordable env c \<longleftrightarrow> (\<forall>g. DbTconn g = c \<longrightarrow> (\<exists>g'. record_login env g = Inr g' \<and> isOK g'))"

lemma user_Print_sent: "user_Print db info c = Inr (ok, c') \<Longrightarrow> prefix (sent c) (sent c')"
  by (auto simp: user_Print_def mysql_query_def mysql_store_result_def prefix_def Let_def
      elim!: bind_resE split: prod.splits option.splits if_splits)

lemma record_login_sent: "record_login env g = Inr g' \<Longrightarrow> prefix (sent (DbTconn g)) (sent (DbTconn g'))"
  by (auto simp: record_login_def user_insert_def mysql_query_def Let_def
      dest!: user_Print_sent elim!: bind_resE split: prod.splits)

lemma recording_returns:
  assumes "pc c = Recording" and "recordable env (DbTconn (glob c))"
  shows "\<exists>c'. login_step sy c c' \<and> pc c' = Returned True \<and> accepted c' = accepted c \<and>
    cw_fConnected (win (glob c')) \<and> inputs c' = inputs c \<and>
    prefix (sent (DbTconn (glob c))) (sent (DbTconn (glob c')))"
proof -
  obtain g where g: "record_login env (glob c) = Inr g" "isOK g" using assms(2) unfolding recordable_def by blast
  obtain g' where d: "login_done g = Inr g'" using login_done_ok by blast
  then have "sent (DbTconn g') = sent (DbTconn g)" "cw_fConnected (win g')" by (auto simp: login_done_def)
  with record_login_sent [OF g(1)] recorded [OF assms(1) g d] show ?thesis by fastforce
qed

text \<open>Configurations in which no password has been accepted.\<close>

definition unproved :: "login_pc \<Rightarrow> globals \<Rightarrow> message list \<Rightarrow> flag_write list \<Rightarrow> user_input list \<Rightarrow> login_conf" where
  "unproved p g q w us = \<lparr>pc = p, glob = g, queue = q, pending = w, in_check = None, accepted = False, starting = 1, inputs = us\<rparr>"

lemma unproved_simps [simp]:
  "pc (unproved p g q w us) = p" "glob (unproved p g q w us) = g" "queue (unproved p g q w us) = q"
  "pending (unproved p g q w us) = w" "accepted (unproved p g q w us) = False" "inputs (unproved p g q w us) = us"
  "(unproved p g q w us)\<lparr>pc := p'\<rparr> = unproved p' g q w us" "(unproved p g q w us)\<lparr>glob := g'\<rparr> = unproved p g' q w us"
  "(unproved p g q w us)\<lparr>queue := q'\<rparr> = unproved p g q' w us" "(unproved p g q w us)\<lparr>pending := w'\<rparr> = unproved p g q w' us"
  "(unproved p g q w us)\<lparr>accepted := False\<rparr> = unproved p g q w us" "in_check (unproved p g q w us) = None"
  "(unproved p g q w us)\<lparr>inputs := us'\<rparr> = unproved p g q w us'"
  by (simp_all add: unproved_def)

lemma login_start_unproved: "login_start g = unproved AtLoop g [] [] []"
  by (simp add: login_start_def unproved_def)

lemma step_message:
  "ProcessNextMessage env m g = Some (Inr (go, posted, ws, g')) \<Longrightarrow> \<not> password_accepted env m g \<Longrightarrow>
     login_step sy (unproved p g (m # ms) [] us)
       (unproved p (if sync_writes sy then fold apply_write ws g' else g') (ms @ posted) (if sync_writes sy then [] else ws) us)"
  using message [of "unproved p g (m # ms) [] us" m ms env go posted ws g' sy] by simp

text \<open>A card whose user has no password, up to the wait for one.\<close>

definition prompt_state :: "globals \<Rightarrow> globals" where
  "prompt_state g = g\<lparr>shown := prompt_display g, empPWCT := True\<rparr>"

lemma run_to_prompt:
  assumes "\<not> cw_fConnected (win g)" "\<not> initialization g" "card_ready g"
    and "card_lookup env g = Inr (Found, g1)" and "GetUserPW (DbTconn g1) = []"
  shows "login_step sy (login_start g) (unproved Prompting (g1\<lparr>shown := prompt_display g1\<rparr>) [] [] [])"
    and "login_steps sy (login_start g) (unproved Waiting (prompt_state g1) [] [] [])"
proof -
  let ?g2 = "g1\<lparr>shown := prompt_display g1\<rparr>"
  have "ask_first_password g1 = Inr ?g2"
    by (simp add: ask_first_password_def set_controls_def prompt_display_def)
  with assms show *: "login_step sy (login_start g) (unproved Prompting ?g2 [] [] [])"
    using first_card [of "login_start g" env g1 ?g2 sy] by (simp add: login_start_unproved at_head_def)
  have "login_step sy (unproved Prompting ?g2 [] [] []) (unproved Waiting (prompt_state g1) [] [] [])"
    using prompted [of "unproved Prompting ?g2 [] [] []" sy] by (simp add: prompt_state_def)
  with * show "login_steps sy (login_start g) (unproved Waiting (prompt_state g1) [] [] [])"
    by (meson rtranclp.rtrancl_into_rtrancl rtranclp.rtrancl_refl)
qed

text \<open>The login thread does wait: as long as the user does nothing, nothing but the serial reader moves.\<close>

lemma waits_for_input:
  assumes "login_steps sy (unproved Waiting g [] [] []) c" and "empPWCT g"
  shows "inputs c \<noteq> [] \<or> pc c = Waiting \<and> empPWCT (glob c) \<and> queue c = [] \<and> pending c = [] \<and> in_check c = None"
  using assms
proof (induction rule: rtranclp_induct)
  case base
  then show ?case by simp
next
  case (step c c')
  have "login_step sy c c' \<Longrightarrow>
      inputs c \<noteq> [] \<or> pc c = Waiting \<and> empPWCT (glob c) \<and> queue c = [] \<and> pending c = [] \<and> in_check c = None \<Longrightarrow>
      inputs c' \<noteq> [] \<or> pc c' = Waiting \<and> empPWCT (glob c') \<and> queue c' = [] \<and> pending c' = [] \<and> in_check c' = None" for c c'
    by (induction rule: login_step.induct) (auto simp: at_head_def)
  with step show ?case by blast
qed

text \<open>The click on the back button, up to its message being in the queue.\<close>

lemma run_to_back_click:
  "login_steps sy (unproved Waiting (prompt_state g) [] [] [])
    (unproved Waiting (prompt_state g) [(back_command g)\<lparr>msg_message := BM_CLICK\<rparr>] [] [Clicked (cw_hWndButtonBack (win g))])"
proof -
  let ?m = "back_command g" and ?us = "[Clicked (cw_hWndButtonBack (win g))]"
  have "login_step sy (unproved Waiting (prompt_state g) [] [] []) (unproved Waiting (prompt_state g) [?m] [] ?us)"
    using click [of "unproved Waiting (prompt_state g) [] [] []" "cw_hWndButtonBack (win g)" sy]
    by (simp add: back_command_def prompt_display_def prompt_state_def)
  moreover have "login_step sy (unproved Waiting (prompt_state g) [?m] [] ?us)
      (unproved Waiting (prompt_state g) [?m\<lparr>msg_message := BM_CLICK\<rparr>] [] ?us)"
    using step_message [of _ ?m "prompt_state g" True "[?m\<lparr>msg_message := BM_CLICK\<rparr>]" "[]" "prompt_state g" sy Waiting "[]"]
      process_back_command [of _ "prompt_state g"]
    by (simp add: prompt_state_def back_command_def password_accepted_def message_defs cong: if_cong)
  ultimately show ?thesis by (meson rtranclp.rtrancl_into_rtrancl rtranclp.rtrancl_refl)
qed

text \<open>From there into the record, past the half of the synchronisation that is missing.\<close>

lemma back_click_message:
  assumes "cw_hWndButton (win g) \<noteq> cw_hWndButtonBack (win g)"
  shows "ProcessNextMessage env ((back_command g)\<lparr>msg_message := BM_CLICK\<rparr>) (prompt_state g) =
      Some (Inr (True, [], back_writes, (prompt_state g)\<lparr>shown := back_display\<rparr>))"
    and "\<not> password_accepted env ((back_command g)\<lparr>msg_message := BM_CLICK\<rparr>) (prompt_state g)"
  using process_back_click [of "prompt_state g" env] assms
  by (simp_all add: back_command_def prompt_state_def password_accepted_def)

lemma run_past_writes:
  assumes "\<not> sync_writes sy" and "cw_hWndButton (win g) \<noteq> cw_hWndButtonBack (win g)" and "\<not> boolGetBack g"
  shows "\<exists>h p. login_steps sy (unproved Waiting (prompt_state g) [(back_command g)\<lparr>msg_message := BM_CLICK\<rparr>] [] us)
      (unproved Recording h [] p us) \<and> DbTconn h = DbTconn g"
proof -
  let ?b = "(prompt_state g)\<lparr>shown := back_display\<rparr>"
  let ?e = "?b\<lparr>empPWCT := False\<rparr>"
  let ?w = "[Set_boolGetBack True]"
  have nb: "\<not> boolGetBack ?e" using assms(3) by (simp add: prompt_state_def)
  have "login_step sy (unproved Waiting (prompt_state g) [(back_command g)\<lparr>msg_message := BM_CLICK\<rparr>] [] us)
      (unproved Waiting ?b [] back_writes us)"
    using step_message [OF back_click_message [OF assms(2)], of sy Waiting "[]"] assms(1) by simp
  moreover have "login_step sy (unproved Waiting ?b [] back_writes us) (unproved Waiting ?e [] ?w us)"
    using put_flag [of "unproved Waiting ?b [] back_writes us" "Set_empPWCT False" ?w sy] by (simp add: writes_defs)
  moreover have "login_steps sy (unproved Waiting ?e [] ?w us) (unproved Recording ?e [] ?w us)"
  proof (cases "sync_reads sy")
    case True
    then show ?thesis using resume [of "unproved Waiting ?e [] ?w us" sy] nb by (auto simp: resume_pc_def)
  next
    case False
    then have "login_step sy (unproved Waiting ?e [] ?w us) (unproved Resumed ?e [] ?w us)"
      using resume [of "unproved Waiting ?e [] ?w us" sy] by (simp add: resume_pc_def)
    moreover have "login_step sy (unproved Resumed ?e [] ?w us) (unproved Recording ?e [] ?w us)"
      using read_back [of "unproved Resumed ?e [] ?w us" sy] False nb by simp
    ultimately show ?thesis by simp
  qed
  moreover have "DbTconn ?e = DbTconn g" by (simp add: prompt_state_def)
  ultimately show ?thesis by (meson converse_rtranclp_into_rtranclp)
qed

text \<open>The Enter key, with the edit field empty.\<close>

definition enter_key :: message where
  "enter_key = \<lparr>msg_hwnd = None, msg_message = WM_KEYDOWN, msg_wParam = VK_RETURN, msg_lParam = None\<rparr>"

definition enter_click :: "globals \<Rightarrow> message" where
  "enter_click g = \<lparr>msg_hwnd = None, msg_message = BM_CLICK, msg_wParam = VK_RETURN, msg_lParam = cw_hWndButton (win g)\<rparr>"

lemma process_enter_key:
  "ProcessNextMessage env enter_key g = Some (Inr (True, [enter_click g], [], g))"
  "\<not> password_accepted env enter_key g"
  by (simp_all add: enter_key_def enter_click_def ProcessNextMessage_def WndProc_def posts_def message_defs
      password_accepted_def Let_def)

lemma process_enter_click:
  assumes "cw_hWndButton (win g) \<noteq> cw_hWndButtonBack (win g)" and "dp_edit (shown g) = []"
  shows "\<exists>g'. ProcessNextMessage env (enter_click g) g = Some (Inr (True, [], wait_writes, g')) \<and> DbTconn g' = DbTconn g"
    and "\<not> password_accepted env (enter_click g) g"
  using assms
  by (simp_all add: enter_click_def ProcessNextMessage_def WndProc_def posts_def message_defs login_click_def
      c_str_def writes_defs password_accepted_def edit_text_def Let_def)

lemma run_past_reads:
  assumes "sync_writes sy" "\<not> sync_reads sy" and "cw_hWndButton (win g) \<noteq> cw_hWndButtonBack (win g)"
  shows "\<exists>h p. login_steps sy (unproved Waiting (prompt_state g) [(back_command g)\<lparr>msg_message := BM_CLICK\<rparr>] [] us)
      (unproved Recording h [] p (us @ [Pressed_enter])) \<and> DbTconn h = DbTconn g"
proof -
  let ?d = "(prompt_state g)\<lparr>shown := back_display, empPWCT := False, boolGetBack := True\<rparr>"
  let ?k = "enter_key" and ?n = "enter_click ?d" and ?us = "us @ [Pressed_enter]"
  have w: "cw_hWndButton (win ?d) \<noteq> cw_hWndButtonBack (win ?d)" "dp_edit (shown ?d) = []"
    using assms(3) by (simp_all add: prompt_state_def back_display_def)
  obtain s where s: "ProcessNextMessage undefined ?n ?d = Some (Inr (True, [], wait_writes, s))" "DbTconn s = DbTconn ?d"
    using process_enter_click(1) [OF w] by blast
  let ?s = "s\<lparr>boolGetBack := False, empPWCT := True\<rparr>"
  have "login_step sy (unproved Waiting (prompt_state g) [(back_command g)\<lparr>msg_message := BM_CLICK\<rparr>] [] us)
      (unproved Waiting ?d [] [] us)"
    using step_message [OF back_click_message [OF assms(3)], of sy Waiting "[]"] assms(1) by (simp add: writes_defs)
  moreover have "login_step sy (unproved Waiting ?d [] [] us) (unproved Resumed ?d [] [] us)"
    using resume [of "unproved Waiting ?d [] [] us" sy] assms(2) by (simp add: resume_pc_def)
  moreover have "login_step sy (unproved Resumed ?d [] [] us) (unproved Resumed ?d [?k] [] ?us)"
    using enter [of sy "unproved Resumed ?d [] [] us" None None] by (simp add: enter_key_def)
  moreover have "login_step sy (unproved Resumed ?d [?k] [] ?us) (unproved Resumed ?d [?n] [] ?us)"
    using step_message [OF process_enter_key, of sy Resumed ?d "[]"] assms(1) by simp
  moreover have "login_step sy (unproved Resumed ?d [?n] [] ?us) (unproved Resumed ?s [] [] ?us)"
    using step_message [OF s(1) process_enter_click(2) [OF w], of sy Resumed "[]"] assms(1) by (simp add: writes_defs)
  moreover have "login_step sy (unproved Resumed ?s [] [] ?us) (unproved Recording ?s [] [] ?us)"
    using read_back [of "unproved Resumed ?s [] [] ?us" sy] assms(2) by simp
  moreover have "DbTconn ?s = DbTconn g" using s(2) by (simp add: prompt_state_def)
  ultimately show ?thesis by (meson converse_rtranclp_into_rtranclp rtranclp.rtrancl_refl)
qed

text \<open>C2: neither half of the synchronisation of the flags can be left out. Let a card's user have no stored
  password and the database record logins. The login thread then shows the controls and waits, and it waits for ever
  while the user does nothing; but from there a run goes on in which \<open>GetConnectedStatus\<close> returns true, the
  window being marked as connected, without any password having been accepted. When the writes of the flags are not
  atomic all that the user does in it is one click on the back button: its handler lets the login
  thread go on before it sets \<open>boolGetBack\<close>. When the writes are atomic and the reads are not, it is that click
  and the Enter key, whose handler runs between the login thread's two reads. Nothing is typed in either.\<close>

theorem login_without_password:
  assumes "\<not> cw_fConnected (win g)" "\<not> initialization g" "card_ready g" "\<not> boolGetBack g"
    and "cw_hWndButton (win g) \<noteq> cw_hWndButtonBack (win g)"
    and "card_lookup env g = Inr (Found, g1)" "GetUserPW (DbTconn g1) = []"
    and "recordable env (DbTconn g1)"
    and "\<not> sync_writes sy \<or> \<not> sync_reads sy"
  shows "\<exists>c0 c. login_steps sy (login_start g) c0 \<and> pc c0 = Waiting \<and> empPWCT (glob c0) \<and> inputs c0 = [] \<and>
    (\<forall>c'. login_steps sy c0 c' \<and> inputs c' = [] \<longrightarrow> pc c' = Waiting) \<and>
    login_steps sy c0 c \<and> pc c = Returned True \<and> cw_fConnected (win (glob c)) \<and> \<not> accepted c \<and>
    inputs c = (if \<not> sync_writes sy then [Clicked (cw_hWndButtonBack (win g))]
                else [Clicked (cw_hWndButtonBack (win g)), Pressed_enter])"
proof -
  let ?u = "Clicked (cw_hWndButtonBack (win g))" and ?c0 = "unproved Waiting (prompt_state g1) [] [] []"
  let ?us = "if \<not> sync_writes sy then [?u] else [?u, Pressed_enter]"
  have k: "win g1 = win g" using card_lookup_keeps [OF assms(6)] by simp
  then have w: "cw_hWndButton (win g1) \<noteq> cw_hWndButtonBack (win g1)" and b: "\<not> boolGetBack g1"
    using card_lookup_flags [OF assms(6)] assms(4,5) by simp_all
  have "\<exists>h p. login_steps sy (unproved Waiting (prompt_state g1) [(back_command g1)\<lparr>msg_message := BM_CLICK\<rparr>] [] [?u])
      (unproved Recording h [] p ?us) \<and> DbTconn h = DbTconn g1"
    using run_past_writes [OF _ w b, of sy "[?u]"] run_past_reads [OF _ _ w, of sy "[?u]"] assms(9)
    by (cases "sync_writes sy") auto
  then obtain h p where r: "login_steps sy (unproved Waiting (prompt_state g1) [(back_command g1)\<lparr>msg_message := BM_CLICK\<rparr>] [] [?u])
      (unproved Recording h [] p ?us)" and d: "DbTconn h = DbTconn g1" by blast
  obtain c where c: "login_step sy (unproved Recording h [] p ?us) c" "pc c = Returned True" "\<not> accepted c"
      "cw_fConnected (win (glob c))" "inputs c = ?us"
    using recording_returns [of "unproved Recording h [] p ?us" env sy] d assms(8) by auto
  have "login_steps sy ?c0 c" using run_to_back_click [of sy g1] r c(1) unfolding k
    by (meson rtranclp.rtrancl_into_rtrancl rtranclp_trans)
  moreover have "\<forall>c'. login_steps sy ?c0 c' \<and> inputs c' = [] \<longrightarrow> pc c' = Waiting"
    using waits_for_input [of sy "prompt_state g1"] by (auto simp: prompt_state_def)
  ultimately show ?thesis using run_to_prompt(2) [OF assms(1-3,6,7), of sy] c
    by (intro exI [of _ ?c0] exI [of _ c]) (simp add: prompt_state_def)
qed

lemma easy_recordable: "recordable (easy_pass pw) (card_user pw)"
  using easy_record_login card_user_names unfolding recordable_def by metis

theorem login_without_password_witness:
  "(\<exists>c. login_steps unsynchronised (login_start card_there) c \<and> pc c = Returned True \<and> \<not> accepted c \<and>
      inputs c = [Clicked (cw_hWndButtonBack (win card_there))]) \<and>
   (\<exists>c. login_steps (unsynchronised\<lparr>sync_writes := True\<rparr>) (login_start card_there) c \<and> pc c = Returned True \<and>
      \<not> accepted c \<and> inputs c = [Clicked (cw_hWndButtonBack (win card_there)), Pressed_enter])"
proof -
  let ?g = "card_there\<lparr>DbTconn := card_user None, isOK := True, strlogUser := ''bob'', strlogUserPW := []\<rparr>"
  have l: "card_lookup (easy_pass None) card_there = Inr (Found, ?g)" using lookup_ok [of None] by simp
  have "GetUserPW (DbTconn ?g) = []" "recordable (easy_pass None) (DbTconn ?g)"
    using easy_recordable [of None] by (simp_all add: card_user_names)
  note run = login_without_password [OF card_there_facts(1-5) l this]
  from run [of unsynchronised] run [of "unsynchronised\<lparr>sync_writes := True\<rparr>"]
  show ?thesis by (auto simp: unsynchronised_def intro: rtranclp_trans)
qed


section \<open>A click that is lost\<close>

lemma apply_back_writes: "fold apply_write back_writes g = g\<lparr>empPWCT := False, boolGetBack := True\<rparr>"
  by (simp add: writes_defs)

lemma run_back_writes:
  "ProcessNextMessage env m g = Some (Inr (True, [], back_writes, g')) \<Longrightarrow> \<not> password_accepted env m g \<Longrightarrow>
     login_steps sy (unproved p g [m] [] us) (unproved p (g'\<lparr>empPWCT := False, boolGetBack := True\<rparr>) [] [] us)"
proof -
  assume h: "ProcessNextMessage env m g = Some (Inr (True, [], back_writes, g'))" "\<not> password_accepted env m g"
  let ?g = "g'\<lparr>empPWCT := False, boolGetBack := True\<rparr>"
  show ?thesis
  proof (cases "sync_writes sy")
    case True
    then show ?thesis using step_message [OF h, of sy p "[]"] by (auto simp: apply_back_writes)
  next
    case False
    then have "login_step sy (unproved p g [m] [] us) (unproved p g' [] back_writes us)"
      using step_message [OF h, of sy p "[]"] by simp
    moreover have "login_step sy (unproved p g' [] back_writes us) (unproved p (g'\<lparr>empPWCT := False\<rparr>) [] [Set_boolGetBack True] us)"
      using put_flag [of "unproved p g' [] back_writes us" "Set_empPWCT False" "[Set_boolGetBack True]" sy] by (simp add: writes_defs)
    moreover have "login_step sy (unproved p (g'\<lparr>empPWCT := False\<rparr>) [] [Set_boolGetBack True] us) (unproved p ?g [] [] us)"
      using put_flag [of "unproved p (g'\<lparr>empPWCT := False\<rparr>) [] [Set_boolGetBack True] us" "Set_boolGetBack True" "[]" sy] by simp
    ultimately show ?thesis by (meson converse_rtranclp_into_rtranclp rtranclp.rtrancl_refl)
  qed
qed

text \<open>A configuration in which only the serial reader (a thread that begins, or a round of it) and the Enter key can still do anything.\<close>

definition stuck :: "sync \<Rightarrow> login_conf \<Rightarrow> bool" where
  "stuck sy c \<longleftrightarrow> (\<forall>c'. login_step sy c c' \<longrightarrow>
     (\<exists>r n. c' = c\<lparr>glob := (glob c)\<lparr>rx := r\<rparr>, starting := n\<rparr>) \<or>
     (\<exists>h l. c' = c\<lparr>queue := [\<lparr>msg_hwnd = h, msg_message = WM_KEYDOWN, msg_wParam = VK_RETURN, msg_lParam = l\<rparr>],
        inputs := inputs c @ [Pressed_enter]\<rparr>))"

lemma waiting_stuck:
  assumes "empPWCT g" and "\<not> dp_controls (shown g)"
  shows "stuck sy (unproved Waiting g [] [] us)"
  unfolding stuck_def
proof (intro allI impI)
  let ?c = "unproved Waiting g [] [] us"
  fix c'
  assume "login_step sy ?c c'"
  then show "(\<exists>r n. c' = ?c\<lparr>glob := (glob ?c)\<lparr>rx := r\<rparr>, starting := n\<rparr>) \<or>
     (\<exists>h l. c' = ?c\<lparr>queue := [\<lparr>msg_hwnd = h, msg_message = WM_KEYDOWN, msg_wParam = VK_RETURN, msg_lParam = l\<rparr>],
        inputs := inputs ?c @ [Pressed_enter]\<rparr>)"
  proof (cases rule: login_step.cases)
    case (enter h l)
    then show ?thesis by (intro disjI2 exI [of _ h] exI [of _ l]) simp
  next
    case (reader ev r)
    then show ?thesis by (intro disjI1 exI [of _ r] exI [of _ 1]) (simp add: unproved_def)
  next
    case reader_begins
    then show ?thesis by blast
  qed (use assms in \<open>simp_all add: at_head_def\<close>)
qed

text \<open>C23: the back button can be lost. The password controls are shown before \<open>empPWCT\<close> is set, so a
  click that is handled in between is overwritten: the login thread then waits while the card's holder
  wanted to go back, the controls are hidden, and no click can happen any more; only the Enter key and
  what it does to an empty edit field are left. This does not depend on the synchronisation of the flags.\<close>

theorem back_click_lost:
  assumes "\<not> cw_fConnected (win g)" "\<not> initialization g" "card_ready g"
    and "cw_hWndButton (win g) \<noteq> cw_hWndButtonBack (win g)"
    and "card_lookup env g = Inr (Found, g1)" and "GetUserPW (DbTconn g1) = []"
  shows "\<exists>c. login_steps sy (login_start g) c \<and> pc c = Waiting \<and> empPWCT (glob c) \<and> boolGetBack (glob c) \<and>
    \<not> dp_controls (shown (glob c)) \<and> stuck sy c"
proof -
  let ?g2 = "g1\<lparr>shown := prompt_display g1\<rparr>"
  let ?m = "back_command g1"
  let ?n = "?m\<lparr>msg_message := BM_CLICK\<rparr>"
  let ?b = "?g2\<lparr>shown := back_display, empPWCT := False, boolGetBack := True\<rparr>"
  let ?w = "?b\<lparr>empPWCT := True\<rparr>"
  have w: "cw_hWndButton (win ?g2) \<noteq> cw_hWndButtonBack (win ?g2)" using card_lookup_keeps [OF assms(5)] assms(4) by simp
  have m: "back_command ?g2 = ?m" by (simp add: back_command_def)
  let ?us = "[Clicked (cw_hWndButtonBack (win g1))]"
  have "login_step sy (login_start g) (unproved Prompting ?g2 [] [] [])"
    by (rule run_to_prompt(1) [OF assms(1-3,5,6)])
  moreover have "login_step sy (unproved Prompting ?g2 [] [] []) (unproved Prompting ?g2 [?m] [] ?us)"
    using click [of "unproved Prompting ?g2 [] [] []" "cw_hWndButtonBack (win g1)" sy]
    by (simp add: back_command_def prompt_display_def)
  moreover have "login_step sy (unproved Prompting ?g2 [?m] [] ?us) (unproved Prompting ?g2 [?n] [] ?us)"
  proof -
    have "\<not> password_accepted undefined ?m ?g2" by (simp add: password_accepted_def back_command_def message_defs)
    with process_back_command [of undefined ?g2, unfolded m] show ?thesis
      using step_message [of undefined ?m ?g2 True "[?n]" "[]" ?g2 sy Prompting "[]"] by (simp cong: if_cong)
  qed
  moreover have "login_steps sy (unproved Prompting ?g2 [?n] [] ?us) (unproved Prompting ?b [] [] ?us)"
  proof -
    have "\<not> password_accepted undefined ?n ?g2" using w by (simp add: password_accepted_def back_command_def)
    with run_back_writes [OF process_back_click [OF w, unfolded m]] show ?thesis by simp
  qed
  moreover have "login_step sy (unproved Prompting ?b [] [] ?us) (unproved Waiting ?w [] [] ?us)"
    using prompted [of "unproved Prompting ?b [] [] ?us" sy] by simp
  ultimately have "login_steps sy (login_start g) (unproved Waiting ?w [] [] ?us)"
    by (meson converse_rtranclp_into_rtranclp rtranclp.rtrancl_into_rtrancl)
  moreover have "stuck sy (unproved Waiting ?w [] [] ?us)"
    by (rule waiting_stuck) (simp_all add: back_display_def)
  ultimately show ?thesis by (intro exI [of _ "unproved Waiting ?w [] [] ?us"]) (simp add: back_display_def)
qed

theorem back_click_lost_witness:
  "\<exists>c. login_steps synchronised (login_start card_there) c \<and> pc c = Waiting \<and> empPWCT (glob c) \<and> stuck synchronised c"
proof -
  let ?g = "card_there\<lparr>DbTconn := card_user None, isOK := True, strlogUser := ''bob'', strlogUserPW := []\<rparr>"
  have l: "card_lookup (easy_pass None) card_there = Inr (Found, ?g)" using lookup_ok [of None] by simp
  have "GetUserPW (DbTconn ?g) = []" by (simp add: card_user_names)
  from back_click_lost [OF card_there_facts(1-3,5) l this, of synchronised] show ?thesis by blast
qed

end
