(* ===== verification/Login_Crossing.thy ===== *)
theory Login_Crossing
  imports Login_Races
begin

text \<open>
  What goes wrong although the flags are synchronised: the handler of the login button reads the user's
  name before it asks the gateway and the card number behind the answer, and the login thread can have
  taken up another card in between.
\<close>

section \<open>A password for another card\<close>

text \<open>A click on the login button that the window's thread has still to handle.\<close>

definition login_click_waiting :: "login_conf \<Rightarrow> bool" where
  "login_click_waiting c \<longleftrightarrow> pc c = AtLoop \<and> pending c = [] \<and> in_check c = None \<and>
     (\<exists>m. queue c = [m] \<and> msg_message m = BM_CLICK \<and> msg_lParam m = cw_hWndButton (win (glob c)))"

lemma check_answer_accepts:
  assumes "BoolHttpback g" and "user_update (ck_db env) (getUpw g) (DbTconn g) = Inr (True, d)"
  shows "\<exists>s. dp_edit s = dp_edit (shown g) \<and>
    check_answer env g = Some (Inr (g\<lparr>DbTconn := d, isOK := True, shown := s\<rparr>, enter_writes))"
  using assms
  by (intro exI [of _ "(shown g)\<lparr>dp_controls := False, dp_title := txt_verified, dp_cLogin := txt_logging_in\<rparr>"])
    (simp add: check_answer_def set_controls_def writes_defs Let_def)

lemma card_lookup_check:
  "card_lookup env g = Inr (r, g') \<Longrightarrow> BoolHttpback g' = BoolHttpback g \<and> getUpw g' = getUpw g"
proof -
  have "query_settings env g = Inr h \<Longrightarrow> BoolHttpback h = BoolHttpback g \<and> getUpw h = getUpw g" for h
    by (auto simp: query_settings_def load_settings_def Let_def elim!: bind_resE split: prod.splits if_splits)
  then show "card_lookup env g = Inr (r, g') \<Longrightarrow> BoolHttpback g' = BoolHttpback g \<and> getUpw g' = getUpw g"
    by (auto simp: card_lookup_def Let_def elim!: bind_resE split: prod.splits if_splits)
qed

lemma card_lookup_initialization:
  "card_lookup env g = Inr (r, g') \<Longrightarrow> initialization g' = initialization g"
proof -
  have "query_settings env g = Inr h \<Longrightarrow> initialization h = initialization g" for h
    by (auto simp: query_settings_def load_settings_def Let_def elim!: bind_resE split: prod.splits if_splits)
  then show "card_lookup env g = Inr (r, g') \<Longrightarrow> initialization g' = initialization g"
    by (auto simp: card_lookup_def Let_def elim!: bind_resE split: prod.splits if_splits)
qed

lemma user_update_sent:
  "user_update db pw c = Inr (ok, d) \<Longrightarrow>
     \<exists>stmt. sprintf_s 255 user_update_format [Some (c_str pw), Some (GetCarNumber c)] = Inr stmt \<and>
       sent d = sent c @ [set_names, c_str stmt]"
  by (auto simp: user_update_def mysql_query_def set_names_c_str Let_def elim!: bind_resE)

text \<open>From the handler asking the gateway to the login thread waiting for the next card's password.\<close>

lemma run_to_next_card:
  assumes w: "login_click_waiting c" and h: "\<not> sync_handlers sy"
    and c: "\<not> cw_fConnected (win (glob c))" "\<not> initialization (glob c)"
      "cw_hWndButton (win (glob c)) \<noteq> cw_hWndButtonBack (win (glob c))"
    and l: "7 < length (edit_text (glob c))" and a: "ask_gateway cenv (glob c) = Some (Inr g1)"
    and r: "OnRecv_iter ev (rx g1) = Inr r" "length (c_str (Readinfo r)) = 32"
    and u: "card_lookup env (g1\<lparr>rx := r\<rparr>) = Inr (Found, g2)" "GetUserPW (DbTconn g2) = []"
  shows "\<exists>c'. login_steps sy c c' \<and> pc c' = Waiting \<and> queue c' = [] \<and> pending c' = [] \<and> \<not> accepted c' \<and>
    in_check c' = Some (cenv, strlogUser (glob c)) \<and> glob c' = prompt_state g2"
proof -
  obtain m where m: "queue c = [m]" "msg_message m = BM_CLICK" "msg_lParam m = cw_hWndButton (win (glob c))"
    and w': "pc c = AtLoop" "pending c = []" "in_check c = None" using w by (auto simp: login_click_waiting_def)
  have k: "win g1 = win (glob c)" "initialization g1 = initialization (glob c)"
    using a by (auto simp: ask_gateway_def gateway_check_def elim!: bind_runE)
  let ?c1 = "c\<lparr>queue := [], glob := g1, in_check := Some (cenv, strlogUser (glob c))\<rparr>"
  let ?c2 = "?c1\<lparr>glob := g1\<lparr>rx := r\<rparr>\<rparr>"
  let ?g3 = "g2\<lparr>shown := prompt_display g2\<rparr>"
  let ?c3 = "?c2\<lparr>pc := Prompting, glob := ?g3, accepted := False\<rparr>"
  have "login_step sy c ?c1"
    using ask [of sy c m "[]" cenv g1] h w' m c(3) l a by simp
  moreover have "login_step sy ?c1 ?c2" using reader [of ev ?c1 r sy] r(1) by simp
  moreover have "login_step sy ?c2 ?c3"
  proof (rule first_card [of ?c2 env g2 ?g3 sy])
    show "ask_first_password g2 = Inr ?g3" by (simp add: ask_first_password_def set_controls_def prompt_display_def)
  qed (use w' k c(1,2) r(2) u in \<open>simp_all add: at_head_def card_ready_def\<close>)
  moreover have "login_step sy ?c3 (?c3\<lparr>pc := Waiting, glob := prompt_state g2\<rparr>)"
    using prompted [of ?c3 sy] by (simp add: prompt_state_def)
  ultimately have "login_steps sy c (?c3\<lparr>pc := Waiting, glob := prompt_state g2\<rparr>)"
    by (meson converse_rtranclp_into_rtranclp rtranclp.rtrancl_refl)
  then show ?thesis using w' by (intro exI) (rule conjI, assumption, simp)
qed

text \<open>C3: synchronised flags are not enough. Let a second click on the login button still be queued when
  the login thread is back at the head of its loop (the first one was accepted, but the login could not
  be recorded). Its handler asks the gateway about the password in the edit field with the old user's
  name; if the next card is presented before the answer, and its user has no stored password, then the
  handler stores the old user's password with the new card, and the new card's user is
  logged in without a password of theirs having been accepted.\<close>

theorem password_for_another_card:
  assumes "login_steps sy (login_start g) c" and "login_click_waiting c"
    and "sync_writes sy" "sync_reads sy" "\<not> sync_handlers sy"
    and "\<not> cw_fConnected (win (glob c))" "\<not> initialization (glob c)"
      "cw_hWndButton (win (glob c)) \<noteq> cw_hWndButtonBack (win (glob c))"
    and "7 < length (edit_text (glob c))" "ask_gateway cenv (glob c) = Some (Inr g1)" "BoolHttpback g1"
    and "OnRecv_iter ev (rx g1) = Inr r" "length (c_str (Readinfo r)) = 32"
    and "card_lookup env (g1\<lparr>rx := r\<rparr>) = Inr (Found, g2)" "GetUserPW (DbTconn g2) = []"
      "strlogUser g2 \<noteq> strlogUser (glob c)"
    and "user_update (ck_db cenv) (edit_text (glob c)) (DbTconn g2) = Inr (True, d)" "recordable env' d"
  shows "\<exists>c' stmt. login_steps sy (login_start g) c' \<and> pc c' = Returned True \<and> \<not> accepted c' \<and>
    sprintf_s 255 user_update_format [Some (edit_text (glob c)), Some (GetCarNumber (DbTconn g2))] = Inr stmt \<and>
    prefix (sent (DbTconn g2) @ [set_names, c_str stmt]) (sent (DbTconn (glob c')))"
proof -
  obtain stmt where q: "sprintf_s 255 user_update_format [Some (edit_text (glob c)), Some (GetCarNumber (DbTconn g2))] = Inr stmt"
      "sent d = sent (DbTconn g2) @ [set_names, c_str stmt]"
    using user_update_sent [OF assms(17)] by (auto simp: edit_text_def)
  obtain c1 where c1: "login_steps sy c c1" "pc c1 = Waiting" "queue c1 = []" "pending c1 = []" "\<not> accepted c1"
    "in_check c1 = Some (cenv, strlogUser (glob c))" "glob c1 = prompt_state g2"
    using run_to_next_card [OF assms(2,5-10,12-15)] by blast
  have g1: "getUpw g1 = edit_text (glob c)" using assms(10) by (auto simp: ask_gateway_def dest: gateway_check_keeps)
  have b: "BoolHttpback (prompt_state g2)" and u: "getUpw (prompt_state g2) = edit_text (glob c)"
    using card_lookup_check [OF assms(14)] assms(11) g1 by (simp_all add: prompt_state_def)
  have "user_update (ck_db cenv) (getUpw (prompt_state g2)) (DbTconn (prompt_state g2)) = Inr (True, d)"
    using assms(17) u by (simp add: prompt_state_def)
  then obtain t where a: "check_answer cenv (prompt_state g2) =
      Some (Inr ((prompt_state g2)\<lparr>DbTconn := d, isOK := True, shown := t\<rparr>, enter_writes))"
    using check_answer_accepts [OF b] by blast
  let ?h = "(prompt_state g2)\<lparr>DbTconn := d, isOK := True, shown := t, boolGetBack := False, empPWCT := False\<rparr>"
  let ?c2 = "c1\<lparr>in_check := None, pending := [], glob := ?h, accepted := False\<rparr>"
  have "login_step sy c1 ?c2"
    using answer [of c1 cenv "strlogUser (glob c)" _ _ sy] c1 a assms(3,16)
    by (simp add: writes_defs prompt_state_def)
  moreover have "login_step sy ?c2 (?c2\<lparr>pc := Recording\<rparr>)"
    using resume [of ?c2 sy] c1(2) assms(4) by (simp add: resume_pc_def)
  moreover obtain c3 where "login_step sy (?c2\<lparr>pc := Recording\<rparr>) c3" and c3: "pc c3 = Returned True" "\<not> accepted c3"
      "prefix (sent d) (sent (DbTconn (glob c3)))"
    using recording_returns [of "?c2\<lparr>pc := Recording\<rparr>" env' sy] assms(18) by auto
  ultimately have "login_steps sy (login_start g) c3" using assms(1) c1(1)
    by (meson rtranclp.rtrancl_into_rtrancl rtranclp_trans)
  then show ?thesis using q c3 by (intro exI [of _ c3] exI [of _ stmt]) simp
qed

section \<open>Such a run\<close>

text \<open>The first user's card is that of the other examples; the next one is another user's.\<close>

definition other_card :: string where "other_card = ''00001111222233334444555566667777''"

definition other_row :: "sql_row list" where
  "other_row = [[None, Some other_card, Some ''eve'', Some ''Eve'', None]]"

definition easy_world :: "sql_row list \<Rightarrow> pass_env" where
  "easy_world rows = (easy_pass None)\<lparr>pe_check := easy_check rows\<rparr>"

definition full_table :: pass_env where
  "full_table = (easy_pass None)\<lparr>pe_check := (easy_check (user_row None))\<lparr>ck_db :=
     (example_db (user_row None))\<lparr>db_ok := (\<lambda>_ q. q \<noteq> easy_login_stmt)\<rparr>\<rparr>\<rparr>"

definition password :: string where "password = ''secret12''"

lemma other_card: "CHR 0x00 \<notin> set other_card" "length other_card = 32" "c_str other_card = other_card"
  "c_str ''eve'' = ''eve''" "c_str ''Eve'' = ''Eve''"
  by (simp_all add: other_card_def c_str_def)

lemma easy_update:
  assumes "CHR 0x00 \<notin> set (GetCarNumber c)" and "length (GetCarNumber c) = 32"
  shows "\<exists>xs. user_update (example_db rows) password c = Inr (True, c\<lparr>sent := xs\<rparr>)"
proof -
  have "\<exists>s. sprintf_s 255 user_update_format [Some (c_str password), Some (GetCarNumber c)] = Inr s"
    using assms by (simp add: user_update_format_def sprintf_s_def password_def c_str_def)
  then show ?thesis by (auto simp: user_update_def mysql_query_def example_db_def Let_def)
qed

text \<open>Looking up the other card, whatever was there before.\<close>

lemma other_lookup:
  assumes "Readinfo (rx g) = other_card"
  shows "\<exists>g'. card_lookup (easy_world other_row) g = Inr (Found, g') \<and> strlogUser g' = ''eve'' \<and>
    GetUserPW (DbTconn g') = [] \<and> GetCarNumber (DbTconn g') = other_card \<and> GetUserNames (DbTconn g') = ''eve'' \<and>
    GetNickNume (DbTconn g') = ''Eve''"
proof -
  have d: "pe_db (easy_world other_row) = example_db other_row" by (simp add: easy_world_def easy_check_def)
  have n: "other_card \<noteq> ''BAip''" "other_card \<noteq> ''BALogoutdDirectory''" "other_card \<noteq> ''BALogoutT''"
    "other_card \<noteq> ''BALOginDirectory''" "other_card \<noteq> ''BALLoginDt''" by (simp_all add: other_card_def)
  have r: "info_rows other_row c = Inr c" for c
    by (simp add: other_row_def info_row_def cell_def other_card n)
  let ?c = "DbTconn g"
  define c1 where "c1 = ?c\<lparr>sent := sent ?c @ [set_names, ''select * from BehavioralAudit''], results_open := Suc (results_open ?c)\<rparr>"
  have i: "info_query (example_db other_row) (DbTconn g) = Inr (True, c1)"
    by (simp add: info_query_def mysql_query_def mysql_store_result_def example_db_def r Let_def some_texts c1_def)
  let ?g1 = "load_settings (g\<lparr>DbTconn := c1, isOK := True\<rparr>)"
  have s: "query_settings (easy_world other_row) g = Inr ?g1"
    by (simp add: query_settings_def initConnection_def d i)
  have st: "sprintf_s 255 user_query_format [Some other_card] = Inr (query_for other_card)"
    by (rule user_query_statement) (simp add: other_card)
  define c2 where "c2 = c1\<lparr>sent := sent c1 @ [set_names, query_for other_card], GetCarNumber := other_card,
    GetUserNames := ''eve'', GetNickNume := ''Eve'', GetUserPW := []\<rparr>"
  have q: "user_query (example_db other_row) other_card c1 = Inr (True, c2)"
    by (simp add: user_query_def other_card st mysql_query_def mysql_store_result_def example_db_def
        other_row_def cell_def mysql_free_result_def Let_def query_for_c_str c2_def)
  have f: "GetUserPW c2 = []" "GetCarNumber c2 = other_card" "GetUserNames c2 = ''eve''" "GetNickNume c2 = ''Eve''"
    by (simp_all add: c2_def)
  have "Readinfo (rx ?g1) = other_card" "isOK ?g1" "DbTconn ?g1 = c1" using assms by (simp_all add: load_settings_def)
  then show ?thesis using f by (simp add: card_lookup_def s d q)
qed

text \<open>Recording a login on the example machine.\<close>

lemma small_record_login:
  assumes "pe_machine env = pe_machine (easy_pass None)"
    and "db_ok (pe_db env) = (\<lambda>_. ok)" "ok (print_select no_mac)" "db_rows (pe_db env) = (\<lambda>_ _. Some rows)"
    and "list_all plain [cn, u, k]" "length cn = 32" "length u = 3" "length k = 3"
    and "GetCarNumber (DbTconn g) = cn" "GetUserNames (DbTconn g) = u" "GetNickNume (DbTconn g) = k"
  shows "\<exists>info c. record_login env g = Inr (g\<lparr>strGetMachineInfo := info, DbTconn := c,
      isOK := ok (login_stmt cn u k ''2019-03-26 12:44:08'' ''pc'' no_ip no_mac)\<rparr>)"
proof -
  have z: "list_all plain [GetCarNumber (DbTconn g), GetUserNames (DbTconn g), GetNickNume (DbTconn g),
      ''2019-03-26 12:44:08'', ''pc'', no_ip, no_mac]"
    using assms(5,9-11) by (simp add: no_ip_def no_mac_def)
  have l: "length (machine_info ''2019-03-26 12:44:08'' ''pc'' no_ip no_mac) < 250"
    "length (GetCarNumber (DbTconn g)) + length (GetNickNume (DbTconn g)) + length (GetUserNames (DbTconn g)) \<le> 100"
    unfolding assms by (simp_all add: machine_info_length no_ip_def no_mac_def)
  have n: "\<not> 255 \<le> length (login_stmt cn u k ''2019-03-26 12:44:08'' ''pc'' no_ip no_mac)"
    by (simp add: login_stmt_length assms(6-8) no_ip_def no_mac_def)
  have i: "MachineInfo (pe_machine env) = Inr (machine_info ''2019-03-26 12:44:08'' ''pc'' no_ip no_mac)"
    using easy_MachineInfo by (simp add: assms(1) easy_info_def)
  have d: "db_ok (pe_db env) h (print_select no_mac)" "db_rows (pe_db env) h (print_select no_mac) = Some rows" for h
    using assms(2-4) by simp_all
  show ?thesis
    using record_login_eq [OF easy_fields i l z d(1) d(2)] n assms(2,9-11) by (auto simp: Let_def)
qed

lemma other_recordable:
  assumes "GetCarNumber c = other_card" "GetUserNames c = ''eve''" "GetNickNume c = ''Eve''"
  shows "recordable (easy_world other_row) c"
proof -
  have p: "list_all plain [other_card, ''eve'', ''Eve'']" by (simp add: other_card_def)
  have "\<exists>info c. record_login (easy_world other_row) g = Inr (g\<lparr>strGetMachineInfo := info, DbTconn := c, isOK := True\<rparr>)"
    if "DbTconn g = c" for g
    by (rule small_record_login [where ok = "\<lambda>_. True" and rows = other_row and cn = other_card and u = "''eve''" and k = "''Eve''"])
      (use p that assms in \<open>simp_all add: easy_world_def easy_check_def example_db_def other_card(2)\<close>)
  then show ?thesis unfolding recordable_def by fastforce
qed

text \<open>The first user's login cannot be recorded.\<close>

lemma full_table_record:
  assumes "GetCarNumber (DbTconn g) = some_card" "GetUserNames (DbTconn g) = ''bob''" "GetNickNume (DbTconn g) = ''Bob''"
  shows "\<exists>info c. record_login full_table g = Inr (g\<lparr>strGetMachineInfo := info, DbTconn := c, isOK := False\<rparr>)"
proof -
  have p: "list_all plain [some_card, ''bob'', ''Bob'']" by (simp add: some_card_def)
  have n: "print_select no_mac \<noteq> easy_login_stmt"
    by (simp add: print_select_def easy_login_stmt_def login_stmt_def)
  have "\<exists>info c. record_login full_table g = Inr (g\<lparr>strGetMachineInfo := info, DbTconn := c,
      isOK := login_stmt some_card ''bob'' ''Bob'' ''2019-03-26 12:44:08'' ''pc'' no_ip no_mac \<noteq> easy_login_stmt\<rparr>)"
    by (rule small_record_login [where ok = "\<lambda>q. q \<noteq> easy_login_stmt" and rows = "user_row None"])
      (use p n assms in \<open>simp_all add: full_table_def easy_check_def example_db_def some_card(2)\<close>)
  then show ?thesis by (simp add: easy_login_stmt_def)
qed

text \<open>The gateway accepts the password in the edit field.\<close>

lemma easy_ask_gateway:
  assumes "edit_text g = password" and "BALLoginDt g = []"
  shows "ask_gateway (easy_check rows) g = Some (Inr (g\<lparr>getUpw := password, chhttpPOST := [], BoolHttpback := True\<rparr>))"
proof -
  have "login_form (g\<lparr>getUpw := password\<rparr>) (escape_plus password) = Inr []"
    using assms(2) by (simp add: login_form_def sprintf_s_def c_str_def)
  from easy_gateway_check [OF this, of rows] show ?thesis by (simp add: ask_gateway_def assms(1))
qed

lemma easy_login_click:
  assumes "edit_text g = password" and "BALLoginDt g = []"
    and "CHR 0x00 \<notin> set (GetCarNumber (DbTconn g))" "length (GetCarNumber (DbTconn g)) = 32"
  shows "\<exists>xs s. dp_edit s = dp_edit (shown g) \<and>
    login_click (easy_check rows) g = Some (Inr (g\<lparr>getUpw := password, chhttpPOST := [], BoolHttpback := True,
      DbTconn := (DbTconn g)\<lparr>sent := xs\<rparr>, isOK := True, shown := s\<rparr>, enter_writes))"
proof -
  let ?g = "g\<lparr>getUpw := password, chhttpPOST := [], BoolHttpback := True\<rparr>"
  obtain xs where u: "user_update (example_db rows) password (DbTconn g) = Inr (True, (DbTconn g)\<lparr>sent := xs\<rparr>)"
    using easy_update [OF assms(3,4)] by blast
  have "\<exists>s. dp_edit s = dp_edit (shown ?g) \<and> check_answer (easy_check rows) ?g =
      Some (Inr (?g\<lparr>DbTconn := (DbTconn g)\<lparr>sent := xs\<rparr>, isOK := True, shown := s\<rparr>, enter_writes))"
    by (rule check_answer_accepts) (simp_all add: u easy_check_def)
  moreover have "login_click (easy_check rows) g = bind_run (ask_gateway (easy_check rows) g) (check_answer (easy_check rows))"
    using assms(1) by (simp add: login_click_def ask_gateway_def edit_text_def password_def)
  ultimately show ?thesis by (auto simp: easy_ask_gateway [OF assms(1,2)])
qed

section \<open>The run of the first user\<close>

definition login_command :: "globals \<Rightarrow> message" where
  "login_command g = \<lparr>msg_hwnd = cw_hWnd (win g), msg_message = WM_COMMAND, msg_wParam = 0, msg_lParam = cw_hWndButton (win g)\<rparr>"

definition login_bm :: "globals \<Rightarrow> message" where
  "login_bm g = (login_command g)\<lparr>msg_message := BM_CLICK\<rparr>"

lemma process_login_command:
  "ProcessNextMessage env (login_command g) g = Some (Inr (True, [login_bm g], [], g))"
  by (simp add: ProcessNextMessage_def login_command_def login_bm_def WndProc_def message_defs posts_def)

lemma process_login_bm:
  assumes "login_click env g = Some (Inr (g', ws))" and "cw_hWndButton (win g) \<noteq> cw_hWndButtonBack (win g)"
  shows "ProcessNextMessage env (login_bm g) g = Some (Inr (True, [], ws, g'))"
proof -
  have m: "msg_message (login_bm g) = BM_CLICK" "msg_lParam (login_bm g) = cw_hWndButton (win g)"
    by (simp_all add: login_bm_def login_command_def)
  have "win g' = win g" using login_click_writes [OF assms(1) m] by simp
  then show ?thesis using assms
    by (simp add: ProcessNextMessage_def login_bm_def login_command_def WndProc_def message_defs posts_def)
qed

text \<open>Two clicks on the login button from the prompt on, the first of them handled.\<close>

lemma two_clicks:
  assumes "dp_controls (shown g)" and "cw_hWndButton (win g) \<noteq> cw_hWndButtonBack (win g)" and "sync_writes sy"
    and "login_click env g = Some (Inr (g', ws))"
  shows "\<exists>c. login_steps sy (unproved Waiting g [] [] us) c \<and> pc c = Waiting \<and> glob c = fold apply_write ws g' \<and>
    queue c = [login_bm g] \<and> pending c = [] \<and> in_check c = None"
proof -
  let ?c = "unproved Waiting g" and ?u = "Clicked (cw_hWndButton (win g))"
  let ?m = "login_command g" and ?n = "login_bm g"
  have na: "\<not> password_accepted env ?m g" by (simp add: password_accepted_def login_command_def message_defs)
  have cl: "login_step sy (?c q [] us) (?c (q @ [?m]) [] (us @ [?u]))" for q us
    using click [of "?c q [] us" "cw_hWndButton (win g)" sy] assms(1) by (simp add: login_command_def)
  have ms: "login_step sy (?c (?m # q) [] us) (?c (q @ [?n]) [] us)" for q us
    using step_message [OF process_login_command na, of sy Waiting q] assms(3) by simp
  let ?us = "us @ [?u, ?u]"
  let ?d = "(?c [?n] [] ?us)\<lparr>glob := fold apply_write ws g', accepted := password_accepted env ?n g\<rparr>"
  have "login_steps sy (?c [] [] us) (?c [?n, ?n] [] ?us)"
    using cl [of "[]" us] cl [of "[?m]" "us @ [?u]"] ms [of "[?m]" ?us] ms [of "[?n]" ?us]
    by simp
  moreover have "login_step sy (?c [?n, ?n] [] ?us) ?d"
    using message [of "?c [?n, ?n] [] ?us" ?n "[?n]" env True "[]" ws g' sy] process_login_bm [OF assms(4,2)] assms(3)
    by (simp add: unproved_def)
  ultimately show ?thesis by (intro exI [of _ ?d]) (auto intro: rtranclp.rtrancl_into_rtrancl simp: unproved_def)
qed

text \<open>The login thread is let go, cannot record the login, and is back at the head of its loop.\<close>

lemma failed_record:
  assumes "pc c = Waiting" "\<not> empPWCT (glob c)" "\<not> boolGetBack (glob c)" "sync_reads sy"
    and "GetCarNumber (DbTconn (glob c)) = some_card" "GetUserNames (DbTconn (glob c)) = ''bob''"
      "GetNickNume (DbTconn (glob c)) = ''Bob''"
  shows "\<exists>g. login_steps sy c (c\<lparr>pc := AtLoop, glob := g\<rparr>) \<and> win g = win (glob c) \<and>
    initialization g = initialization (glob c) \<and> edit_text g = edit_text (glob c) \<and> BALLoginDt g = BALLoginDt (glob c) \<and>
    strlogUser g = strlogUser (glob c) \<and> rx g = (rx (glob c))\<lparr>Readinfo := []\<rparr>"
proof -
  have s: "login_step sy c (c\<lparr>pc := Recording\<rparr>)" using resume [OF assms(1,2), of sy] assms(3,4) by (simp add: resume_pc_def)
  obtain info d where r: "record_login full_table (glob c) = Inr ((glob c)\<lparr>strGetMachineInfo := info, DbTconn := d, isOK := False\<rparr>)"
    using full_table_record [OF assms(5-7)] by blast
  let ?g = "(glob c)\<lparr>strGetMachineInfo := info, DbTconn := d, isOK := False\<rparr>"
  let ?h = "?g\<lparr>shown := (shown (glob c))\<lparr>dp_title := txt_no_database, dp_cLogin := txt_login_failed\<rparr>\<rparr>"
  have n: "login_not_recorded ?g = Inr ?h" by (simp add: login_not_recorded_def)
  have "login_step sy (c\<lparr>pc := Recording\<rparr>) (c\<lparr>pc := AtLoop, glob := clear_card ?h\<rparr>)"
    using not_recorded [of "c\<lparr>pc := Recording\<rparr>" full_table ?g ?h sy] r n by simp
  with s have "login_steps sy c (c\<lparr>pc := AtLoop, glob := clear_card ?h\<rparr>)" by simp
  then show ?thesis by (intro exI [of _ "clear_card ?h"] conjI) (simp_all add: clear_card_def edit_text_def)
qed

text \<open>The example card has been found, and the password typed but not yet sent.\<close>

definition bob_found :: globals where
  "bob_found = card_there\<lparr>DbTconn := card_user None, isOK := True, strlogUser := ''bob'', strlogUserPW := []\<rparr>"

definition bob_typing :: globals where
  "bob_typing = (prompt_state bob_found)\<lparr>shown := (prompt_display bob_found)\<lparr>dp_edit := password\<rparr>\<rparr>"

lemma bob_typing_facts:
  "edit_text bob_typing = password" "win bob_typing = win card_there" "BALLoginDt bob_typing = []"
  "DbTconn bob_typing = card_user None" "\<not> initialization bob_typing" "rx bob_typing = rx card_there"
  "strlogUser bob_typing = ''bob''" "dp_controls (shown bob_typing)"
  using card_there_facts
  by (simp_all add: bob_typing_def bob_found_def prompt_state_def prompt_display_def edit_text_def password_def c_str_def)

lemma bob_typing_reached:
  "login_steps synchronised_flags (login_start card_there) (unproved Waiting bob_typing [] [] [Typed password])"
proof -
  let ?sy = synchronised_flags
  have l: "card_lookup (easy_pass None) card_there = Inr (Found, bob_found)" using lookup_ok [of None] by (simp add: bob_found_def)
  have "GetUserPW (DbTconn bob_found) = []" by (simp add: bob_found_def card_user_names)
  note run_to_prompt(2) [OF card_there_facts(1-3) l this, of ?sy]
  moreover have "login_step ?sy (unproved Waiting (prompt_state bob_found) [] [] []) (unproved Waiting bob_typing [] [] [Typed password])"
    using keys [of "unproved Waiting (prompt_state bob_found) [] [] []" ?sy password] by (simp add: bob_typing_def prompt_state_def prompt_display_def)
  ultimately show ?thesis by (rule rtranclp.rtrancl_into_rtrancl)
qed

lemma crossing_configuration:
  "\<exists>c. login_steps synchronised_flags (login_start card_there) c \<and> login_click_waiting c \<and>
     win (glob c) = win card_there \<and> \<not> initialization (glob c) \<and> edit_text (glob c) = password \<and>
     BALLoginDt (glob c) = [] \<and> strlogUser (glob c) = ''bob'' \<and> recv_inv (rx (glob c)) \<and> TempReadinfo (rx (glob c)) = []"
proof -
  let ?sy = synchronised_flags
  let ?g = bob_typing
  note f = bob_typing_facts(2-8)
  have b: "cw_hWndButton (win ?g) \<noteq> cw_hWndButtonBack (win ?g)" using f(1) card_there_facts(5) by simp
  obtain xs t where t: "dp_edit t = dp_edit (shown ?g)" and
    k: "login_click (easy_check []) ?g = Some (Inr (?g\<lparr>getUpw := password, chhttpPOST := [], BoolHttpback := True,
      DbTconn := (DbTconn ?g)\<lparr>sent := xs\<rparr>, isOK := True, shown := t\<rparr>, enter_writes))"
    using easy_login_click [OF bob_typing_facts(1) f(2), of "[]"] by (auto simp: f(3) card_user_names some_card)
  obtain c where c: "login_steps ?sy (unproved Waiting ?g [] [] [Typed password]) c" "pc c = Waiting" "queue c = [login_bm ?g]"
    "pending c = []" "in_check c = None"
    and gc: "glob c = fold apply_write enter_writes (?g\<lparr>getUpw := password, chhttpPOST := [], BoolHttpback := True,
      DbTconn := (DbTconn ?g)\<lparr>sent := xs\<rparr>, isOK := True, shown := t\<rparr>)"
    using two_clicks [OF f(7) b _ k, of ?sy] by (auto simp: sync_defs)
  have gf: "win (glob c) = win card_there" "BALLoginDt (glob c) = []" "\<not> initialization (glob c)" "rx (glob c) = rx card_there"
    "strlogUser (glob c) = ''bob''" "edit_text (glob c) = password" "\<not> empPWCT (glob c)" "\<not> boolGetBack (glob c)"
    "GetCarNumber (DbTconn (glob c)) = some_card" "GetUserNames (DbTconn (glob c)) = ''bob''" "GetNickNume (DbTconn (glob c)) = ''Bob''"
    using f bob_typing_facts(1) t by (simp_all add: gc writes_defs card_user_names edit_text_def)
  obtain g where g: "login_steps ?sy c (c\<lparr>pc := AtLoop, glob := g\<rparr>)" "win g = win (glob c)"
    "initialization g = initialization (glob c)" "edit_text g = edit_text (glob c)" "BALLoginDt g = BALLoginDt (glob c)"
    "strlogUser g = strlogUser (glob c)" "rx g = (rx (glob c))\<lparr>Readinfo := []\<rparr>"
    using failed_record [OF c(2) gf(7,8) _ gf(9-11), of ?sy] by (auto simp: sync_defs)
  have "login_click_waiting (c\<lparr>pc := AtLoop, glob := g\<rparr>)"
    using c g(2) gf(1) f(1) by (simp add: login_click_waiting_def login_bm_def login_command_def)
  moreover have "recv_inv (rx g)" "TempReadinfo (rx g) = []"
    by (simp_all add: g(7) gf(4) recv_inv_def card_there_def open_window_def globals_init_def)
  ultimately show ?thesis using bob_typing_reached c(1) g gf
    by (intro exI [of _ "c\<lparr>pc := AtLoop, glob := g\<rparr>"]) (auto intro: rtranclp_trans)
qed

theorem password_for_another_card_witness:
  "\<exists>c stmt. login_steps synchronised_flags (login_start card_there) c \<and> pc c = Returned True \<and> \<not> accepted c \<and>
     sprintf_s 255 user_update_format [Some password, Some other_card] = Inr stmt \<and>
     c_str stmt \<in> set (sent (DbTconn (glob c)))"
proof -
  let ?sy = synchronised_flags
  obtain c where c: "login_steps ?sy (login_start card_there) c" "login_click_waiting c" "win (glob c) = win card_there"
    "\<not> initialization (glob c)" "edit_text (glob c) = password" "BALLoginDt (glob c) = []" "strlogUser (glob c) = ''bob''"
    "recv_inv (rx (glob c))" "TempReadinfo (rx (glob c)) = []"
    using crossing_configuration by blast
  have sy: "sync_writes ?sy" "sync_reads ?sy" "\<not> sync_handlers ?sy" by (simp_all add: sync_defs)
  have w: "\<not> cw_fConnected (win (glob c))" "cw_hWndButton (win (glob c)) \<noteq> cw_hWndButtonBack (win (glob c))"
    using c(3) card_there_facts by simp_all
  have l: "7 < length (edit_text (glob c))" by (simp add: c(5) password_def)
  let ?g1 = "(glob c)\<lparr>getUpw := password, chhttpPOST := [], BoolHttpback := True\<rparr>"
  have a: "ask_gateway (easy_check []) (glob c) = Some (Inr ?g1)" by (rule easy_ask_gateway [OF c(5,6)])
  define ev where "ev = \<lparr>ce_ready = True, ce_bytes = other_card, ce_status = True\<rparr>"
  have ch: "chunk_of ev = other_card" by (simp add: ev_def chunk_of_def ReadBuf_size_def other_card)
  have "event_ok ev" by (simp add: event_ok_def ch other_card ReadBuf_size_def)
  with OnRecv_iter_eq [of ev "rx ?g1"] c(8,9) ch obtain r where
    r: "OnRecv_iter ev (rx ?g1) = Inr r" "Readinfo r = other_card"
    by (auto simp: ev_def other_card)
  have r32: "length (c_str (Readinfo r)) = 32" by (simp add: r(2) other_card)
  obtain g2 where g2: "card_lookup (easy_world other_row) (?g1\<lparr>rx := r\<rparr>) = Inr (Found, g2)" "strlogUser g2 = ''eve''"
    "GetUserPW (DbTconn g2) = []" "GetCarNumber (DbTconn g2) = other_card" "GetUserNames (DbTconn g2) = ''eve''"
    "GetNickNume (DbTconn g2) = ''Eve''"
    using other_lookup [of "?g1\<lparr>rx := r\<rparr>"] r(2) by auto
  obtain xs where u: "user_update (example_db []) password (DbTconn g2) = Inr (True, (DbTconn g2)\<lparr>sent := xs\<rparr>)"
    using easy_update [of "DbTconn g2"] g2(4) other_card by auto
  have u': "user_update (ck_db (easy_check [])) (edit_text (glob c)) (DbTconn g2) = Inr (True, (DbTconn g2)\<lparr>sent := xs\<rparr>)"
    using u by (simp add: c(5) easy_check_def)
  have rec: "recordable (easy_world other_row) ((DbTconn g2)\<lparr>sent := xs\<rparr>)"
    by (rule other_recordable) (simp_all add: g2)
  have nu: "strlogUser g2 \<noteq> strlogUser (glob c)" by (simp add: c(7) g2(2))
  have b: "BoolHttpback ?g1" by simp
  obtain c' stmt where "login_steps ?sy (login_start card_there) c'" "pc c' = Returned True" "\<not> accepted c'"
    "sprintf_s 255 user_update_format [Some password, Some other_card] = Inr stmt"
    "prefix (sent (DbTconn g2) @ [set_names, c_str stmt]) (sent (DbTconn (glob c')))"
    using password_for_another_card [OF c(1,2) sy w(1) c(4) w(2) l a b r(1) r32 g2(1,3) nu u' rec]
    unfolding c(5) g2(4) by blast
  then show ?thesis by (intro exI [of _ c'] exI [of _ stmt]) (auto simp: prefix_def)
qed

end
