(* ===== verification/Login_Buffers.thy ===== *)
theory Login_Buffers
  imports Login_Correct
begin

text \<open>
  What the threads share is well-formed at every moment: the texts in fixed buffers fit them with their
  terminator, and the card number is either empty or complete.
\<close>

section \<open>Well-formed shared variables\<close>

definition buffers_ok :: "globals \<Rightarrow> bool" where
  "buffers_ok g \<longleftrightarrow> length (dp_cLogin (shown g)) < 30 \<and> length (getUpw g) < 1024 \<and>
     length (chhttpPOST g) < 1000 \<and> length (c_str (strGetMachineInfo g)) < 250"

definition receiver_ok :: "receiver \<Rightarrow> bool" where
  "receiver_ok r \<longleftrightarrow> recv_inv r \<and> length (G_Readinfochs r) < 40"

definition globals_ok :: "globals \<Rightarrow> bool" where
  "globals_ok g \<longleftrightarrow> buffers_ok g \<and> receiver_ok (rx g)"

lemma receiver_ok_iter:
  assumes "OnRecv_iter ev r = Inr r'" and "receiver_ok r"
  shows "receiver_ok r'"
proof -
  have ok: "event_ok ev"
  proof (cases "ce_ready ev")
    case True
    with assms(1) obtain s where "ReadBuf_str (ce_bytes ev) = Inr s" by (auto simp: OnRecv_iter_def elim!: bind_resE)
    with True show ?thesis by (auto simp: event_ok_def chunk_of_def ReadBuf_str_def split: if_splits)
  qed (simp add: event_ok_def chunk_of_def ReadBuf_size_def)
  have inv: "recv_inv r" using assms(2) by (simp add: receiver_ok_def)
  have "length (G_Readinfochs r') < 40"
    using assms unfolding OnRecv_iter_eq [OF ok inv] by (auto simp: receiver_ok_def split: if_splits)
  with OnRecv_iter_inv [OF ok inv assms(1)] show ?thesis by (simp add: receiver_ok_def)
qed

section \<open>What the sections keep\<close>

lemma text_length: "t \<in> set texts \<Longrightarrow> length t < 30"
  using texts_fit [of t] by (auto simp: strcpy_s_ok)

lemmas text_lengths [simp] = texts_members [THEN text_length]

lemma set_texts_ok_buffers:
  "set_texts t x g = Inr g' \<Longrightarrow> buffers_ok g \<Longrightarrow> buffers_ok g' \<and> rx g' = rx g"
  by (auto simp: set_texts_def buffers_ok_def strcpy_s_ok elim!: bind_resE)

lemma buffers_ok_controls [simp]: "buffers_ok (set_controls b g) = buffers_ok g" "rx (set_controls b g) = rx g"
  by (simp_all add: set_controls_def buffers_ok_def)

lemma buffers_ok_settings [simp]: "buffers_ok (load_settings g) = buffers_ok g" "rx (load_settings g) = rx g"
  by (simp_all add: load_settings_def buffers_ok_def)

lemma query_settings_buffers:
  "query_settings env g = Inr g' \<Longrightarrow> buffers_ok g' = buffers_ok g \<and> rx g' = rx g"
  by (auto simp: query_settings_def Let_def buffers_ok_def load_settings_def elim!: bind_resE split: prod.splits if_splits)

lemma user_Print_info: "user_Print db info c = Inr r \<Longrightarrow> length (c_str info) < 250"
  by (auto simp: user_Print_def strcpy_s_ok elim!: bind_resE)

lemma card_lookup_buffers:
  "card_lookup env g = Inr (r, g') \<Longrightarrow> buffers_ok g' = buffers_ok g \<and> rx g' = rx g"
  by (auto simp: card_lookup_def Let_def buffers_ok_def dest!: query_settings_buffers
      elim!: bind_resE split: if_splits)

lemma ask_first_password_buffers:
  "ask_first_password g = Inr g' \<Longrightarrow> buffers_ok g \<Longrightarrow> buffers_ok g' \<and> rx g' = rx g"
  by (auto simp: ask_first_password_def set_controls_def buffers_ok_def elim!: bind_resE)

lemma gateway_check_buffers:
  "gateway_check env pw g = Some (Inr g') \<Longrightarrow> buffers_ok g \<Longrightarrow> buffers_ok g' \<and> rx g' = rx g"
  by (auto simp: gateway_check_def login_form_def buffers_ok_def dest: sprintf_s_length elim!: bind_runE)

lemma init_pass_buffers:
  assumes "init_pass env g = Some (Inr g')" and "buffers_ok g"
  shows "buffers_ok g' \<and> rx g' = rx g"
proof -
  have "buffers_ok h' \<and> rx h' = rx h" if r: "init_connected env h = Some (Inr h')" and h: "buffers_ok h" for h h'
  proof -
    obtain g1 where q: "query_settings env (h\<lparr>initialization := False\<rparr>) = Inr g1"
      using r by (auto simp: init_connected_def elim!: bind_runE)
    have g1: "buffers_ok g1" "rx g1 = rx h" using query_settings_buffers [OF q] h by (auto simp: buffers_ok_def)
    show ?thesis using r g1
      by (auto simp: init_connected_def q buffers_ok_def Let_def dest!: user_Print_info elim!: bind_runE)
  qed
  with assms show ?thesis
    by (auto simp: init_pass_def buffers_ok_def elim!: bind_runE split: if_splits)
qed

lemma check_stored_password_buffers:
  "check_stored_password env g = Some (Inr (ok, g')) \<Longrightarrow> buffers_ok g \<Longrightarrow> buffers_ok g' \<and> rx g' = rx g"
  by (auto simp: check_stored_password_def judge_stored_password_def Let_def set_controls_def buffers_ok_def dest!: gateway_check_buffers
      elim!: bind_runE split: if_splits)

lemma judge_stored_password_buffers:
  "judge_stored_password g = Some (Inr (ok, g')) \<Longrightarrow> buffers_ok g \<Longrightarrow> buffers_ok g' \<and> rx g' = rx g"
  by (auto simp: judge_stored_password_def Let_def set_controls_def buffers_ok_def split: if_splits)

lemma record_login_buffers:
  "record_login env g = Inr g' \<Longrightarrow> buffers_ok g \<Longrightarrow> buffers_ok g' \<and> rx g' = rx g"
  by (auto simp: record_login_def Let_def buffers_ok_def strcpy_s_ok elim!: bind_resE split: prod.splits)

lemma record_unknown_buffers:
  "record_unknown env g = Inr g' \<Longrightarrow> buffers_ok g \<Longrightarrow> buffers_ok g' \<and> rx g' = rx g"
  by (auto simp: record_unknown_def Let_def buffers_ok_def strcpy_s_ok elim!: bind_resE split: prod.splits)

lemma login_done_buffers:
  "login_done g = Inr g' \<Longrightarrow> buffers_ok g \<Longrightarrow> buffers_ok g' \<and> rx g' = rx g"
  "login_not_recorded g = Inr g' \<Longrightarrow> buffers_ok g \<Longrightarrow> buffers_ok g' \<and> rx g' = rx g"
  by (auto simp: login_done_def login_not_recorded_def buffers_ok_def)

lemma clear_card_ok: "globals_ok g \<Longrightarrow> globals_ok (clear_card g)"
  by (auto simp: globals_ok_def clear_card_def buffers_ok_def receiver_ok_def recv_inv_def)

lemma reconnect_ok:
  "reconnect env g = Inr g' \<Longrightarrow> globals_ok g \<Longrightarrow> globals_ok g'"
  by (auto simp: reconnect_def Let_def globals_ok_def buffers_ok_def receiver_ok_def recv_inv_def
      elim!: bind_resE split: prod.splits if_splits)

text \<open>The handlers.\<close>

lemma edit_text_length: "length (edit_text g) < 1024"
  using length_c_str [of "take 1023 (dp_edit (shown g))"] by (simp add: edit_text_def)

lemma check_answer_buffers:
  "check_answer env g = Some (Inr (g', ws)) \<Longrightarrow> buffers_ok g \<Longrightarrow> buffers_ok g' \<and> rx g' = rx g"
  by (auto simp: check_answer_def Let_def set_controls_def buffers_ok_def elim!: bind_runE split: if_splits prod.splits)

lemma ask_gateway_buffers:
  "ask_gateway env g = Some (Inr g') \<Longrightarrow> buffers_ok g \<Longrightarrow> buffers_ok g' \<and> rx g' = rx g"
  using gateway_check_buffers [of env _ "g\<lparr>getUpw := edit_text g\<rparr>" g'] edit_text_length [of g]
  by (auto simp: ask_gateway_def buffers_ok_def)

lemma login_click_buffers:
  assumes "login_click env g = Some (Inr (g', ws))" and "buffers_ok g"
  shows "buffers_ok g' \<and> rx g' = rx g"
proof (cases "7 < length (edit_text g)")
  case False
  then show ?thesis using assms edit_text_length [of g]
    by (auto simp: login_click_def Let_def buffers_ok_def edit_text_def)
next
  case True
  then have "login_click env g = bind_run (ask_gateway env g) (check_answer env)"
    by (simp add: login_click_def ask_gateway_def edit_text_def)
  with assms show ?thesis by (auto dest!: ask_gateway_buffers check_answer_buffers elim!: bind_runE)
qed

lemma back_click_buffers:
  "back_click g = Some (Inr (g', ws)) \<Longrightarrow> buffers_ok g \<Longrightarrow> buffers_ok g' \<and> rx g' = rx g"
  by (auto simp: back_click_def Let_def set_controls_def buffers_ok_def)

lemma message_buffers:
  "ProcessNextMessage env m g = Some (Inr (go, posted, ws, g')) \<Longrightarrow> buffers_ok g \<Longrightarrow> buffers_ok g' \<and> rx g' = rx g"
  by (auto simp: ProcessNextMessage_def Let_def dest!: login_click_buffers back_click_buffers
      elim!: bind_runE split: if_splits)

lemma apply_write_buffers [simp]: "buffers_ok (apply_write w g) = buffers_ok g" "rx (apply_write w g) = rx g"
  by (cases w; simp add: buffers_ok_def)+

lemma fold_write_buffers [simp]: "buffers_ok (fold apply_write ws g) = buffers_ok g" "rx (fold apply_write ws g) = rx g"
  by (induction ws arbitrary: g) simp_all

lemmas sections_buffers = init_pass_buffers card_lookup_buffers ask_first_password_buffers check_stored_password_buffers
  gateway_check_buffers judge_stored_password_buffers
  record_login_buffers login_done_buffers record_unknown_buffers message_buffers check_answer_buffers ask_gateway_buffers

lemma step_globals_ok: "login_step sy c c' \<Longrightarrow> globals_ok (glob c) \<Longrightarrow> globals_ok (glob c')"
proof (induction rule: login_step.induct)
  case (unknown c env g g')
  then show ?case by simp (intro clear_card_ok, auto simp: globals_ok_def dest!: card_lookup_buffers record_unknown_buffers)
next
  case (not_recorded c env g g')
  then show ?case by simp (intro clear_card_ok, auto simp: globals_ok_def dest!: record_login_buffers login_done_buffers)
next
  case (stored c env g ok g')
  then show ?case by (auto simp: globals_ok_def dest!: card_lookup_buffers check_stored_password_buffers)
next
  case (reader ev c r)
  then show ?case by (auto simp: globals_ok_def buffers_ok_def intro: receiver_ok_iter)
next
  case (reader_begins c)
  then show ?case by (simp add: globals_ok_def buffers_ok_def receiver_ok_def recv_inv_def OnRecv_start_def c_str_def)
next
  case (prompted c)
  then show ?case by (simp add: globals_ok_def buffers_ok_def)
next
  case (keys c s)
  then show ?case by (simp add: globals_ok_def buffers_ok_def)
qed (auto simp: globals_ok_def clear_card_ok [unfolded globals_ok_def] reconnect_ok [unfolded globals_ok_def]
    dest!: sections_buffers)

text \<open>C40: the shared variables are well-formed at every moment of every run, synchronised or not. Started
  on well-formed variables (as the program's initial ones are), the threads keep the painted text within the
  30 bytes of \<open>cLogin\<close>, the typed password within the 1024 of \<open>getUpw\<close>, the form within the 1000 of
  \<open>chhttpPOST\<close>, the machine information within the 250 it is copied to and the last card within its 40,
  terminators included; the card number the login thread reads is empty or has all of its 32 characters, and
  nothing that is pending contains a NUL.\<close>

theorem shared_variables_well_formed:
  assumes "globals_ok g" and "login_steps sy (login_start g) c"
  shows "globals_ok (glob c) \<and>
    (Readinfo (rx (glob c)) = [] \<or> length (Readinfo (rx (glob c))) = 32) \<and> length (G_Readinfochs (rx (glob c))) < 40 \<and>
    length (dp_cLogin (shown (glob c))) < 30 \<and> length (getUpw (glob c)) < 1024 \<and>
    length (chhttpPOST (glob c)) < 1000"
proof -
  have "globals_ok (glob c)" using assms(2)
    by (induction rule: rtranclp_induct) (use assms(1) step_globals_ok in \<open>auto simp: login_start_def\<close>)
  then show ?thesis by (auto simp: globals_ok_def buffers_ok_def receiver_ok_def recv_inv_def)
qed

lemma globals_init_ok: "globals_ok globals_init"
  by (simp add: globals_ok_def buffers_ok_def receiver_ok_def recv_inv_def globals_init_def c_str_def)

theorem shared_variables_well_formed_witness:
  "globals_ok globals_init \<and> (\<exists>c. login_steps unsynchronised (login_start card_there) c \<and> pc c = Returned True \<and>
     length (chhttpPOST (glob c)) < 1000)"
proof -
  have "globals_ok card_there"
    by (simp add: globals_ok_def buffers_ok_def receiver_ok_def recv_inv_def card_there_def open_window_def globals_init_def some_card c_str_def)
  moreover obtain c where c: "login_steps unsynchronised (login_start card_there) c" "pc c = Returned True"
    using easy_run by blast
  ultimately have "length (chhttpPOST (glob c)) < 1000"
    using shared_variables_well_formed by blast
  with c globals_init_ok show ?thesis by blast
qed

end
