(* ===== verification/Byte_Order.thy ===== *)
theory Byte_Order
  imports Prelude
begin

text \<open>
  The byte-order macros of the database client's headers: \<open>byte_order_generic.h\<close> and its two optimised
  variants for x86, and the machine-format macros of \<open>little_endian.h\<close> and \<open>big_endian.h\<close>.
  A pointer is an address of a flat memory of bytes. What the macros compute with is kept at the width the
  casts give it, so that sums wrap where the code's do; a floating-point object is its bit pattern.
\<close>

type_synonym byte = "8 word"
type_synonym mem = "nat \<Rightarrow> byte"

section \<open>What the machine does\<close>

text \<open>The access \<open>*(T *) p\<close> to an object of \<open>n\<close> bytes, on a little-endian and on a big-endian machine.\<close>

fun le_load :: "nat \<Rightarrow> mem \<Rightarrow> nat \<Rightarrow> 'a::len word" where
  "le_load 0 m a = 0"
| "le_load (Suc n) m a = ucast (m a) OR push_bit 8 (le_load n m (Suc a))"

fun le_store :: "nat \<Rightarrow> 'a::len word \<Rightarrow> nat \<Rightarrow> mem \<Rightarrow> mem" where
  "le_store 0 v t m = m"
| "le_store (Suc n) v t m = le_store n (drop_bit 8 v) (Suc t) (m(t := ucast v))"

fun be_load :: "nat \<Rightarrow> mem \<Rightarrow> nat \<Rightarrow> 'a::len word" where
  "be_load 0 m a = 0"
| "be_load (Suc n) m a = ucast (m (a + n)) OR push_bit 8 (be_load n m a)"

fun be_store :: "nat \<Rightarrow> 'a::len word \<Rightarrow> nat \<Rightarrow> mem \<Rightarrow> mem" where
  "be_store 0 v t m = m"
| "be_store (Suc n) v t m = be_store n (drop_bit 8 v) t (m(t + n := ucast v))"

text \<open>An element read through a pointer to signed or to unsigned characters, promoted to \<open>int\<close>.\<close>

definition elem :: "bool \<Rightarrow> byte \<Rightarrow> 32 word" where
  "elem is_signed b = (if is_signed then scast b else ucast b)"

section \<open>byte\_order\_generic.h\<close>

definition sint2korr :: "bool \<Rightarrow> mem \<Rightarrow> nat \<Rightarrow> 16 word" where
  "sint2korr sg m a = ucast (ucast (m a) + push_bit 8 (elem sg (m (a + 1))))"

definition sint3korr :: "mem \<Rightarrow> nat \<Rightarrow> 32 word" where
  "sint3korr m a =
     (if m (a + 2) AND 128 \<noteq> 0
      then push_bit 24 255 OR push_bit 16 (ucast (m (a + 2))) OR push_bit 8 (ucast (m (a + 1))) OR ucast (m a)
      else push_bit 16 (ucast (m (a + 2))) OR push_bit 8 (ucast (m (a + 1))) OR ucast (m a))"

definition sint4korr :: "bool \<Rightarrow> mem \<Rightarrow> nat \<Rightarrow> 32 word" where
  "sint4korr sg m a = ucast (m a) + push_bit 8 (ucast (m (a + 1))) + push_bit 16 (ucast (m (a + 2)))
     + push_bit 24 (elem sg (m (a + 3)))"

definition uint2korr :: "mem \<Rightarrow> nat \<Rightarrow> 16 word" where
  "uint2korr m a = ucast (ucast (m a) + push_bit 8 (ucast (m (a + 1))) :: 32 word)"

definition uint3korr :: "mem \<Rightarrow> nat \<Rightarrow> 32 word" where
  "uint3korr m a = ucast (m a) + push_bit 8 (ucast (m (a + 1))) + push_bit 16 (ucast (m (a + 2)))"

definition uint4korr :: "mem \<Rightarrow> nat \<Rightarrow> 32 word" where
  "uint4korr m a = ucast (m a) + push_bit 8 (ucast (m (a + 1))) + push_bit 16 (ucast (m (a + 2)))
     + push_bit 24 (ucast (m (a + 3)))"

definition uint5korr :: "mem \<Rightarrow> nat \<Rightarrow> 64 word" where
  "uint5korr m a =
     ucast (ucast (m a) + push_bit 8 (ucast (m (a + 1))) + push_bit 16 (ucast (m (a + 2)))
       + push_bit 24 (ucast (m (a + 3))) :: 32 word)
     + push_bit 32 (ucast (m (a + 4)))"

definition uint6korr :: "mem \<Rightarrow> nat \<Rightarrow> 64 word" where
  "uint6korr m a =
     ucast (ucast (m a) + push_bit 8 (ucast (m (a + 1))) + push_bit 16 (ucast (m (a + 2)))
       + push_bit 24 (ucast (m (a + 3))) :: 32 word)
     + push_bit 32 (ucast (m (a + 4))) + push_bit 40 (ucast (m (a + 5)))"

definition uint8korr :: "mem \<Rightarrow> nat \<Rightarrow> 64 word" where
  "uint8korr m a =
     ucast (ucast (m a) + push_bit 8 (ucast (m (a + 1))) + push_bit 16 (ucast (m (a + 2)))
       + push_bit 24 (ucast (m (a + 3))) :: 32 word)
     + push_bit 32 (ucast (ucast (m (a + 4)) + push_bit 8 (ucast (m (a + 5))) + push_bit 16 (ucast (m (a + 6)))
       + push_bit 24 (ucast (m (a + 7))) :: 32 word))"

definition sint8korr :: "mem \<Rightarrow> nat \<Rightarrow> 64 word" where
  "sint8korr m a = uint8korr m a"

definition int2store :: "nat \<Rightarrow> 'a::len word \<Rightarrow> mem \<Rightarrow> mem" where
  "int2store t v m = (let def_temp = ucast v :: 32 word
     in m(t := ucast def_temp, t + 1 := ucast (drop_bit 8 def_temp)))"

definition int3store :: "nat \<Rightarrow> 'a::len word \<Rightarrow> mem \<Rightarrow> mem" where
  "int3store t v m = m(t := ucast v, t + 1 := ucast (drop_bit 8 v), t + 2 := ucast (drop_bit 16 v))"

definition int4store :: "nat \<Rightarrow> 'a::len word \<Rightarrow> mem \<Rightarrow> mem" where
  "int4store t v m = m(t := ucast v, t + 1 := ucast (drop_bit 8 v), t + 2 := ucast (drop_bit 16 v),
     t + 3 := ucast (drop_bit 24 v))"

definition int5store :: "nat \<Rightarrow> 'a::len word \<Rightarrow> mem \<Rightarrow> mem" where
  "int5store t v m = m(t := ucast v, t + 1 := ucast (drop_bit 8 v), t + 2 := ucast (drop_bit 16 v),
     t + 3 := ucast (drop_bit 24 v), t + 4 := ucast (drop_bit 32 v))"

definition int6store :: "nat \<Rightarrow> 'a::len word \<Rightarrow> mem \<Rightarrow> mem" where
  "int6store t v m = m(t := ucast v, t + 1 := ucast (drop_bit 8 v), t + 2 := ucast (drop_bit 16 v),
     t + 3 := ucast (drop_bit 24 v), t + 4 := ucast (drop_bit 32 v), t + 5 := ucast (drop_bit 40 v))"

definition int8store :: "nat \<Rightarrow> 'a::len word \<Rightarrow> mem \<Rightarrow> mem" where
  "int8store t v m = (let def_temp = ucast v :: 32 word; def_temp2 = ucast (drop_bit 32 v) :: 32 word
     in int4store (t + 4) def_temp2 (int4store t def_temp m))"

section \<open>The three headers\<close>

text \<open>The integer macros of one header; a value to be stored is an unsigned 64-bit number.\<close>

record byte_order =
  bo_sint2korr :: "mem \<Rightarrow> nat \<Rightarrow> 16 word"
  bo_sint3korr :: "mem \<Rightarrow> nat \<Rightarrow> 32 word"
  bo_sint4korr :: "mem \<Rightarrow> nat \<Rightarrow> 32 word"
  bo_uint2korr :: "mem \<Rightarrow> nat \<Rightarrow> 16 word"
  bo_uint3korr :: "mem \<Rightarrow> nat \<Rightarrow> 32 word"
  bo_uint4korr :: "mem \<Rightarrow> nat \<Rightarrow> 32 word"
  bo_uint5korr :: "mem \<Rightarrow> nat \<Rightarrow> 64 word"
  bo_uint6korr :: "mem \<Rightarrow> nat \<Rightarrow> 64 word"
  bo_uint8korr :: "mem \<Rightarrow> nat \<Rightarrow> 64 word"
  bo_sint8korr :: "mem \<Rightarrow> nat \<Rightarrow> 64 word"
  bo_int2store :: "nat \<Rightarrow> 64 word \<Rightarrow> mem \<Rightarrow> mem"
  bo_int3store :: "nat \<Rightarrow> 64 word \<Rightarrow> mem \<Rightarrow> mem"
  bo_int4store :: "nat \<Rightarrow> 64 word \<Rightarrow> mem \<Rightarrow> mem"
  bo_int5store :: "nat \<Rightarrow> 64 word \<Rightarrow> mem \<Rightarrow> mem"
  bo_int6store :: "nat \<Rightarrow> 64 word \<Rightarrow> mem \<Rightarrow> mem"
  bo_int8store :: "nat \<Rightarrow> 64 word \<Rightarrow> mem \<Rightarrow> mem"

definition generic_macros :: "bool \<Rightarrow> byte_order" where
  "generic_macros is_signed = \<lparr>
     bo_sint2korr = sint2korr is_signed, bo_sint3korr = sint3korr, bo_sint4korr = sint4korr is_signed,
     bo_uint2korr = uint2korr, bo_uint3korr = uint3korr, bo_uint4korr = uint4korr, bo_uint5korr = uint5korr,
     bo_uint6korr = uint6korr, bo_uint8korr = uint8korr, bo_sint8korr = sint8korr,
     bo_int2store = int2store, bo_int3store = int3store, bo_int4store = int4store, bo_int5store = int5store,
     bo_int6store = int6store, bo_int8store = int8store\<rparr>"

text \<open>
  \<open>byte_order_generic_x86.h\<close>, chosen for i386 and for every Windows, where \<open>long\<close> has 32 bits:
  unaligned accesses of the machine where there is a type of that size, single bytes elsewhere.
\<close>

definition x86_macros :: byte_order where
  "x86_macros = \<lparr>
     bo_sint2korr = le_load 2,
     bo_sint3korr = (\<lambda>m a.
       (if m (a + 2) AND 128 \<noteq> 0
        then push_bit 24 255 OR push_bit 16 (ucast (m (a + 2))) OR push_bit 8 (ucast (m (a + 1))) OR ucast (m a)
        else push_bit 16 (ucast (m (a + 2))) OR push_bit 8 (ucast (m (a + 1))) OR ucast (m a))),
     bo_sint4korr = le_load 4,
     bo_uint2korr = le_load 2,
     bo_uint3korr = (\<lambda>m a. ucast (m a) + push_bit 8 (ucast (m (a + 1))) + push_bit 16 (ucast (m (a + 2)))),
     bo_uint4korr = le_load 4,
     bo_uint5korr = (\<lambda>m a. ucast (ucast (m a) + push_bit 8 (ucast (m (a + 1))) + push_bit 16 (ucast (m (a + 2)))
         + push_bit 24 (ucast (m (a + 3))) :: 32 word)
       + push_bit 32 (ucast (m (a + 4)))),
     bo_uint6korr = (\<lambda>m a. ucast (ucast (m a) + push_bit 8 (ucast (m (a + 1))) + push_bit 16 (ucast (m (a + 2)))
         + push_bit 24 (ucast (m (a + 3))) :: 32 word)
       + push_bit 32 (ucast (m (a + 4))) + push_bit 40 (ucast (m (a + 5)))),
     bo_uint8korr = le_load 8,
     bo_sint8korr = le_load 8,
     bo_int2store = (\<lambda>t v. le_store 2 (ucast v :: 16 word) t),
     bo_int3store = (\<lambda>t v m. m(t := ucast v, t + 1 := ucast (drop_bit 8 (ucast v :: 32 word)), t + 2 := ucast (drop_bit 16 v))),
     bo_int4store = (\<lambda>t v. le_store 4 (ucast v :: 32 word) t),
     bo_int5store = (\<lambda>t v m. m(t := ucast v, t + 1 := ucast (drop_bit 8 v), t + 2 := ucast (drop_bit 16 v),
       t + 3 := ucast (drop_bit 24 v), t + 4 := ucast (drop_bit 32 v))),
     bo_int6store = (\<lambda>t v m. m(t := ucast v, t + 1 := ucast (drop_bit 8 v), t + 2 := ucast (drop_bit 16 v),
       t + 3 := ucast (drop_bit 24 v), t + 4 := ucast (drop_bit 32 v), t + 5 := ucast (drop_bit 40 v))),
     bo_int8store = (\<lambda>t v. le_store 8 v t)\<rparr>"

text \<open>\<open>byte_order_generic_x86_64.h\<close>: the accesses are made through \<open>int32\<close> instead of \<open>long\<close>, the stores
  through a copy of the pointer, so that an expression for it is evaluated once.\<close>

definition x86_64_macros :: byte_order where
  "x86_64_macros = \<lparr>
     bo_sint2korr = le_load 2,
     bo_sint3korr = (\<lambda>m a.
       (if m (a + 2) AND 128 \<noteq> 0
        then push_bit 24 255 OR push_bit 16 (ucast (m (a + 2))) OR push_bit 8 (ucast (m (a + 1))) OR ucast (m a)
        else push_bit 16 (ucast (m (a + 2))) OR push_bit 8 (ucast (m (a + 1))) OR ucast (m a))),
     bo_sint4korr = le_load 4,
     bo_uint2korr = le_load 2,
     bo_uint3korr = (\<lambda>m a. ucast (m a) + push_bit 8 (ucast (m (a + 1))) + push_bit 16 (ucast (m (a + 2)))),
     bo_uint4korr = le_load 4,
     bo_uint5korr = (\<lambda>m a. ucast (ucast (m a) + push_bit 8 (ucast (m (a + 1))) + push_bit 16 (ucast (m (a + 2)))
         + push_bit 24 (ucast (m (a + 3))) :: 32 word)
       + push_bit 32 (ucast (m (a + 4)))),
     bo_uint6korr = (\<lambda>m a. ucast (ucast (m a) + push_bit 8 (ucast (m (a + 1))) + push_bit 16 (ucast (m (a + 2)))
         + push_bit 24 (ucast (m (a + 3))) :: 32 word)
       + push_bit 32 (ucast (m (a + 4))) + push_bit 40 (ucast (m (a + 5)))),
     bo_uint8korr = le_load 8,
     bo_sint8korr = le_load 8,
     bo_int2store = (\<lambda>t v. let pT = t in le_store 2 (ucast v :: 16 word) pT),
     bo_int3store = (\<lambda>t v m. m(t := ucast v, t + 1 := ucast (drop_bit 8 (ucast v :: 32 word)), t + 2 := ucast (drop_bit 16 v))),
     bo_int4store = (\<lambda>t v. let pT = t in le_store 4 (ucast v :: 32 word) pT),
     bo_int5store = (\<lambda>t v m. m(t := ucast v, t + 1 := ucast (drop_bit 8 v), t + 2 := ucast (drop_bit 16 v),
       t + 3 := ucast (drop_bit 24 v), t + 4 := ucast (drop_bit 32 v))),
     bo_int6store = (\<lambda>t v m. m(t := ucast v, t + 1 := ucast (drop_bit 8 v), t + 2 := ucast (drop_bit 16 v),
       t + 3 := ucast (drop_bit 24 v), t + 4 := ucast (drop_bit 32 v), t + 5 := ucast (drop_bit 40 v))),
     bo_int8store = (\<lambda>t v. let pT = t in le_store 8 v pT)\<rparr>"

text \<open>\<open>my_byteorder.h\<close>: which of the three is used. The last one is for any machine.\<close>

datatype platform = I386_or_Windows | X86_64 | Other_platform bool

fun my_byteorder :: "platform \<Rightarrow> byte_order" where
  "my_byteorder I386_or_Windows = x86_macros"
| "my_byteorder X86_64 = x86_64_macros"
| "my_byteorder (Other_platform is_signed) = generic_macros is_signed"

section \<open>Loads and stores\<close>

lemma plus_push_bit:
  fixes x y :: "'a::len word"
  assumes "\<And>n. bit x n \<Longrightarrow> n < k"
  shows "x + push_bit k y = x OR push_bit k y"
proof (rule disjunctive_add_eq_or)
  show "x AND push_bit k y = 0" 
  proof (rule bit_word_eqI)
    fix n assume "n < LENGTH('a)"
    show "bit (x AND push_bit k y) n \<longleftrightarrow> bit 0 n" using assms [of n] by (auto simp: bit_simps)
  qed
qed

lemma bit_byte: "bit (b :: byte) n \<Longrightarrow> n < 8"
  using bit_imp_le_length [of b n] by simp

lemma bit_le_load:
  "bit (le_load n m a :: 'a::len word) i \<longleftrightarrow> i < LENGTH('a) \<and> i < 8 * n \<and> bit (m (a + i div 8)) (i mod 8)"
proof (induction n arbitrary: a i)
  case (Suc n)
  show ?case
  proof (cases "i < 8")
    case True
    then show ?thesis by (auto simp: bit_simps)
  next
    case False
    have "a + i div 8 = Suc a + (i - 8) div 8" "(i - 8) mod 8 = i mod 8" 
      using False by (simp_all add: le_div_geq le_mod_geq)
    with False show ?thesis using Suc.IH [of "Suc a" "i - 8"] by (auto simp: bit_simps dest: bit_byte)
  qed
qed simp

lemma bit_be_load:
  "bit (be_load n m a :: 'a::len word) i \<longleftrightarrow> i < LENGTH('a) \<and> i < 8 * n \<and> bit (m (a + n - Suc (i div 8))) (i mod 8)"
proof (induction n arbitrary: i)
  case (Suc n)
  show ?case
  proof (cases "i < 8")
    case True
    then show ?thesis by (auto simp: bit_simps)
  next
    case False
    then obtain j where i: "i = 8 + j" by (metis le_Suc_ex linorder_not_less)
    have e: "\<not> bit (m (a + n)) i" using False bit_byte by blast
    have d: "a + Suc n - Suc ((8 + j) div 8) = a + n - Suc (j div 8)" by simp
    show ?thesis unfolding i be_load.simps d
      using e i by (simp add: Suc.IH bit_or_iff bit_push_bit_iff bit_unsigned_iff) linarith
  qed
qed simp

lemma le_store_at:
  "le_store n v t m x = (if t \<le> x \<and> x < t + n then ucast (drop_bit (8 * (x - t)) v) else m x)"
proof (induction n arbitrary: v t m x)
  case (Suc n)
  consider "x < t" | "x = t" | "t < x" by linarith
  then show ?case
  proof cases
    case 3
    then have "8 * (x - t) = 8 * (x - Suc t) + 8" by simp
    with 3 show ?thesis by (simp add: Suc.IH drop_bit_drop_bit del: mult_Suc_right)
  qed (simp_all add: Suc.IH)
qed auto

lemma be_store_at:
  "be_store n v t m x = (if t \<le> x \<and> x < t + n then ucast (drop_bit (8 * (t + n - Suc x)) v) else m x)"
proof (induction n arbitrary: v m x)
  case (Suc n)
  consider "x < t \<or> t + n < x" | "x = t + n" | "t \<le> x" "x < t + n" by linarith
  then show ?case
  proof cases
    case 3
    then have "8 * (t + Suc n - Suc x) = 8 * (t + n - Suc x) + 8" by simp
    with 3 show ?thesis by (simp add: Suc.IH drop_bit_drop_bit del: mult_Suc_right)
  qed (auto simp add: Suc.IH)
qed auto

lemma le_load_plus: "le_load (Suc n) m a = ucast (m a) + push_bit 8 (le_load n m (Suc a))"
  by (subst plus_push_bit) (auto simp: bit_simps dest: bit_byte)

text \<open>The loads as the sums the macros write.\<close>

lemma le_load_sum:
  "le_load 2 m a = ucast (m a) + push_bit 8 (ucast (m (a + 1)))"
  "le_load 3 m a = ucast (m a) + push_bit 8 (ucast (m (a + 1))) + push_bit 16 (ucast (m (a + 2)))"
  "le_load 4 m a = ucast (m a) + push_bit 8 (ucast (m (a + 1))) + push_bit 16 (ucast (m (a + 2)))
     + push_bit 24 (ucast (m (a + 3)))"
  by (simp_all add: numeral_2_eq_2 numeral_3_eq_3 numeral_nat le_load_plus push_bit_add push_bit_push_bit del: le_load.simps(2))

lemma le_load_append: "le_load (n + k) m a = le_load n m a + push_bit (8 * n) (le_load k m (a + n))"
proof (induction n arbitrary: a)
  case (Suc n)
  then show ?case by (simp add: le_load_plus push_bit_add push_bit_push_bit add.commute del: le_load.simps(2))
qed simp

lemma ucast_le_load: "8 * n \<le> LENGTH('a) \<Longrightarrow> ucast (le_load n m a :: 'a::len word) = (le_load n m a :: 'b::len word)"
  by (rule bit_word_eqI) (auto simp: bit_simps bit_le_load)

lemma le_load_cut: "LENGTH('a) \<le> LENGTH('b) \<Longrightarrow> ucast (le_load n m a :: 'b::len word) = (le_load n m a :: 'a::len word)"
  by (rule bit_word_eqI) (auto simp: bit_simps bit_le_load)


lemma narrow_elem:
  fixes x :: "32 word"
  assumes "\<And>n. bit x n \<Longrightarrow> n < k" and "LENGTH('a) = k + 8"
  shows "ucast (x + push_bit k (elem is_signed b)) = (ucast (x + push_bit k (ucast b)) :: 'a::len word)"
proof -
  have "bit (push_bit k (elem is_signed b)) n = bit (push_bit k (ucast b) :: 32 word) n" if "n < k + 8" for n
  proof -
    have "n - k = 7" if "7 \<le> n - k" using that \<open>n < k + 8\<close> by simp
    with that show ?thesis by (auto simp: bit_simps elem_def min_def dest: bit_byte)
  qed
  moreover have "bit (x + push_bit k y) n \<longleftrightarrow> bit x n \<or> bit (push_bit k y) n" for y n
    by (simp only: plus_push_bit [OF assms(1)] bit_or_iff)
  ultimately show ?thesis by (intro bit_word_eqI) (auto simp: assms(2) bit_unsigned_iff)
qed

text \<open>Every macro of the generic header that reads a full number of bytes is a little-endian load.\<close>

lemma generic_loads:
  "uint2korr = le_load 2" "uint3korr = le_load 3" "uint4korr = le_load 4"
  "uint5korr = le_load 5" "uint6korr = le_load 6" "uint8korr = le_load 8" "sint8korr = le_load 8"
proof -
  have four: "ucast (le_load 4 m a :: 32 word) = (le_load 4 m a :: 64 word)" for m a
    by (rule ucast_le_load) simp
  have one: "le_load 1 m a = ucast (m a)" "le_load (Suc 0) m a = ucast (m a)" for m a
    by (simp_all add: bit_simps)
  have "uint2korr m a = ucast (le_load 2 m a :: 32 word)" for m a by (simp add: uint2korr_def le_load_sum)
  then show "uint2korr = le_load 2" by (simp add: fun_eq_iff le_load_cut)
  show "uint3korr = le_load 3" "uint4korr = le_load 4"
    by (simp_all add: fun_eq_iff uint3korr_def uint4korr_def le_load_sum)
  have "uint5korr m a = le_load (4 + 1) m a" "uint8korr m a = le_load (4 + 4) m a" for m a
    unfolding le_load_append uint5korr_def uint8korr_def le_load_sum(3) [symmetric] four one
    using four [of m "a + 4"] by (simp_all add: le_load_sum(3) ac_simps)
  then show "uint5korr = le_load 5" "uint8korr = le_load 8" by (simp_all add: fun_eq_iff)
  have "uint6korr m a = le_load (4 + 2) m a" for m a
    unfolding le_load_append uint6korr_def le_load_sum(3) [symmetric] le_load_sum(1) four
    by (simp add: push_bit_add push_bit_push_bit ac_simps)
  then show "uint6korr = le_load 6" by (simp add: fun_eq_iff)
  with \<open>uint8korr = le_load 8\<close> show "sint8korr = le_load 8" by (simp add: fun_eq_iff sint8korr_def)
qed

lemma sint_loads: "sint2korr is_signed = le_load 2" "sint4korr is_signed = le_load 4"
proof -
  have "sint2korr is_signed m a = uint2korr m a" for m a
    unfolding sint2korr_def uint2korr_def by (rule narrow_elem) (auto simp: bit_simps dest: bit_byte)
  then show "sint2korr is_signed = le_load 2" by (simp add: fun_eq_iff generic_loads)
  have b: "bit (ucast (m a) + push_bit 8 (ucast (m (a + 1))) + push_bit 16 (ucast (m (a + 2))) :: 32 word) n \<Longrightarrow> n < 24"
    for m :: mem and a n unfolding le_load_sum(2) [symmetric] by (simp add: bit_le_load)
  have "ucast (sint4korr is_signed m a) = (ucast (uint4korr m a) :: 32 word)" for m a
    unfolding sint4korr_def uint4korr_def by (rule narrow_elem [OF b]) (simp_all add: eval_nat_numeral)
  then show "sint4korr is_signed = le_load 4" by (simp add: fun_eq_iff generic_loads)
qed

lemma generic_stores:
  fixes v :: "64 word"
  shows "int2store t v = le_store 2 v t" "int3store t v = le_store 3 v t" "int4store t v = le_store 4 v t"
    "int5store t v = le_store 5 v t" "int6store t v = le_store 6 v t" "int8store t v = le_store 8 v t"
proof -
  have cut: "ucast (ucast v :: 32 word) = (ucast v :: byte)" "k + 8 \<le> 32 \<Longrightarrow> ucast (drop_bit k (ucast v :: 32 word)) = (ucast (drop_bit k v) :: byte)"
    for v :: "64 word" and k by (auto intro!: bit_word_eqI simp: bit_simps)
  have low: "int4store t (ucast v :: 32 word) = int4store t v" for t and v :: "64 word"
    by (simp add: fun_eq_iff int4store_def cut)
  show "int2store t v = le_store 2 v t" "int3store t v = le_store 3 v t" "int4store t v = le_store 4 v t"
    "int5store t v = le_store 5 v t" "int6store t v = le_store 6 v t"
    by (simp_all add: fun_eq_iff int2store_def int3store_def int4store_def int5store_def int6store_def cut
        eval_nat_numeral drop_bit_drop_bit)
  show "int8store t v = le_store 8 v t"
    by (simp add: fun_eq_iff int8store_def low Let_def) (simp add: int4store_def eval_nat_numeral drop_bit_drop_bit)
qed

lemma store_narrow: "8 * n \<le> LENGTH('a) \<Longrightarrow> LENGTH('a) \<le> 64 \<Longrightarrow> le_store n (ucast (v :: 64 word) :: 'a::len word) t = le_store n v t"
  by (auto simp: fun_eq_iff le_store_at intro!: bit_word_eqI) (auto simp: bit_simps)

lemma load_store:
  "le_load n (le_store n v t m) t = (take_bit (8 * n) v :: 'a::len word)"
  by (rule bit_word_eqI) (auto simp: bit_le_load le_store_at bit_simps less_mult_imp_div_less mult.commute)

text \<open>C34: the three headers are interchangeable. The unaligned accesses of the two x86 headers and the
  byte-by-byte sums of the generic one read and write the same numbers, for every memory and address,
  whether the generic macros are given pointers to signed or to unsigned characters.\<close>

theorem byte_order_headers_agree: "my_byteorder p = my_byteorder q"
proof -
  have byte: "ucast (drop_bit 8 (ucast v :: 32 word)) = (ucast (drop_bit 8 v) :: byte)" for v :: "64 word"
    by (rule bit_word_eqI) (simp add: bit_simps)
  have "generic_macros sg = x86_macros" for sg
  proof (rule byte_order.equality)
    show "bo_uint5korr (generic_macros sg) = bo_uint5korr x86_macros" "bo_uint6korr (generic_macros sg) = bo_uint6korr x86_macros"
      by (simp_all add: fun_eq_iff generic_macros_def x86_macros_def uint5korr_def uint6korr_def)
  qed (simp_all add: generic_macros_def x86_macros_def fun_eq_iff sint3korr_def uint3korr_def
      int3store_def int5store_def int6store_def byte, simp_all add: sint_loads generic_loads generic_stores store_narrow)
  moreover have "x86_64_macros = x86_macros"
    by (simp add: x86_macros_def x86_64_macros_def Let_def)
  ultimately have "my_byteorder p = x86_macros" for p by (cases p) simp_all
  then show ?thesis by simp
qed

lemma my_byteorder_generic: "my_byteorder p = generic_macros False"
  using byte_order_headers_agree [of p "Other_platform False"] by simp

lemma load_store_cut: "LENGTH('a) \<le> LENGTH('b) \<Longrightarrow>
  (le_load n (le_store n (v :: 'b::len word) t m) t :: 'a::len word) = take_bit (8 * n) (ucast v)"
  by (rule bit_word_eqI) (auto simp: bit_le_load le_store_at bit_simps less_mult_imp_div_less mult.commute)

text \<open>The stores of a header with the number of bytes they are named for.\<close>

definition stores :: "byte_order \<Rightarrow> (nat \<times> (nat \<Rightarrow> 64 word \<Rightarrow> mem \<Rightarrow> mem)) list" where
  "stores bo = [(2, bo_int2store bo), (3, bo_int3store bo), (4, bo_int4store bo), (5, bo_int5store bo),
     (6, bo_int6store bo), (8, bo_int8store bo)]"

text \<open>C35: what is stored is read back. On every platform, reading with the macro of the same width gives the
  number's low 16, 24, 32, 40, 48 or 64 bits, and a store changes no byte but the ones it is named for.\<close>

theorem korr_reads_store:
  "bo_uint2korr (my_byteorder p) (bo_int2store (my_byteorder q) t v m) t = ucast v \<and>
   bo_uint3korr (my_byteorder p) (bo_int3store (my_byteorder q) t v m) t = take_bit 24 (ucast v) \<and>
   bo_uint4korr (my_byteorder p) (bo_int4store (my_byteorder q) t v m) t = ucast v \<and>
   bo_uint5korr (my_byteorder p) (bo_int5store (my_byteorder q) t v m) t = take_bit 40 v \<and>
   bo_uint6korr (my_byteorder p) (bo_int6store (my_byteorder q) t v m) t = take_bit 48 v \<and>
   bo_uint8korr (my_byteorder p) (bo_int8store (my_byteorder q) t v m) t = v \<and>
   list_all (\<lambda>(n, f). {x. f t v m x \<noteq> m x} \<subseteq> {t..<t + n}) (stores (my_byteorder q))"
  unfolding my_byteorder_generic stores_def generic_macros_def byte_order.simps generic_loads generic_stores
  by (simp add: load_store_cut load_store take_bit_word_eq_self) (auto simp: le_store_at split: if_splits)

lemma sint3korr_signed: "sint3korr m a = signed_take_bit 23 (uint3korr m a)"
proof -
  have b: "m (a + 2) AND 128 \<noteq> 0 \<longleftrightarrow> bit (m (a + 2)) 7"
    using and_exp_eq_0_iff_not_bit [of "m (a + 2)" 7] by simp
  have u: "uint3korr m a = ucast (m a) OR push_bit 8 (ucast (m (a + 1))) OR push_bit 16 (ucast (m (a + 2)))"
    by (simp add: generic_loads numeral_3_eq_3 push_bit_or or.assoc)
  have ones: "push_bit 24 255 = (NOT (mask 24) :: 32 word)" by (simp add: mask_eq_exp_minus_1)
  show ?thesis
    unfolding u sint3korr_def b ones
  proof (rule bit_word_eqI)
    let ?w = "ucast (m a) OR push_bit 8 (ucast (m (a + 1))) OR push_bit 16 (ucast (m (a + 2))) :: 32 word"
    fix n assume n: "n < LENGTH(32)"
    have w: "bit ?w k \<longleftrightarrow> k < 32 \<and> (bit (m a) k \<or> 8 \<le> k \<and> bit (m (a + 1)) (k - 8) \<or> 16 \<le> k \<and> bit (m (a + 2)) (k - 16))" for k
      by (auto simp: bit_or_iff bit_push_bit_iff bit_unsigned_iff)
    have top: "bit ?w 23 \<longleftrightarrow> bit (m (a + 2)) 7" "24 \<le> k \<Longrightarrow> \<not> bit ?w k" for k
      unfolding w using bit_byte [of "m a" 23] bit_byte [of "m (a + 1)" 15] bit_byte [of "m a" k]
        bit_byte [of "m (a + 1)" "k - 8"] bit_byte [of "m (a + 2)" "k - 16"] by auto
    have "bit (if bit (m (a + 2)) 7 then NOT (mask 24) OR ?w else ?w) n = bit (signed_take_bit 23 ?w) n"
    proof (cases "n < 24")
      case True
      then have "n < 23 \<or> n = 23" by linarith
      with True show ?thesis by (auto simp: bit_or_iff bit_not_iff bit_mask_iff bit_signed_take_bit_iff)
    next
      case False
      with n top show ?thesis by (simp add: bit_or_iff [of "NOT (mask 24)"] bit_not_iff bit_mask_iff bit_signed_take_bit_iff)
    qed
    then show "bit (if bit (m (a + 2)) 7
         then NOT (mask 24) OR push_bit 16 (ucast (m (a + 2))) OR push_bit 8 (ucast (m (a + 1))) OR ucast (m a)
         else push_bit 16 (ucast (m (a + 2))) OR push_bit 8 (ucast (m (a + 1))) OR ucast (m a) :: 32 word) n =
      bit (signed_take_bit 23 ?w) n"
      by (simp only: or.assoc or.left_commute or.commute)
  qed
qed

lemma sint_signed_take_bit:
  "k < 32 \<Longrightarrow> sint (signed_take_bit k w :: 32 word) = signed_take_bit k (uint w)"
  by (rule bit_eqI) (auto simp: bit_simps min_def)

lemma uint_uint3korr: "uint (uint3korr m a) < 2 ^ 24" 
proof -
  have "take_bit 24 (uint3korr m a) = uint3korr m a"
    by (rule bit_word_eqI) (auto simp: generic_loads bit_le_load bit_simps)
  then have "take_bit 24 (uint (uint3korr m a)) = uint (uint3korr m a)" by (metis unsigned_take_bit_eq)
  then show ?thesis by (simp add: take_bit_int_eq_self_iff)
qed

lemma sint3korr_value:
  "sint (sint3korr m a) = (if uint (uint3korr m a) < 2 ^ 23 then uint (uint3korr m a) else uint (uint3korr m a) - 2 ^ 24)"
proof -
  let ?u = "uint (uint3korr m a)"
  have r: "0 \<le> ?u" "?u < 2 ^ 24" by (simp_all add: uint_uint3korr del: power_numeral)
  then have "take_bit 24 ?u = ?u" by (simp add: take_bit_int_eq_self)
  moreover have "bit ?u 23 \<longleftrightarrow> 2 ^ 23 \<le> ?u"
  proof -
    have "?u div 2 ^ 23 = (if 2 ^ 23 \<le> ?u then 1 else 0)" using r by auto
    then show ?thesis by (simp add: bit_iff_odd)
  qed
  ultimately show ?thesis
    using signed_take_bit_eq_take_bit_minus [of 23 ?u] by (simp add: sint3korr_signed sint_signed_take_bit)
qed

text \<open>The three-byte read extends the sign. On every platform \<open>sint3korr\<close> is the two's complement value
  of the 24 bits that \<open>uint3korr\<close> reads as an unsigned number.\<close>

theorem sint3korr_extends_sign:
  "sint (bo_sint3korr (my_byteorder p) m a) =
     (let u = uint (bo_uint3korr (my_byteorder p) m a) in if u < 2 ^ 23 then u else u - 2 ^ 24)"
  using sint3korr_value [of m a] by (simp add: my_byteorder_generic generic_macros_def Let_def)

section \<open>Machine format\<close>

text \<open>
  The macros of \<open>little_endian.h\<close>, \<open>big_endian.h\<close> and the floating-point part of the x86
  header. \<open>float4\<close> and \<open>float8\<close> are in the machine-independent format, the others in the machine's own.
\<close>

record machine_format =
  mf_float4store :: "nat \<Rightarrow> 32 word \<Rightarrow> mem \<Rightarrow> mem"
  mf_float4get :: "mem \<Rightarrow> nat \<Rightarrow> 32 word"
  mf_float8store :: "nat \<Rightarrow> 64 word \<Rightarrow> mem \<Rightarrow> mem"
  mf_float8get :: "mem \<Rightarrow> nat \<Rightarrow> 64 word"
  mf_ushortget :: "mem \<Rightarrow> nat \<Rightarrow> 16 word"
  mf_shortget :: "mem \<Rightarrow> nat \<Rightarrow> 16 word"
  mf_longget :: "mem \<Rightarrow> nat \<Rightarrow> 32 word"
  mf_ulongget :: "mem \<Rightarrow> nat \<Rightarrow> 32 word"
  mf_shortstore :: "nat \<Rightarrow> 64 word \<Rightarrow> mem \<Rightarrow> mem"
  mf_longstore :: "nat \<Rightarrow> 64 word \<Rightarrow> mem \<Rightarrow> mem"
  mf_floatget :: "mem \<Rightarrow> nat \<Rightarrow> 32 word"
  mf_floatstore :: "nat \<Rightarrow> 32 word \<Rightarrow> mem \<Rightarrow> mem"
  mf_doubleget :: "mem \<Rightarrow> nat \<Rightarrow> 64 word"
  mf_doublestore :: "nat \<Rightarrow> 64 word \<Rightarrow> mem \<Rightarrow> mem"
  mf_longlongget :: "mem \<Rightarrow> nat \<Rightarrow> 64 word"
  mf_longlongstore :: "nat \<Rightarrow> 64 word \<Rightarrow> mem \<Rightarrow> mem"

text \<open>The bytes of a local variable, at address 0.\<close>

abbreviation (input) be_bytes :: "nat \<Rightarrow> 'a::len word \<Rightarrow> mem" where
  "be_bytes n v \<equiv> be_store n v 0 (\<lambda>_. 0)"

definition big_endian :: "bool \<Rightarrow> machine_format" where
  "big_endian is_signed = \<lparr>
     mf_float4store = (\<lambda>t v m. m(t := be_bytes 4 v 3, t + 1 := be_bytes 4 v 2, t + 2 := be_bytes 4 v 1, t + 3 := be_bytes 4 v 0)),
     mf_float4get = (\<lambda>m a. be_load 4 ((\<lambda>_. 0)(0 := m (a + 3), 1 := m (a + 2), 2 := m (a + 1), 3 := m a)) 0),
     mf_float8store = (\<lambda>t v m. m(t := be_bytes 8 v 7, t + 1 := be_bytes 8 v 6, t + 2 := be_bytes 8 v 5, t + 3 := be_bytes 8 v 4,
       t + 4 := be_bytes 8 v 3, t + 5 := be_bytes 8 v 2, t + 6 := be_bytes 8 v 1, t + 7 := be_bytes 8 v 0)),
     mf_float8get = (\<lambda>m a. be_load 8 ((\<lambda>_. 0)(0 := m (a + 7), 1 := m (a + 6), 2 := m (a + 5), 3 := m (a + 4),
       4 := m (a + 3), 5 := m (a + 2), 6 := m (a + 1), 7 := m a)) 0),
     mf_ushortget = (\<lambda>m a. ucast (ucast (m (a + 1)) + push_bit 8 (elem is_signed (m a)))),
     mf_shortget = (\<lambda>m a. ucast (ucast (m (a + 1)) + push_bit 8 (elem is_signed (m a)))),
     mf_longget = (\<lambda>m a. be_load 4 ((\<lambda>_. 0)(0 := m a, 1 := m (a + 1), 2 := m (a + 2), 3 := m (a + 3))) 0),
     mf_ulongget = (\<lambda>m a. be_load 4 ((\<lambda>_. 0)(0 := m a, 1 := m (a + 1), 2 := m (a + 2), 3 := m (a + 3))) 0),
     mf_shortstore = (\<lambda>t v m. let def_temp = ucast v :: 32 word
       in m(t + 1 := ucast def_temp, t := ucast (drop_bit 8 def_temp))),
     mf_longstore = (\<lambda>t v m. m(t + 3 := ucast v, t + 2 := ucast (drop_bit 8 v), t + 1 := ucast (drop_bit 16 v), t := ucast (drop_bit 24 v))),
     mf_floatget = be_load 4,
     mf_floatstore = (\<lambda>t v. be_store 4 v t),
     mf_doubleget = be_load 8,
     mf_doublestore = (\<lambda>t v. be_store 8 v t),
     mf_longlongget = be_load 8,
     mf_longlongstore = (\<lambda>t v. be_store 8 v t)\<rparr>"

text \<open>
  Doubles on hardware that stores the two halves of a double in the other order than its bytes: the
  accesses of such a machine, and its macros.
\<close>

definition bi_load :: "mem \<Rightarrow> nat \<Rightarrow> 64 word" where
  "bi_load m a = le_load 4 m (a + 4) OR push_bit 32 (le_load 4 m a)"

definition bi_store :: "nat \<Rightarrow> 64 word \<Rightarrow> mem \<Rightarrow> mem" where
  "bi_store t v m = le_store 4 v (t + 4) (le_store 4 (drop_bit 32 v) t m)"

abbreviation (input) bi_bytes :: "64 word \<Rightarrow> mem" where
  "bi_bytes v \<equiv> bi_store 0 v (\<lambda>_. 0)"

text \<open>\<open>little_endian.h\<close>; the flag says whether the hardware is of that kind.\<close>

definition little_endian_doubles :: "bool \<Rightarrow> (nat \<Rightarrow> 64 word \<Rightarrow> mem \<Rightarrow> mem) \<times> (mem \<Rightarrow> nat \<Rightarrow> 64 word)" where
  "little_endian_doubles bi_endian =
     (if bi_endian then
        ((\<lambda>t v m. m(t := bi_bytes v 4, t + 1 := bi_bytes v 5, t + 2 := bi_bytes v 6, t + 3 := bi_bytes v 7,
            t + 4 := bi_bytes v 0, t + 5 := bi_bytes v 1, t + 6 := bi_bytes v 2, t + 7 := bi_bytes v 3)),
         (\<lambda>m a. bi_load ((\<lambda>_. 0)(0 := m (a + 4), 1 := m (a + 5), 2 := m (a + 6), 3 := m (a + 7),
            4 := m a, 5 := m (a + 1), 6 := m (a + 2), 7 := m (a + 3))) 0))
      else ((\<lambda>t v. le_store 8 v t), le_load 8))"

text \<open>The x86 header's doubles, moved as two \<open>long\<close>s through a union.\<close>

definition x86_doubles :: "(nat \<Rightarrow> 64 word \<Rightarrow> mem \<Rightarrow> mem) \<times> (mem \<Rightarrow> nat \<Rightarrow> 64 word)" where
  "x86_doubles =
     ((\<lambda>t v m. let m0 = ucast v :: 32 word; m1 = ucast (drop_bit 32 v) :: 32 word
         in le_store 4 m1 (t + 4) (le_store 4 m0 t m)),
      (\<lambda>m a. let m0 = le_load 4 m a :: 32 word; m1 = le_load 4 m (a + 4) :: 32 word
         in ucast m0 OR push_bit 32 (ucast m1)))"

definition little_endian :: "byte_order \<Rightarrow> (nat \<Rightarrow> 64 word \<Rightarrow> mem \<Rightarrow> mem) \<times> (mem \<Rightarrow> nat \<Rightarrow> 64 word) \<Rightarrow> machine_format" where
  "little_endian bo doubles = (case doubles of (doublestore, doubleget) \<Rightarrow> \<lparr>
     mf_float4store = (\<lambda>t v. le_store 4 v t),
     mf_float4get = le_load 4,
     mf_float8store = doublestore,
     mf_float8get = doubleget,
     mf_ushortget = (\<lambda>m a. let pM = a in bo_uint2korr bo m pM),
     mf_shortget = (\<lambda>m a. let pM = a in bo_sint2korr bo m pM),
     mf_longget = (\<lambda>m a. let pM = a in bo_sint4korr bo m pM),
     mf_ulongget = (\<lambda>m a. let pM = a in bo_uint4korr bo m pM),
     mf_shortstore = bo_int2store bo,
     mf_longstore = bo_int4store bo,
     mf_floatget = le_load 4,
     mf_floatstore = (\<lambda>t v. le_store 4 v t),
     mf_doubleget = doubleget,
     mf_doublestore = doublestore,
     mf_longlongget = le_load 8,
     mf_longlongstore = (\<lambda>t v. le_store 8 v t)\<rparr>)"

text \<open>A machine: what it is compiled for, and what it is.\<close>

datatype machine = Little_endian platform | Bi_endian bool | Big_endian bool

fun format_of :: "machine \<Rightarrow> machine_format" where
  "format_of (Little_endian p) =
     little_endian (my_byteorder p) (if p = I386_or_Windows then x86_doubles else little_endian_doubles False)"
| "format_of (Bi_endian is_signed) = little_endian (generic_macros is_signed) (little_endian_doubles True)"
| "format_of (Big_endian is_signed) = big_endian is_signed"

text \<open>\<open>int4net\<close>: a number in network order.\<close>

definition int4net :: "mem \<Rightarrow> nat \<Rightarrow> 32 word" where
  "int4net m a = ucast (m (a + 3)) OR push_bit 8 (ucast (m (a + 2))) OR push_bit 16 (ucast (m (a + 1))) OR push_bit 24 (ucast (m a))"

lemma int4net_big_endian: "int4net = be_load 4"
  by (simp add: fun_eq_iff int4net_def eval_nat_numeral push_bit_or or.assoc)

lemma le_load_split: "le_load (n + k) m a = le_load n m a OR push_bit (8 * n) (le_load k m (a + n))"
  unfolding le_load_append by (rule plus_push_bit) (simp add: bit_le_load)

lemma load_copy: "(\<And>i. i < n \<Longrightarrow> m (a + i) = m' (b + i)) \<Longrightarrow> le_load n m a = (le_load n m' b :: 'a::len word)"
proof (induction n arbitrary: a b)
  case (Suc n)
  have "le_load n m (Suc a) = (le_load n m' (Suc b) :: 'a word)"
    using Suc.IH [of "Suc a" "Suc b"] Suc.prems [of "Suc i" for i] by simp
  with Suc.prems [of 0] show ?case by simp
qed simp

lemma be_load_copy: "(\<And>i. i < n \<Longrightarrow> m (a + i) = m' (b + i)) \<Longrightarrow> be_load n m a = be_load n m' b"
  by (induction n) auto

lemma be_load_rev: "(\<And>i. i < n \<Longrightarrow> m (a + i) = m' (b + (n - Suc i))) \<Longrightarrow> be_load n m a = (le_load n m' b :: 'a::len word)"
proof (induction n arbitrary: b)
  case (Suc n)
  have "be_load n m a = (le_load n m' (Suc b) :: 'a word)"
  proof (rule Suc.IH)
    fix i assume "i < n"
    then have "b + (Suc n - Suc i) = Suc b + (n - Suc i)" by simp
    with \<open>i < n\<close> Suc.prems [of i] show "m (a + i) = m' (Suc b + (n - Suc i))" by (simp del: diff_Suc_Suc)
  qed
  with Suc.prems [of n] show ?case by simp
qed simp

lemma less_four: "(i::nat) < 4 \<longleftrightarrow> i = 0 \<or> i = 1 \<or> i = 2 \<or> i = 3" by auto
lemma less_eight: "(i::nat) < 8 \<longleftrightarrow> i < 4 \<or> i = 4 \<or> i = 5 \<or> i = 6 \<or> i = 7" by auto

lemma bi_doubles: "little_endian_doubles True = (\<lambda>t v. le_store 8 v t, le_load 8)"
proof -
  have s: "fst (little_endian_doubles True) t v m x = le_store 8 v t m x" for t v m x
    by (simp add: little_endian_doubles_def bi_store_def) (simp add: le_store_at eval_nat_numeral drop_bit_drop_bit)
  have l: "snd (little_endian_doubles True) m a = le_load (4 + 4) m a" for m a
  proof -
    let ?d = "(\<lambda>_. 0)(0 := m (a + 4), 1 := m (a + 5), 2 := m (a + 6), 3 := m (a + 7), 4 := m a, 5 := m (a + 1), 6 := m (a + 2), 7 := m (a + 3))"
    have "le_load 4 ?d 4 = (le_load 4 m a :: 64 word)" "le_load 4 ?d 0 = (le_load 4 m (a + 4) :: 64 word)"
      by (rule load_copy, auto simp: less_four add.commute)+
    then show ?thesis unfolding le_load_split by (simp add: little_endian_doubles_def bi_load_def)
  qed
  show ?thesis using s l by (auto simp: fun_eq_iff prod_eq_iff)
qed

lemma x86_doubles_le: "x86_doubles = (\<lambda>t v. le_store 8 v t, le_load 8)"
proof -
  have s: "fst x86_doubles t v m x = le_store 8 v t m x" for t v m x
  proof -
    have "8 * (x - (t + 4)) + 32 = 8 * (x - t)" if "t + 4 \<le> x" using that by simp
    then show ?thesis by (auto simp add: x86_doubles_def store_narrow Let_def le_store_at drop_bit_drop_bit)
  qed
  have "snd x86_doubles m a = le_load (4 + 4) m a" for m a
    unfolding le_load_split by (simp add: x86_doubles_def ucast_le_load)
  with s show ?thesis by (auto simp: fun_eq_iff prod_eq_iff)
qed

lemma format_doubles:
  "mf_float8store (format_of (Little_endian p)) = (\<lambda>t v. le_store 8 v t)" "mf_float8get (format_of (Little_endian p)) = le_load 8"
  "mf_float8store (format_of (Bi_endian sg)) = (\<lambda>t v. le_store 8 v t)" "mf_float8get (format_of (Bi_endian sg)) = le_load 8"
  by (simp_all add: little_endian_def bi_doubles x86_doubles_le) (simp_all add: little_endian_doubles_def)

lemma big_endian_floats:
  "mf_float4store (big_endian sg) = (\<lambda>t v. le_store 4 v t)" "mf_float4get (big_endian sg) = le_load 4"
  "mf_float8store (big_endian sg) = (\<lambda>t v. le_store 8 v t)" "mf_float8get (big_endian sg) = le_load 8"
proof -
  show "mf_float4store (big_endian sg) = (\<lambda>t v. le_store 4 v t)" "mf_float8store (big_endian sg) = (\<lambda>t v. le_store 8 v t)"
    by (simp_all add: big_endian_def fun_eq_iff be_store_at) (simp_all add: eval_nat_numeral drop_bit_drop_bit)
  show "mf_float4get (big_endian sg) = le_load 4" "mf_float8get (big_endian sg) = le_load 8"
    unfolding fun_eq_iff big_endian_def machine_format.simps
    by (intro allI be_load_rev, auto simp: less_four less_eight add.commute)+
qed

lemma float_formats: 
  "mf_float4store (format_of c) = (\<lambda>t v. le_store 4 v t)" "mf_float4get (format_of c) = le_load 4"
  "mf_float8store (format_of c) = (\<lambda>t v. le_store 8 v t)" "mf_float8get (format_of c) = le_load 8"
  by (cases c; simp add: format_doubles big_endian_floats del: format_of.simps(1,2); simp add: little_endian_def split: prod.splits)+


text \<open>The floating-point formats are portable. A float or a double stored on any machine, whatever the order of its
  bytes and, for doubles, of their halves, is read back bit for bit on any other.\<close>

theorem floats_portable:
  "mf_float4get (format_of c) (mf_float4store (format_of d) t x m) t = x \<and>
   mf_float8get (format_of c) (mf_float8store (format_of d) t y m) t = y"
  by (simp add: float_formats load_store take_bit_word_eq_self)

text \<open>The accesses of a machine.\<close>

fun native_load :: "machine \<Rightarrow> nat \<Rightarrow> mem \<Rightarrow> nat \<Rightarrow> 'a::len word" where
  "native_load (Big_endian _) n = be_load n"
| "native_load _ n = le_load n"

fun native_store :: "machine \<Rightarrow> nat \<Rightarrow> 'a::len word \<Rightarrow> nat \<Rightarrow> mem \<Rightarrow> mem" where
  "native_store (Big_endian _) n = be_store n"
| "native_store _ n = le_store n"

lemma native_integers:
  "mf_ushortget (format_of c) = native_load c 2 \<and> mf_shortget (format_of c) = native_load c 2 \<and>
   mf_longget (format_of c) = native_load c 4 \<and> mf_ulongget (format_of c) = native_load c 4 \<and>
   mf_longlongget (format_of c) = native_load c 8 \<and>
   mf_shortstore (format_of c) t v = native_store c 2 v t \<and> mf_longstore (format_of c) t v = native_store c 4 v t \<and>
   mf_longlongstore (format_of c) t v = native_store c 8 v t"
proof (cases c)
  case (Big_endian sg)
  have "ucast (ucast (m (a + 1)) + push_bit 8 (elem sg (m a)) :: 32 word) = (be_load 2 m a :: 16 word)" for m a
  proof -
    have "ucast (ucast (m (a + 1)) + push_bit 8 (elem sg (m a)) :: 32 word) =
        (ucast (ucast (m (a + 1)) + push_bit 8 (ucast (m a)) :: 32 word) :: 16 word)"
      by (rule narrow_elem) (auto simp: bit_simps dest: bit_byte)
    also have "\<dots> = uint2korr ((\<lambda>_. 0)(0 := m (a + 1), 1 := m a)) 0" by (simp add: uint2korr_def)
    also have "\<dots> = be_load 2 m a"
      unfolding generic_loads by (rule be_load_rev [symmetric]) (auto simp: less_2_cases_iff)
    finally show ?thesis .
  qed
  moreover have "be_load 4 ((\<lambda>_. 0)(0 := m a, 1 := m (a + 1), 2 := m (a + 2), 3 := m (a + 3))) 0 = (be_load 4 m a :: 32 word)" for m :: mem and a
    by (rule be_load_copy) (auto simp: less_four)
  moreover have "ucast (drop_bit 8 (ucast v :: 32 word)) = (ucast (drop_bit 8 v) :: byte)" "ucast (ucast v :: 32 word) = (ucast v :: byte)"
    for v :: "64 word" by (auto intro!: bit_word_eqI simp: bit_simps)
  ultimately show ?thesis
    by (simp add: Big_endian big_endian_def fun_eq_iff Let_def) (simp add: eval_nat_numeral drop_bit_drop_bit)
qed (simp_all add: little_endian_def my_byteorder_generic generic_macros_def sint_loads generic_loads generic_stores split: prod.splits)

end
