(* ===== verification/Trailing_Space.thy ===== *)
theory Trailing_Space
  imports Byte_Order
begin

text \<open>
  \<open>skip_trailing_space\<close> of \<open>m_string.h\<close>: the end of a string without its trailing spaces, found a word
  at a time where the string is long enough. A read outside the string and a read of a word at an
  address that is not a multiple of its size are faults. \<open>SIZEOF_INT\<close> is the 4 of \<open>my_config.h\<close>, not the 8
  the header also provides for. Addresses are natural numbers: an object does not go round the end of the address
  space. \<open>DBUG_ASSERT(ptr >= SIZEOF_INT)\<close> is compiled to nothing in a release build; the function is right
  without it, at the lowest addresses too.
\<close>

definition SIZEOF_INT :: nat where "SIZEOF_INT = 4"
definition SPACE_INT :: "32 word" where "SPACE_INT = 0x20202020"

text \<open>\<open>end[-1]\<close> and \<open>((unsigned *) end)[-1]\<close>, for a string at the addresses from \<open>lo\<close> to below \<open>hi\<close>.\<close>

definition byte_before :: "mem \<Rightarrow> nat \<Rightarrow> nat \<Rightarrow> nat \<Rightarrow> byte res" where
  "byte_before m lo hi e = (if lo < e \<and> e \<le> hi then Inr (m (e - 1)) else Inl OutOfBounds)"

definition word_before :: "mem \<Rightarrow> nat \<Rightarrow> nat \<Rightarrow> nat \<Rightarrow> 32 word res" where
  "word_before m lo hi e =
     (if \<not> (lo + SIZEOF_INT \<le> e \<and> e \<le> hi) then Inl OutOfBounds
      else if e mod SIZEOF_INT \<noteq> 0 then Inl UndefinedBehaviour
      else Inr (le_load SIZEOF_INT m (e - SIZEOF_INT)))"

text \<open>The loops; \<open>until\<close> is the address they stop at.\<close>

function skip_bytes :: "mem \<Rightarrow> nat \<Rightarrow> nat \<Rightarrow> nat \<Rightarrow> nat \<Rightarrow> nat res" where
  "skip_bytes m lo hi until e =
     (if until < e then bind_res (byte_before m lo hi e) (\<lambda>b.
        if b = 0x20 then skip_bytes m lo hi until (e - 1) else Inr e)
      else Inr e)"
  by pat_completeness auto
termination by (relation "measure (\<lambda>(m, lo, hi, until, e). e)") auto

function skip_words :: "mem \<Rightarrow> nat \<Rightarrow> nat \<Rightarrow> nat \<Rightarrow> nat \<Rightarrow> nat res" where
  "skip_words m lo hi until e =
     (if until < e then bind_res (word_before m lo hi e) (\<lambda>w.
        if w = SPACE_INT then skip_words m lo hi until (e - SIZEOF_INT) else Inr e)
      else Inr e)"
  by pat_completeness auto
termination by (relation "measure (\<lambda>(m, lo, hi, until, e). e)") (auto simp: SIZEOF_INT_def)

declare skip_bytes.simps [simp del] skip_words.simps [simp del]

definition skip_trailing_space :: "mem \<Rightarrow> nat \<Rightarrow> nat \<Rightarrow> nat res" where
  "skip_trailing_space m ptr len =
     (let e0 = ptr + len
      in bind_res
        (if 20 < len then
           (let end_words = e0 div SIZEOF_INT * SIZEOF_INT;
                start_words = (ptr + SIZEOF_INT - 1) div SIZEOF_INT * SIZEOF_INT
            in if ptr < end_words then
                 bind_res (skip_bytes m ptr e0 end_words e0) (\<lambda>e.
                 bind_res (byte_before m ptr e0 e) (\<lambda>b.
                 if b = 0x20 \<and> start_words < end_words then skip_words m ptr e0 start_words e
                 else Inr e))
               else Inr e0)
         else Inr e0)
        (skip_bytes m ptr e0 ptr))"

text \<open>The reference: one byte after the other.\<close>

definition text_at :: "mem \<Rightarrow> nat \<Rightarrow> nat \<Rightarrow> byte list" where
  "text_at m ptr len = map m [ptr..<ptr + len]"

definition trimmed :: "byte list \<Rightarrow> byte list" where
  "trimmed s = rev (dropWhile ((=) 0x20) (rev s))"

text \<open>Everything from \<open>e\<close> to \<open>e'\<close> is space.\<close>

definition spaces :: "mem \<Rightarrow> nat \<Rightarrow> nat \<Rightarrow> bool" where
  "spaces m e e' \<longleftrightarrow> e \<le> e' \<and> (\<forall>x \<in> {e..<e'}. m x = 0x20)"

lemma spaces_refl [simp]: "spaces m e e" by (simp add: spaces_def)

lemma spaces_trans: "spaces m e1 e2 \<Longrightarrow> spaces m e2 e3 \<Longrightarrow> spaces m e1 e3"
  unfolding spaces_def by (meson atLeastLessThan_iff le_trans not_less)

lemma skip_bytes_spec:
  assumes "lo \<le> until" "until \<le> e" "e \<le> hi"
  shows "\<exists>e'. skip_bytes m lo hi until e = Inr e' \<and> until \<le> e' \<and> spaces m e' e \<and> (until < e' \<longrightarrow> m (e' - 1) \<noteq> 0x20)"
  using assms
proof (induction m lo hi until e rule: skip_bytes.induct)
  case (1 m lo hi until e)
  show ?case
  proof (cases "until < e \<and> m (e - 1) = 0x20")
    case True
    then have b: "byte_before m lo hi e = Inr 0x20" using "1.prems" by (simp add: byte_before_def)
    then obtain e' where e': "skip_bytes m lo hi until (e - 1) = Inr e'" "until \<le> e'" "spaces m e' (e - 1)"
        "until < e' \<longrightarrow> m (e' - 1) \<noteq> 0x20"
      using "1.IH" [of "0x20"] True "1.prems" by fastforce
    have "x = e - 1" if "e - 1 \<le> x" "x < e" for x using that by linarith
    then have "spaces m (e - 1) e" using True by (fastforce simp: spaces_def)
    with e' True b show ?thesis by (simp add: skip_bytes.simps [of m lo hi until e]) (blast intro: spaces_trans)
  next
    case False
    then have "skip_bytes m lo hi until e = Inr e"
      using "1.prems" by (auto simp: skip_bytes.simps [of m lo hi until e] byte_before_def)
    with False "1.prems" show ?thesis by auto
  qed
qed

lemma byte_of_load: "i < n \<Longrightarrow> 8 * n \<le> LENGTH('a) \<Longrightarrow> ucast (drop_bit (8 * i) (le_load n m a :: 'a::len word)) = m (a + i)"
  by (rule bit_word_eqI) (auto simp: bit_simps bit_le_load)

lemma word_of_spaces: "le_load 4 m a = SPACE_INT \<longleftrightarrow> spaces m a (a + 4)"
proof -
  have s: "SPACE_INT = le_load 4 (\<lambda>_. 0x20) 0" by (simp add: SPACE_INT_def le_load_sum)
  show ?thesis
  proof
    assume e: "le_load 4 m a = SPACE_INT"
    have "m (a + i) = 0x20" if "i < 4" for i
      using that byte_of_load [of i 4 m a, where 'a = 32] byte_of_load [of i 4 "\<lambda>_. 0x20" 0, where 'a = 32]
      by (simp add: e s)
    then show "spaces m a (a + 4)"
      unfolding spaces_def by (auto dest!: le_Suc_ex)
  next
    assume "spaces m a (a + 4)"
    then show "le_load 4 m a = SPACE_INT" unfolding s by (intro load_copy) (simp add: spaces_def)
  qed
qed

lemma skip_words_spec:
  assumes "lo \<le> until" "until \<le> e" "e \<le> hi" "until mod 4 = 0" "e mod 4 = 0"
  shows "\<exists>e'. skip_words m lo hi until e = Inr e' \<and> until \<le> e' \<and> spaces m e' e"
  using assms
proof (induction m lo hi until e rule: skip_words.induct)
  case (1 m lo hi until e)
  show ?case
  proof (cases "until < e")
    case True
    then have e: "until + 4 \<le> e" using "1.prems"(4,5) by presburger
    then have w: "word_before m lo hi e = Inr (le_load 4 m (e - 4))"
      using "1.prems" by (simp add: word_before_def SIZEOF_INT_def)
    show ?thesis
    proof (cases "le_load 4 m (e - 4) = SPACE_INT")
      case eq: True
      have "spaces m (e - 4) e" using word_of_spaces [of m "e - 4"] eq e by simp
      moreover have "until \<le> e - 4" "e - 4 \<le> hi" "(e - 4) mod 4 = 0" using "1.prems"(3,5) e by presburger+
      ultimately obtain e' where "skip_words m lo hi until (e - 4) = Inr e'" "until \<le> e'" "spaces m e' (e - 4)"
        using "1.IH" [of SPACE_INT] True w eq "1.prems" e
        by (auto simp: SIZEOF_INT_def le_diff_conv2 simp del: dvd_imp_mod_0)
      with True w eq spaces_trans [OF _ \<open>spaces m (e - 4) e\<close>] show ?thesis
        by (auto simp add: SIZEOF_INT_def skip_words.simps [of m lo hi until e])
    next
      case False
      with w "1.prems" show ?thesis by (simp add: skip_words.simps [of m lo hi until e])
    qed
  next
    case False
    then have "skip_words m lo hi until e = Inr e" by (simp add: skip_words.simps [of m lo hi until e])
    with "1.prems" show ?thesis by auto
  qed
qed

lemma trimmed_text:
  assumes "ptr \<le> e" "spaces m e (ptr + len)" "ptr < e \<longrightarrow> m (e - 1) \<noteq> 0x20"
  shows "ptr + length (trimmed (text_at m ptr len)) = e"
proof -
  have le: "e \<le> ptr + len" using assms(2) by (simp add: spaces_def)
  have "text_at m ptr len = map m [ptr..<e] @ map m [e..<ptr + len]"
    using assms(1) le upt_add_eq_append [of ptr e "ptr + len - e"] by (simp add: text_at_def flip: map_append)
  moreover have "dropWhile ((=) 0x20) (rev (map m [e..<ptr + len]) @ rev (map m [ptr..<e])) = dropWhile ((=) 0x20) (rev (map m [ptr..<e]))"
    using assms(2) by (intro dropWhile_append2) (auto simp: spaces_def)
  moreover have "dropWhile ((=) 0x20) (rev (map m [ptr..<e])) = rev (map m [ptr..<e])"
  proof (cases "ptr < e")
    case True
    then have "[ptr..<e] = [ptr..<e - 1] @ [e - 1]" by (metis Suc_diff_1 less_imp_Suc_add less_Suc_eq_le upt_Suc_append zero_less_Suc)
    with True assms(3) show ?thesis by simp
  qed simp
  ultimately show ?thesis using assms(1) by (simp add: trimmed_def)
qed

text \<open>C33: the word-at-a-time search is safe and right. For every string and every alignment,
  \<open>skip_trailing_space\<close> returns, without a read outside the string and without an unaligned word, and what
  it returns is the end of the string without its trailing spaces.\<close>

theorem skip_trailing_space_trims:
  "skip_trailing_space m ptr len = Inr (ptr + length (trimmed (text_at m ptr len)))"
proof -
  let ?e0 = "ptr + len"
  define ew where "ew = ?e0 div SIZEOF_INT * SIZEOF_INT"
  define sw where "sw = (ptr + SIZEOF_INT - 1) div SIZEOF_INT * SIZEOF_INT"
  have finish: "bind_res (Inr e) (skip_bytes m ptr ?e0 ptr) = Inr (ptr + length (trimmed (text_at m ptr len)))"
    if le: "ptr \<le> e" and sp: "spaces m e ?e0" for e
  proof -
    have "e \<le> ?e0" using sp by (simp add: spaces_def)
    then obtain e' where e': "skip_bytes m ptr ?e0 ptr e = Inr e'" "ptr \<le> e'" "spaces m e' e" "ptr < e' \<longrightarrow> m (e' - 1) \<noteq> 0x20"
      using skip_bytes_spec [of ptr ptr e ?e0 m] le by auto
    with trimmed_text [of ptr e' m len] spaces_trans [OF e'(3) sp] show ?thesis by simp
  qed
  show ?thesis
  proof (cases "20 < len \<and> ptr < ew")
    case False
    then show ?thesis using finish [of ?e0] by (auto simp: skip_trailing_space_def Let_def ew_def)
  next
    case True
    have sw: "ptr \<le> sw" "sw mod 4 = 0" "ew mod 4 = 0" "ew \<le> ?e0" unfolding sw_def ew_def SIZEOF_INT_def by presburger+
    obtain e where e: "skip_bytes m ptr ?e0 ew ?e0 = Inr e" "ew \<le> e" "spaces m e ?e0" "ew < e \<longrightarrow> m (e - 1) \<noteq> 0x20"
      using skip_bytes_spec [of ptr ew ?e0 ?e0 m] True sw by auto
    have b: "byte_before m ptr ?e0 e = Inr (m (e - 1))" using e(2,3) True by (auto simp: byte_before_def spaces_def)
    show ?thesis
    proof (cases "m (e - 1) = 0x20 \<and> sw < ew")
      case words: True
      then have "e = ew" using e by auto
      then obtain e' where e': "skip_words m ptr ?e0 sw e = Inr e'" "sw \<le> e'" "spaces m e' e"
        using skip_words_spec [of ptr sw ew ?e0 m] sw words by auto
      with finish [of e'] spaces_trans [OF e'(3) e(3)] sw words True e b show ?thesis
        unfolding skip_trailing_space_def Let_def ew_def [symmetric] sw_def [symmetric] by simp
    next
      case False
      with finish [of e] True e b show ?thesis
        unfolding skip_trailing_space_def Let_def ew_def [symmetric] sw_def [symmetric] by auto
    qed
  qed
qed

end
