(* ===== verification/Psi.thy ===== *)
theory Psi
  imports Prelude
begin

text \<open>
  The interface to the server's instrumentation (\<open>mysql/psi/psi.h\<close>) as the client's headers call it, and what
  their wrappers share. The instrumentation itself is a table of function pointers the headers do not define: it is a
  parameter, the pointer it answers to its last call as a function of the whole history of calls, so
  that it may hand out or refuse handles as it likes. What it is told is the history.
\<close>

section \<open>What can be instrumented\<close>

datatype PSI_mutex_operation = PSI_MUTEX_LOCK | PSI_MUTEX_TRYLOCK

datatype PSI_rwlock_operation = PSI_RWLOCK_READLOCK | PSI_RWLOCK_WRITELOCK | PSI_RWLOCK_TRYREADLOCK | PSI_RWLOCK_TRYWRITELOCK

datatype PSI_cond_operation = PSI_COND_WAIT | PSI_COND_TIMEDWAIT

datatype (plugins only: ) PSI_file_operation = PSI_FILE_CREATE | PSI_FILE_CREATE_TMP | PSI_FILE_OPEN | PSI_FILE_STREAM_OPEN
  | PSI_FILE_CLOSE | PSI_FILE_STREAM_CLOSE | PSI_FILE_READ | PSI_FILE_WRITE | PSI_FILE_SEEK | PSI_FILE_TELL
  | PSI_FILE_FLUSH | PSI_FILE_STAT | PSI_FILE_FSTAT | PSI_FILE_CHSIZE | PSI_FILE_DELETE | PSI_FILE_RENAME | PSI_FILE_SYNC

datatype PSI_table_io_operation = PSI_TABLE_FETCH_ROW | PSI_TABLE_WRITE_ROW | PSI_TABLE_UPDATE_ROW | PSI_TABLE_DELETE_ROW

datatype PSI_table_lock_operation = PSI_TABLE_LOCK | PSI_TABLE_EXTERNAL_LOCK

datatype PSI_socket_state = PSI_SOCKET_STATE_IDLE | PSI_SOCKET_STATE_ACTIVE

datatype (plugins only: ) PSI_socket_operation = PSI_SOCKET_CREATE | PSI_SOCKET_CONNECT | PSI_SOCKET_BIND | PSI_SOCKET_CLOSE
  | PSI_SOCKET_SEND | PSI_SOCKET_RECV | PSI_SOCKET_SENDTO | PSI_SOCKET_RECVFROM | PSI_SOCKET_SENDMSG | PSI_SOCKET_RECVMSG
  | PSI_SOCKET_SEEK | PSI_SOCKET_OPT | PSI_SOCKET_STAT | PSI_SOCKET_SHUTDOWN | PSI_SOCKET_SELECT

section \<open>The calls\<close>

text \<open>Pointers are numbers, the null pointer is \<open>None\<close>; where the identity of a named file is asked for, \<open>None\<close> is
  the address of a local variable. A place in the source is a file and a line.\<close>

type_synonym ptr = "nat option"
type_synonym src = "string \<times> nat"
type_synonym size_t = "64 word"

datatype instrument = Mutexes | Rwlocks | Conds | Threads | Files | Stages | Statements | Sockets

datatype register_call = Register instrument string int

datatype object_call =
    Init_mutex nat nat | Destroy_mutex nat
  | Init_rwlock nat nat | Destroy_rwlock nat
  | Init_cond nat nat | Destroy_cond nat
  | Init_socket nat "64 word" "nat option" int | Destroy_socket nat

datatype file_locker_call =
    Get_thread_file_name_locker nat PSI_file_operation string ptr
  | Get_thread_file_stream_locker ptr PSI_file_operation
  | Get_thread_file_descriptor_locker "32 word" PSI_file_operation

datatype notify_call = Unlock_mutex nat | Unlock_rwlock nat | Signal_cond nat | Broadcast_cond nat

datatype wait_call =
    Start_mutex_wait nat PSI_mutex_operation src | End_mutex_wait nat "32 word"
  | Start_rwlock_rdwait nat PSI_rwlock_operation src | End_rwlock_rdwait nat "32 word"
  | Start_rwlock_wrwait nat PSI_rwlock_operation src | End_rwlock_wrwait nat "32 word"
  | Start_cond_wait nat ptr PSI_cond_operation src | End_cond_wait nat "32 word"

datatype file_wait_call =
    Start_file_open_wait nat src | End_file_open_wait nat ptr
  | End_file_open_wait_and_bind_to_descriptor nat "32 word"
  | Start_file_wait nat size_t src | End_file_wait nat size_t
  | Start_file_close_wait nat src | End_file_close_wait nat "32 word"

datatype socket_call =
    Start_socket_wait nat PSI_socket_operation size_t src | End_socket_wait nat size_t
  | Set_socket_state nat PSI_socket_state
  | Set_socket_info nat "nat option" int
  | Set_socket_thread_owner nat

datatype thread_call = Get_thread | Set_thread_id ptr nat

text \<open>Texts, character sets, digests and diagnostics areas are passed on by their address.\<close>

datatype (plugins only: ) statement_call =
    Get_thread_statement_locker nat ptr | Refine_statement nat nat | Start_statement nat ptr "32 word" src
  | Set_statement_text nat ptr "32 word" | Set_statement_lock_time nat "64 word"
  | Set_statement_rows_sent nat "64 word" | Set_statement_rows_examined nat "64 word"
  | End_statement nat ptr

datatype digest_call = Digest_start nat | Digest_end nat ptr

datatype stage_call = Start_stage nat src | End_stage

datatype table_call =
    Start_table_io_wait nat PSI_table_io_operation "32 word" src | End_table_io_wait nat
  | Start_table_lock_wait nat PSI_table_lock_operation "64 word" src | End_table_lock_wait nat

datatype idle_call = Start_idle_wait src | End_idle_wait nat

datatype psi_call =
    Registering register_call | Object object_call | Locating file_locker_call | Notifying notify_call
  | Waiting wait_call | File_waiting file_wait_call | Socketing socket_call | Threading thread_call
  | Stating statement_call | Digesting digest_call | Staging stage_call | Tabling table_call | Idling idle_call
  | Create_file nat string "32 word"

text \<open>What happens, in order: calls of the instrumentation and calls of what is underneath.\<close>

datatype 'c event = Psi psi_call | Sys 'c

text \<open>
  How the headers are compiled: whether the interface is there, the instrumentation, and the functions underneath, by
  the type of what they return.
\<close>

record ('c, 'w) build =
  have_psi :: bool
  service :: "'c event list \<Rightarrow> ptr"
  low_int :: "'c \<Rightarrow> 'w \<Rightarrow> 32 word \<times> 'w"
  low_size :: "'c \<Rightarrow> 'w \<Rightarrow> size_t \<times> 'w"
  low_ptr :: "'c \<Rightarrow> 'w \<Rightarrow> ptr \<times> 'w"
  low_text :: "'c \<Rightarrow> 'w \<Rightarrow> string option \<times> 'w"

text \<open>The state: what is underneath, the structures the headers themselves read and write, the history.\<close>

record ('c, 'w, 'o) sys =
  os :: 'w
  objs :: 'o
  trace :: "'c event list"

section \<open>Computations\<close>

type_synonym ('c, 'w, 'o, 'a) cmd = "('c, 'w, 'o) sys \<Rightarrow> ('a \<times> ('c, 'w, 'o) sys) res"

definition ret :: "'a \<Rightarrow> ('c, 'w, 'o, 'a) cmd" where
  "ret a = (\<lambda>s. Inr (a, s))"

definition bind :: "('c, 'w, 'o, 'a) cmd \<Rightarrow> ('a \<Rightarrow> ('c, 'w, 'o, 'b) cmd) \<Rightarrow> ('c, 'w, 'o, 'b) cmd" where
  "bind m f = (\<lambda>s. bind_res (m s) (\<lambda>(a, s'). f a s'))"

definition stop :: "fault \<Rightarrow> ('c, 'w, 'o, 'a) cmd" where
  "stop e = (\<lambda>s. Inl e)"

text \<open>A call of the instrumentation whose answer matters, one whose answer does not, a call underneath.\<close>

definition ask :: "('c, 'w) build \<Rightarrow> psi_call \<Rightarrow> ('c, 'w, 'o, ptr) cmd" where
  "ask B c = (\<lambda>s. let t = trace s @ [Psi c] in Inr (service B t, s\<lparr>trace := t\<rparr>))"

definition tell :: "psi_call \<Rightarrow> ('c, 'w, 'o, unit) cmd" where
  "tell c = (\<lambda>s. Inr ((), s\<lparr>trace := trace s @ [Psi c]\<rparr>))"

definition sys_call :: "('c \<Rightarrow> 'w \<Rightarrow> 'a \<times> 'w) \<Rightarrow> 'c \<Rightarrow> ('c, 'w, 'o, 'a) cmd" where
  "sys_call f c = (\<lambda>s. case f c (os s) of (a, w) \<Rightarrow> Inr (a, s\<lparr>os := w, trace := trace s @ [Sys c]\<rparr>))"

text \<open>The headers' structures, read and written.\<close>

definition look :: "('c, 'w, 'o, 'o) cmd" where
  "look = (\<lambda>s. Inr (objs s, s))"

definition put :: "('o \<Rightarrow> 'o) \<Rightarrow> ('c, 'w, 'o, unit) cmd" where
  "put f = (\<lambda>s. Inr ((), s\<lparr>objs := f (objs s)\<rparr>))"

text \<open>What a pointer points to underneath is read.\<close>

definition with_os :: "('w \<Rightarrow> ('c, 'w, 'o, 'a) cmd) \<Rightarrow> ('c, 'w, 'o, 'a) cmd" where
  "with_os f = (\<lambda>s. f (os s) s)"

text \<open>\<open>if (p != NULL)\<close> around a call of the instrumentation.\<close>

definition tell_if :: "bool \<Rightarrow> ptr \<Rightarrow> (nat \<Rightarrow> psi_call) \<Rightarrow> ('c, 'w, 'o, unit) cmd" where
  "tell_if b p c = (case p of Some l \<Rightarrow> if b then tell (c l) else ret () | None \<Rightarrow> ret ())"

lemmas cmd_defs = ret_def bind_def stop_def ask_def tell_def sys_call_def look_def put_def tell_if_def

lemma run_cmd:
  "ret a s = Inr (a, s)" "stop e s = Inl e" "look s = Inr (objs s, s)" "put g s = Inr ((), s\<lparr>objs := g (objs s)\<rparr>)"
  "tell c s = Inr ((), s\<lparr>trace := trace s @ [Psi c]\<rparr>)"
  "ask B c s = Inr (service B (trace s @ [Psi c]), s\<lparr>trace := trace s @ [Psi c]\<rparr>)"
  "sys_call f d s = Inr (fst (f d (os s)), s\<lparr>os := snd (f d (os s)), trace := trace s @ [Sys d]\<rparr>)"
  "bind m k s = bind_res (m s) (\<lambda>(a, s'). k a s')"
  by (simp_all add: cmd_defs Let_def split: prod.split)

lemma tell_if_None [simp]: "tell_if b None c = ret ()"
  by (simp add: tell_if_def)

section \<open>Hiding the instrumentation\<close>

text \<open>
  The same headers compiled without it; the state as such a build has it, with what only the instrumentation
  writes erased from the structures and the history; a computation that, so hidden, is another.
\<close>

definition plain :: "('c, 'w) build \<Rightarrow> ('c, 'w) build" where
  "plain B = B\<lparr>have_psi := False\<rparr>"

fun is_sys :: "'c event \<Rightarrow> bool" where
  "is_sys (Sys _) = True"
| "is_sys (Psi _) = False"

definition hide :: "('o \<Rightarrow> 'o) \<Rightarrow> ('c, 'w, 'o) sys \<Rightarrow> ('c, 'w, 'o) sys" where
  "hide e s = s\<lparr>objs := e (objs s), trace := filter is_sys (trace s)\<rparr>"

definition hides :: "('o \<Rightarrow> 'o) \<Rightarrow> ('c, 'w, 'o, 'a) cmd \<Rightarrow> ('c, 'w, 'o, 'a) cmd \<Rightarrow> bool" where
  "hides e m m' \<longleftrightarrow> (\<forall>s. m' (hide e s) = bind_res (m s) (\<lambda>(a, s'). Inr (a, hide e s')))"

named_theorems hides_intros \<open>composing computations under hiding\<close>

lemma plain_build_simps [simp]:
  "\<not> have_psi (plain B)" "low_int (plain B) = low_int B" "low_size (plain B) = low_size B"
  "low_ptr (plain B) = low_ptr B" "low_text (plain B) = low_text B"
  by (simp_all add: plain_def)

lemma hides_ret [hides_intros]: "hides e (ret a) (ret a)"
  by (simp add: hides_def ret_def)

lemma hides_stop [hides_intros]: "hides e (stop f) (stop f)"
  by (simp add: hides_def stop_def)

lemma hides_sys_call [hides_intros]: "hides e (sys_call f c) (sys_call f c)"
  by (simp add: hides_def sys_call_def hide_def split: prod.splits)

lemma hides_bind: "hides e m m' \<Longrightarrow> (\<And>a. hides e (f a) (f' a)) \<Longrightarrow> hides e (bind m f) (bind m' f')"
  unfolding hides_def bind_def by (auto simp: bind_res_def split: sum.splits)

lemma hide_psi: "hide e (s\<lparr>trace := trace s @ [Psi c]\<rparr>) = hide e s"
  by (simp add: hide_def)

lemma hidesD: "hides e m m' \<Longrightarrow> m' (hide e s) = bind_res (m s) (\<lambda>(a, s'). Inr (a, hide e s'))"
  by (simp add: hides_def)

lemma hides_ask [hides_intros]:
  fixes f :: "ptr \<Rightarrow> ('c, 'w, 'o, 'a) cmd"
  shows "(\<And>p. hides e (f p) m') \<Longrightarrow> hides e (bind (ask B c) f) m'"
  unfolding hides_def
proof
  fix s :: "('c, 'w, 'o) sys"
  assume h: "\<And>p. \<forall>s. m' (hide e s) = bind_res (f p s) (\<lambda>(a, s'). Inr (a, hide e s'))"
  let ?t = "trace s @ [Psi c]"
  show "m' (hide e s) = bind_res (bind (ask B c) f s) (\<lambda>(a, s'). Inr (a, hide e s'))"
    using h [of "service B ?t", rule_format, of "s\<lparr>trace := ?t\<rparr>"] by (simp add: hide_psi bind_def ask_def Let_def)
qed

lemma hides_tell [hides_intros]:
  fixes f :: "unit \<Rightarrow> ('c, 'w, 'o, 'a) cmd"
  shows "hides e (f ()) m' \<Longrightarrow> hides e (bind (tell c) f) m'"
  unfolding hides_def
proof
  fix s :: "('c, 'w, 'o) sys"
  assume h: "\<forall>s. m' (hide e s) = bind_res (f () s) (\<lambda>(a, s'). Inr (a, hide e s'))"
  show "m' (hide e s) = bind_res (bind (tell c) f s) (\<lambda>(a, s'). Inr (a, hide e s'))"
    using h [rule_format, of "s\<lparr>trace := trace s @ [Psi c]\<rparr>"] by (simp add: hide_psi bind_def tell_def)
qed

lemma bind_ret [simp]: "bind (ret a) f = f a"
  by (simp add: bind_def ret_def)

lemma bind_assoc [simp]: "bind (bind m f) g = bind m (\<lambda>a. bind (f a) g)"
  by (auto simp: bind_def bind_res_def fun_eq_iff split: sum.splits prod.splits)

lemma hides_tell_if [hides_intros]: "hides e (f ()) m' \<Longrightarrow> hides e (bind (tell_if b p c) f) m'"
  by (cases p) (auto simp: tell_if_def intro: hides_tell)

lemma bind_ret_right [simp]: "bind m ret = m"
  by (auto simp: bind_def ret_def bind_res_def fun_eq_iff split: sum.splits prod.splits)

lemma bind_stop [simp]: "bind (stop f) k = stop f"
  by (simp add: bind_def stop_def)

lemma bind_with_os: "bind (with_os f) g = with_os (\<lambda>w. bind (f w) g)"
  by (simp add: bind_def with_os_def)

lemma hides_finish: "hides e m m' \<Longrightarrow> (\<And>a. hides e (f a) (ret a)) \<Longrightarrow> hides e (bind m f) m'"
  using hides_bind [of e m m' f ret] by simp

lemma hides_drop: "hides e m (ret ()) \<Longrightarrow> hides e (f ()) m' \<Longrightarrow> hides e (bind m f) m'"
  using hides_bind [of e m "ret ()" f "\<lambda>_. m'"] by simp

lemmas hides_bind_sys_call [hides_intros] = hides_bind [OF hides_sys_call]

lemma hides_look [hides_intros]: "(\<And>x. hides e (f x) (f' (e x))) \<Longrightarrow> hides e (bind look f) (bind look f')"
  unfolding hides_def bind_def look_def by (simp add: hide_def)

lemma hides_put [hides_intros]: "(\<And>x. e (g x) = g' (e x)) \<Longrightarrow> hides e (put g) (put g')"
  unfolding hides_def put_def by (simp add: hide_def)

lemmas hides_bind_put [hides_intros] = hides_bind [OF hides_put]

lemma hides_with_os [hides_intros]: "(\<And>w. hides e (f w) (f' w)) \<Longrightarrow> hides e (with_os f) (with_os f')"
  by (simp add: hides_def with_os_def) (simp add: hide_def)

section \<open>The protocol\<close>

text \<open>
  What an instrumentation may rely on: a handle it gives out is started, has exactly one call timed and is
  ended, in this order, before the next is asked for; nothing is reported for a handle it refused.
\<close>

datatype role = Locates | Opens | Begins nat | Ends nat | Notes

fun role_of :: "psi_call \<Rightarrow> role" where
  "role_of (Locating _) = Locates"
| "role_of (Waiting (Start_mutex_wait _ _ _)) = Opens"
| "role_of (Waiting (Start_rwlock_rdwait _ _ _)) = Opens"
| "role_of (Waiting (Start_rwlock_wrwait _ _ _)) = Opens"
| "role_of (Waiting (Start_cond_wait _ _ _ _)) = Opens"
| "role_of (Waiting (End_mutex_wait l _)) = Ends l"
| "role_of (Waiting (End_rwlock_rdwait l _)) = Ends l"
| "role_of (Waiting (End_rwlock_wrwait l _)) = Ends l"
| "role_of (Waiting (End_cond_wait l _)) = Ends l"
| "role_of (File_waiting (Start_file_open_wait l _)) = Begins l"
| "role_of (File_waiting (Start_file_wait l _ _)) = Begins l"
| "role_of (File_waiting (Start_file_close_wait l _)) = Begins l"
| "role_of (File_waiting (End_file_open_wait l _)) = Ends l"
| "role_of (File_waiting (End_file_open_wait_and_bind_to_descriptor l _)) = Ends l"
| "role_of (File_waiting (End_file_wait l _)) = Ends l"
| "role_of (File_waiting (End_file_close_wait l _)) = Ends l"
| "role_of (Socketing (Start_socket_wait _ _ _ _)) = Opens"
| "role_of (Socketing (End_socket_wait l _)) = Ends l"
| "role_of _ = Notes"

datatype phase = Idle | Located nat | Started nat | Called nat

fun role_step :: "ptr \<Rightarrow> phase \<Rightarrow> role \<Rightarrow> phase option" where
  "role_step answer Idle Locates = Some (case answer of None \<Rightarrow> Idle | Some l \<Rightarrow> Located l)"
| "role_step answer Idle Opens = Some (case answer of None \<Rightarrow> Idle | Some l \<Rightarrow> Started l)"
| "role_step answer (Located l) (Begins k) = (if k = l then Some (Started l) else None)"
| "role_step answer (Called l) (Ends k) = (if k = l then Some Idle else None)"
| "role_step answer Idle Notes = Some Idle"
| "role_step answer (Called l) Notes = Some (Called l)"
| "role_step answer _ _ = None"

fun call_step :: "phase \<Rightarrow> phase option" where
  "call_step Idle = Some Idle"
| "call_step (Started l) = Some (Called l)"
| "call_step _ = None"

text \<open>The phase after a history, given with its last event first; \<open>None\<close> when the protocol is broken.\<close>

fun phase_rev :: "('c event list \<Rightarrow> ptr) \<Rightarrow> 'c event list \<Rightarrow> phase option" where
  "phase_rev psi [] = Some Idle"
| "phase_rev psi (e # past) =
     (case phase_rev psi past of
        None \<Rightarrow> None
      | Some p \<Rightarrow> (case e of Sys _ \<Rightarrow> call_step p | Psi c \<Rightarrow> role_step (psi (rev (e # past))) p (role_of c)))"

definition phase_after :: "('c event list \<Rightarrow> ptr) \<Rightarrow> 'c event list \<Rightarrow> phase option" where
  "phase_after psi t = phase_rev psi (rev t)"

definition moves :: "('c, 'w) build \<Rightarrow> phase \<Rightarrow> ('c, 'w, 'o, 'a) cmd \<Rightarrow> phase \<Rightarrow> bool" where
  "moves B p m q \<longleftrightarrow> (\<forall>s a s'. phase_after (service B) (trace s) = Some p \<longrightarrow> m s = Inr (a, s') \<longrightarrow>
     phase_after (service B) (trace s') = Some q)"

named_theorems moves_intros \<open>composing computations under the protocol\<close>

lemma moves_ret [moves_intros]: "moves B p (ret a) p"
  by (simp add: moves_def ret_def)

lemma moves_stop [moves_intros]: "moves B p (stop f) q"
  by (simp add: moves_def stop_def)

lemma moves_look [moves_intros]: "moves B p look p"
  by (auto simp: moves_def look_def)

lemma moves_put [moves_intros]: "moves B p (put f) p"
  by (auto simp: moves_def put_def)

lemma moves_bind [moves_intros]:
  fixes m :: "('c, 'w, 'o, 'a) cmd" and f :: "'a \<Rightarrow> ('c, 'w, 'o, 'b) cmd"
  assumes m: "moves B p m r" and f: "\<And>a. moves B r (f a) q"
  shows "moves B p (bind m f) q"
  unfolding moves_def [of B p "bind m f"]
proof (intro allI impI)
  fix s :: "('c, 'w, 'o) sys" and y s'
  assume p: "phase_after (service B) (trace s) = Some p" and y: "bind m f s = Inr (y, s')"
  then obtain a u where "m s = Inr (a, u)" "f a u = Inr (y, s')" by (auto simp: bind_def elim: bind_resE)
  with m f p show "phase_after (service B) (trace s') = Some q" unfolding moves_def by blast
qed

lemma moves_sys_call [moves_intros]: "call_step p = Some q \<Longrightarrow> moves B p (sys_call f c) q"
  by (auto simp: moves_def sys_call_def phase_after_def split: prod.splits)

lemma moves_tell [moves_intros]: "(\<And>a. role_step a p (role_of c) = Some q) \<Longrightarrow> moves B p (tell c) q"
  by (auto simp: moves_def tell_def phase_after_def)

lemma moves_with_os [moves_intros]: "(\<And>w. moves B p (f w) q) \<Longrightarrow> moves B p (with_os f) q"
  unfolding moves_def with_os_def by blast

lemma moves_ask:
  fixes f :: "ptr \<Rightarrow> ('c, 'w, 'o, 'a) cmd"
  assumes "\<And>a. \<exists>r. role_step a p (role_of c) = Some r \<and> moves B r (f a) q"
  shows "moves B p (bind (ask B c) f) q"
  unfolding moves_def bind_def ask_def
proof (intro allI impI)
  fix s :: "('c, 'w, 'o) sys" and x s'
  let ?t = "trace s @ [Psi c]"
  assume p: "phase_after (service B) (trace s) = Some p"
    and r: "bind_res (let t = trace s @ [Psi c] in Inr (service B t, s\<lparr>trace := t\<rparr>)) (\<lambda>(a, s'). f a s') = Inr (x, s')"
  obtain r where r': "role_step (service B ?t) p (role_of c) = Some r" "moves B r (f (service B ?t)) q" using assms by blast
  have "phase_after (service B) ?t = Some r" using p r'(1) by (simp add: phase_after_def)
  with r r'(2) [unfolded moves_def, rule_format, of "s\<lparr>trace := ?t\<rparr>" x s']
  show "phase_after (service B) (trace s') = Some q" by (simp add: Let_def)
qed

lemma moves_tell_if [moves_intros]: "(\<And>l a. role_step a p (role_of (c l)) = Some p) \<Longrightarrow> moves B p (tell_if b x c) p"
  by (auto simp: tell_if_def split: option.splits intro: moves_ret moves_tell)

section \<open>Any sequence of requests\<close>

text \<open>What the file, thread and socket wrappers have in common.\<close>

locale instrumentation =
  fixes step :: "('c, 'w) build \<Rightarrow> 'r \<Rightarrow> ('c, 'w, 'o, 'a) cmd"
    and erase :: "'o \<Rightarrow> 'o"
  assumes step_hides: "hides erase (step B r) (step (plain B) r)"
    and step_moves: "moves B Idle (step B r) Idle"
begin

fun run :: "('c, 'w) build \<Rightarrow> 'r list \<Rightarrow> ('c, 'w, 'o, 'a list) cmd" where
  "run B [] = ret []"
| "run B (r # rs) = bind (step B r) (\<lambda>a. bind (run B rs) (\<lambda>as. ret (a # as)))"

lemma run_hides: "hides erase (run B rs) (run (plain B) rs)"
  by (induction rs) (auto intro!: hides_bind hides_ret step_hides)

lemma run_moves: "moves B Idle (run B rs) Idle"
  by (induction rs) (auto intro!: moves_intros step_moves)

text \<open>Both laws, from a state in which nothing has happened.\<close>

lemma run_contract:
  "run (plain B) rs \<lparr>os = w, objs = erase x, trace = []\<rparr> =
     bind_res (run B rs \<lparr>os = w, objs = x, trace = []\<rparr>) (\<lambda>(replies, s'). Inr (replies, hide erase s')) \<and>
   (case run B rs \<lparr>os = w, objs = x, trace = []\<rparr> of
      Inl e \<Rightarrow> True
    | Inr (replies, s') \<Rightarrow> phase_after (service B) (trace s') = Some Idle)"
proof
  let ?s = "\<lparr>os = w, objs = x, trace = []\<rparr>"
  show "run (plain B) rs \<lparr>os = w, objs = erase x, trace = []\<rparr> =
      bind_res (run B rs ?s) (\<lambda>(replies, s'). Inr (replies, hide erase s'))"
    using hidesD [OF run_hides, of B rs ?s] by (simp add: hide_def)
  show "case run B rs ?s of Inl e \<Rightarrow> True | Inr (replies, s') \<Rightarrow> phase_after (service B) (trace s') = Some Idle"
  proof (cases "run B rs ?s")
    case (Inr r)
    then show ?thesis
      using run_moves [of B rs, unfolded moves_def, rule_format, of ?s "fst r" "snd r"]
      by (auto simp: phase_after_def split: prod.split)
  qed simp
qed

end

text \<open>The protocol is not kept by a history that times no call, ends a handle twice, or leaves one open.\<close>

lemma protocol_examples:
  fixes l :: nat and src :: src
  defines "psi \<equiv> \<lambda>t :: nat event list. Some l" and "get \<equiv> Psi (Locating (Get_thread_file_stream_locker None PSI_FILE_READ))"
    and "start \<equiv> Psi (File_waiting (Start_file_wait l 1 src))" and "done \<equiv> Psi (File_waiting (End_file_wait l 1))"
  shows "phase_after psi [get, start, Sys 0, done] = Some Idle" "phase_after psi [get, start, done] = None"
    "phase_after psi [get, start, Sys 0, done, done] = None" "phase_after psi [get, start, Sys 0] = Some (Called l)"
    "phase_after psi [get, Sys 0] = None"
  by (simp_all add: assms phase_after_def)

end
