(* ===== verification/Psi_File.thy ===== *)
theory Psi_File
  imports Psi
begin

text \<open>
  The instrumented files of \<open>mysql/psi/mysql_file.h\<close>. Each wrapper asks the instrumentation for a handle, by
  stream, descriptor or name, and with one reports the start, makes the call and reports the end; without
  one, or compiled without the interface, it makes the call alone. An instrumented stream is a structure
  of the header's own, allocated by \<open>mysql_file_fopen\<close> and freed by \<open>mysql_file_fclose\<close>.
\<close>

section \<open>What is underneath\<close>

type_synonym myf = "32 word"

text \<open>
  The functions of the C library and of the server's own that the wrappers replace, with their arguments; buffers are
  addresses. A descriptor is a 32-bit number, an offset a 64-bit one.
\<close>

datatype (plugins only: ) file_call =
    C_fgets ptr "32 word" ptr | C_fgetc ptr | C_fputs "string option" ptr | C_fputc char ptr
  | C_vfprintf ptr string "string list" | C_fflush ptr | C_feof ptr
  | C_my_fstat "32 word" ptr myf | C_my_stat string ptr myf | C_my_chsize "32 word" "64 word" "32 word" myf
  | C_my_malloc myf | C_my_free nat | C_my_fopen string "32 word" myf | C_my_fclose ptr myf
  | C_my_fread ptr ptr size_t myf | C_my_fwrite ptr ptr size_t myf
  | C_my_fseek ptr "64 word" "32 word" myf | C_my_ftell ptr myf
  | C_my_create string "32 word" "32 word" myf | C_create_temp_file ptr string string "32 word" myf
  | C_my_open string "32 word" myf | C_my_close "32 word" myf
  | C_my_read "32 word" ptr size_t myf | C_my_write "32 word" ptr size_t myf
  | C_my_pread "32 word" ptr size_t "64 word" myf | C_my_pwrite "32 word" ptr size_t "64 word" myf
  | C_my_seek "32 word" "64 word" "32 word" myf | C_my_tell "32 word" myf
  | C_my_delete string myf | C_my_rename string string myf
  | C_my_create_with_symlink string string "32 word" "32 word" myf
  | C_my_delete_with_symlink string myf | C_my_rename_with_symlink string string myf
  | C_my_sync "32 word" myf

definition MY_FNABP :: myf where "MY_FNABP = 2"
definition MY_NABP :: myf where "MY_NABP = 4"
definition MY_WME :: myf where "MY_WME = 16"
definition MY_FILE_ERROR :: size_t where "MY_FILE_ERROR = - 1"

record MYSQL_FILE =
  m_file :: ptr
  m_psi :: ptr

type_synonym streams = "nat \<Rightarrow> MYSQL_FILE option"
type_synonym ('w, 'a) file_cmd = "(file_call, 'w, streams, 'a) cmd"
type_synonym 'w file_build = "(file_call, 'w) build"

definition stream :: "ptr \<Rightarrow> ('w, MYSQL_FILE) file_cmd" where
  "stream file =
     (case file of
        None \<Rightarrow> stop NullDeref
      | Some a \<Rightarrow> bind look (\<lambda>h. case h a of None \<Rightarrow> stop UndefinedBehaviour | Some f \<Rightarrow> ret f))"

section \<open>Frames\<close>

text \<open>The three ways to a handle, and the two kinds of a timed call.\<close>

definition locate :: "'w file_build \<Rightarrow> file_locker_call \<Rightarrow> (ptr \<Rightarrow> ('w, 'a) file_cmd) \<Rightarrow> ('w, 'a) file_cmd" where
  "locate B c f = (if have_psi B then bind (ask B (Locating c)) f else f None)"

definition file_wait :: "ptr \<Rightarrow> size_t \<Rightarrow> src \<Rightarrow> ('w, 'a) file_cmd \<Rightarrow> ('a \<Rightarrow> size_t) \<Rightarrow> ('w, 'a) file_cmd" where
  "file_wait locker nbytes src call used =
     (case locker of
        None \<Rightarrow> call
      | Some l \<Rightarrow>
          bind (tell (File_waiting (Start_file_wait l nbytes src))) (\<lambda>_.
          bind call (\<lambda>result.
          bind (tell (File_waiting (End_file_wait l (used result)))) (\<lambda>_.
          ret result))))"

definition file_close_wait :: "ptr \<Rightarrow> src \<Rightarrow> ('w, 32 word) file_cmd \<Rightarrow> ('w, 32 word) file_cmd" where
  "file_close_wait locker src call =
     (case locker of
        None \<Rightarrow> call
      | Some l \<Rightarrow>
          bind (tell (File_waiting (Start_file_close_wait l src))) (\<lambda>_.
          bind call (\<lambda>result.
          bind (tell (File_waiting (End_file_close_wait l result))) (\<lambda>_.
          ret result))))"

definition file_open_wait :: "ptr \<Rightarrow> src \<Rightarrow> ('w, 32 word) file_cmd \<Rightarrow> ('w, 32 word) file_cmd" where
  "file_open_wait locker src call =
     (case locker of
        None \<Rightarrow> call
      | Some l \<Rightarrow>
          bind (tell (File_waiting (Start_file_open_wait l src))) (\<lambda>_.
          bind call (\<lambda>file.
          bind (tell (File_waiting (End_file_open_wait_and_bind_to_descriptor l file))) (\<lambda>_.
          ret file))))"

definition file_stat_wait :: "ptr \<Rightarrow> src \<Rightarrow> ('w, ptr) file_cmd \<Rightarrow> ('w, ptr) file_cmd" where
  "file_stat_wait locker src call =
     (case locker of
        None \<Rightarrow> call
      | Some l \<Rightarrow>
          bind (tell (File_waiting (Start_file_open_wait l src))) (\<lambda>_.
          bind call (\<lambda>result.
          bind (tell (File_waiting (End_file_open_wait l result))) (\<lambda>_.
          ret result))))"

text \<open>What the reads and writes report as moved.\<close>

definition bytes_moved :: "myf \<Rightarrow> size_t \<Rightarrow> size_t \<Rightarrow> size_t" where
  "bytes_moved flags nbytes result =
     (if flags AND (MY_NABP OR MY_FNABP) \<noteq> 0 then (if result = 0 then nbytes else 0)
      else (if result \<noteq> MY_FILE_ERROR then result else 0))"

section \<open>The wrappers\<close>

definition inline_mysql_file_register :: "'w file_build \<Rightarrow> string \<Rightarrow> int \<Rightarrow> ('w, unit) file_cmd" where
  "inline_mysql_file_register B category num =
     (if have_psi B then tell (Registering (Register Files category num)) else ret ())"

definition inline_mysql_file_fgets :: "'w file_build \<Rightarrow> src \<Rightarrow> ptr \<Rightarrow> 32 word \<Rightarrow> ptr \<Rightarrow> ('w, string option) file_cmd" where
  "inline_mysql_file_fgets B src str len file =
     bind (stream file) (\<lambda>f.
     locate B (Get_thread_file_stream_locker (m_psi f) PSI_FILE_READ) (\<lambda>locker.
     file_wait locker (scast len) src (sys_call (low_text B) (C_fgets str len (m_file f)))
       (\<lambda>result. case result of Some s \<Rightarrow> of_nat (length s) | None \<Rightarrow> 0)))"

definition inline_mysql_file_fgetc :: "'w file_build \<Rightarrow> src \<Rightarrow> ptr \<Rightarrow> ('w, 32 word) file_cmd" where
  "inline_mysql_file_fgetc B src file =
     bind (stream file) (\<lambda>f.
     locate B (Get_thread_file_stream_locker (m_psi f) PSI_FILE_READ) (\<lambda>locker.
     file_wait locker 1 src (sys_call (low_int B) (C_fgetc (m_file f))) (\<lambda>_. 1)))"

definition inline_mysql_file_fputs :: "'w file_build \<Rightarrow> src \<Rightarrow> string option \<Rightarrow> ptr \<Rightarrow> ('w, 32 word) file_cmd" where
  "inline_mysql_file_fputs B src str file =
     bind (stream file) (\<lambda>f.
     locate B (Get_thread_file_stream_locker (m_psi f) PSI_FILE_WRITE) (\<lambda>locker.
     let bytes = (case str of Some s \<Rightarrow> of_nat (length (c_str s)) | None \<Rightarrow> 0)
     in file_wait locker bytes src (sys_call (low_int B) (C_fputs str (m_file f))) (\<lambda>_. bytes)))"

definition inline_mysql_file_fputc :: "'w file_build \<Rightarrow> src \<Rightarrow> char \<Rightarrow> ptr \<Rightarrow> ('w, 32 word) file_cmd" where
  "inline_mysql_file_fputc B src c file =
     bind (stream file) (\<lambda>f.
     locate B (Get_thread_file_stream_locker (m_psi f) PSI_FILE_WRITE) (\<lambda>locker.
     file_wait locker 1 src (sys_call (low_int B) (C_fputc c (m_file f))) (\<lambda>_. 1)))"

text \<open>The place the call is reported at is the header's own.\<close>

definition fprintf_src :: src where
  "fprintf_src = (''mysql_file.h'', 646)"

definition inline_mysql_file_fprintf :: "'w file_build \<Rightarrow> ptr \<Rightarrow> string \<Rightarrow> string list \<Rightarrow> ('w, 32 word) file_cmd" where
  "inline_mysql_file_fprintf B file format args =
     bind (stream file) (\<lambda>f.
     locate B (Get_thread_file_stream_locker (m_psi f) PSI_FILE_WRITE) (\<lambda>locker.
     file_wait locker 0 fprintf_src (sys_call (low_int B) (C_vfprintf (m_file f) format args)) (\<lambda>result. scast result)))"

definition inline_mysql_file_vfprintf :: "'w file_build \<Rightarrow> src \<Rightarrow> ptr \<Rightarrow> string \<Rightarrow> string list \<Rightarrow> ('w, 32 word) file_cmd" where
  "inline_mysql_file_vfprintf B src file format args =
     bind (stream file) (\<lambda>f.
     locate B (Get_thread_file_stream_locker (m_psi f) PSI_FILE_WRITE) (\<lambda>locker.
     file_wait locker 0 src (sys_call (low_int B) (C_vfprintf (m_file f) format args)) (\<lambda>result. scast result)))"

definition inline_mysql_file_fflush :: "'w file_build \<Rightarrow> src \<Rightarrow> ptr \<Rightarrow> ('w, 32 word) file_cmd" where
  "inline_mysql_file_fflush B src file =
     bind (stream file) (\<lambda>f.
     locate B (Get_thread_file_stream_locker (m_psi f) PSI_FILE_FLUSH) (\<lambda>locker.
     file_wait locker 0 src (sys_call (low_int B) (C_fflush (m_file f))) (\<lambda>_. 0)))"

definition inline_mysql_file_feof :: "'w file_build \<Rightarrow> ptr \<Rightarrow> ('w, 32 word) file_cmd" where
  "inline_mysql_file_feof B file = bind (stream file) (\<lambda>f. sys_call (low_int B) (C_feof (m_file f)))"

definition inline_mysql_file_fstat :: "'w file_build \<Rightarrow> src \<Rightarrow> 32 word \<Rightarrow> ptr \<Rightarrow> myf \<Rightarrow> ('w, 32 word) file_cmd" where
  "inline_mysql_file_fstat B src filenr stat_area flags =
     locate B (Get_thread_file_descriptor_locker filenr PSI_FILE_FSTAT) (\<lambda>locker.
     file_wait locker 0 src (sys_call (low_int B) (C_my_fstat filenr stat_area flags)) (\<lambda>_. 0))"

definition inline_mysql_file_stat :: "'w file_build \<Rightarrow> nat \<Rightarrow> src \<Rightarrow> string \<Rightarrow> ptr \<Rightarrow> myf \<Rightarrow> ('w, ptr) file_cmd" where
  "inline_mysql_file_stat B key src path stat_area flags =
     locate B (Get_thread_file_name_locker key PSI_FILE_STAT path None) (\<lambda>locker.
     file_stat_wait locker src (sys_call (low_ptr B) (C_my_stat path stat_area flags)))"

definition inline_mysql_file_chsize ::
  "'w file_build \<Rightarrow> src \<Rightarrow> 32 word \<Rightarrow> 64 word \<Rightarrow> 32 word \<Rightarrow> myf \<Rightarrow> ('w, 32 word) file_cmd" where
  "inline_mysql_file_chsize B src file newlength filler flags =
     locate B (Get_thread_file_descriptor_locker file PSI_FILE_CHSIZE) (\<lambda>locker.
     file_wait locker newlength src (sys_call (low_int B) (C_my_chsize file newlength filler flags)) (\<lambda>_. newlength))"

text \<open>Allocating and freeing the structure of a stream; its fields are written before they are read.\<close>

definition new_stream :: "'w file_build \<Rightarrow> ('w, ptr) file_cmd" where
  "new_stream B =
     bind (sys_call (low_ptr B) (C_my_malloc MY_WME)) (\<lambda>that.
     case that of
       None \<Rightarrow> ret None
     | Some a \<Rightarrow> bind (put (\<lambda>h. h(a \<mapsto> \<lparr>m_file = None, m_psi = None\<rparr>))) (\<lambda>_. ret that))"

definition set_stream :: "nat \<Rightarrow> ptr \<Rightarrow> ptr \<Rightarrow> ('w, unit) file_cmd" where
  "set_stream a file psi = put (\<lambda>h. h(a \<mapsto> \<lparr>m_file = file, m_psi = psi\<rparr>))"

definition free_stream :: "'w file_build \<Rightarrow> nat \<Rightarrow> ('w, unit) file_cmd" where
  "free_stream B a =
     bind (sys_call (low_ptr B) (C_my_free a)) (\<lambda>_. put (\<lambda>h. h(a := None)))"

definition stream_open :: "'w file_build \<Rightarrow> ptr \<Rightarrow> src \<Rightarrow> nat \<Rightarrow> ('w, ptr) file_cmd \<Rightarrow> ('w, ptr) file_cmd" where
  "stream_open B locker src a call =
     (let opened = (\<lambda>file. if file = None then bind (free_stream B a) (\<lambda>_. ret None) else ret (Some a))
      in case locker of
           Some l \<Rightarrow>
             bind (tell (File_waiting (Start_file_open_wait l src))) (\<lambda>_.
             bind call (\<lambda>file.
             bind (ask B (File_waiting (End_file_open_wait l file))) (\<lambda>psi.
             bind (set_stream a file psi) (\<lambda>_. opened file))))
         | None \<Rightarrow>
             bind call (\<lambda>file.
             bind (set_stream a file None) (\<lambda>_. opened file)))"

definition inline_mysql_file_fopen ::
  "'w file_build \<Rightarrow> nat \<Rightarrow> src \<Rightarrow> string \<Rightarrow> 32 word \<Rightarrow> myf \<Rightarrow> ('w, ptr) file_cmd" where
  "inline_mysql_file_fopen B key src filename flags myFlags =
     bind (new_stream B) (\<lambda>that.
     case that of
       None \<Rightarrow> ret None
     | Some a \<Rightarrow>
         locate B (Get_thread_file_name_locker key PSI_FILE_STREAM_OPEN filename that) (\<lambda>locker.
         stream_open B locker src a (sys_call (low_ptr B) (C_my_fopen filename flags myFlags))))"

definition inline_mysql_file_fclose :: "'w file_build \<Rightarrow> src \<Rightarrow> ptr \<Rightarrow> myf \<Rightarrow> ('w, 32 word) file_cmd" where
  "inline_mysql_file_fclose B src file flags =
     (case file of
        None \<Rightarrow> ret 0
      | Some a \<Rightarrow>
          bind (stream file) (\<lambda>f.
          locate B (Get_thread_file_stream_locker (m_psi f) PSI_FILE_STREAM_CLOSE) (\<lambda>locker.
          bind (file_close_wait locker src (sys_call (low_int B) (C_my_fclose (m_file f) flags))) (\<lambda>result.
          bind (free_stream B a) (\<lambda>_. ret result)))))"

definition inline_mysql_file_fread :: "'w file_build \<Rightarrow> src \<Rightarrow> ptr \<Rightarrow> ptr \<Rightarrow> size_t \<Rightarrow> myf \<Rightarrow> ('w, size_t) file_cmd" where
  "inline_mysql_file_fread B src file buffer nbytes flags =
     bind (stream file) (\<lambda>f.
     locate B (Get_thread_file_stream_locker (m_psi f) PSI_FILE_READ) (\<lambda>locker.
     file_wait locker nbytes src (sys_call (low_size B) (C_my_fread (m_file f) buffer nbytes flags)) (bytes_moved flags nbytes)))"

definition inline_mysql_file_fwrite :: "'w file_build \<Rightarrow> src \<Rightarrow> ptr \<Rightarrow> ptr \<Rightarrow> size_t \<Rightarrow> myf \<Rightarrow> ('w, size_t) file_cmd" where
  "inline_mysql_file_fwrite B src file buffer nbytes flags =
     bind (stream file) (\<lambda>f.
     locate B (Get_thread_file_stream_locker (m_psi f) PSI_FILE_WRITE) (\<lambda>locker.
     file_wait locker nbytes src (sys_call (low_size B) (C_my_fwrite (m_file f) buffer nbytes flags)) (bytes_moved flags nbytes)))"

definition inline_mysql_file_fseek :: "'w file_build \<Rightarrow> src \<Rightarrow> ptr \<Rightarrow> 64 word \<Rightarrow> 32 word \<Rightarrow> myf \<Rightarrow> ('w, 64 word) file_cmd" where
  "inline_mysql_file_fseek B src file pos whence flags =
     bind (stream file) (\<lambda>f.
     locate B (Get_thread_file_stream_locker (m_psi f) PSI_FILE_SEEK) (\<lambda>locker.
     file_wait locker 0 src (sys_call (low_size B) (C_my_fseek (m_file f) pos whence flags)) (\<lambda>_. 0)))"

definition inline_mysql_file_ftell :: "'w file_build \<Rightarrow> src \<Rightarrow> ptr \<Rightarrow> myf \<Rightarrow> ('w, 64 word) file_cmd" where
  "inline_mysql_file_ftell B src file flags =
     bind (stream file) (\<lambda>f.
     locate B (Get_thread_file_stream_locker (m_psi f) PSI_FILE_TELL) (\<lambda>locker.
     file_wait locker 0 src (sys_call (low_size B) (C_my_ftell (m_file f) flags)) (\<lambda>_. 0)))"

definition inline_mysql_file_create ::
  "'w file_build \<Rightarrow> nat \<Rightarrow> src \<Rightarrow> string \<Rightarrow> 32 word \<Rightarrow> 32 word \<Rightarrow> myf \<Rightarrow> ('w, 32 word) file_cmd" where
  "inline_mysql_file_create B key src filename create_flags access_flags myFlags =
     locate B (Get_thread_file_name_locker key PSI_FILE_CREATE filename None) (\<lambda>locker.
     file_open_wait locker src (sys_call (low_int B) (C_my_create filename create_flags access_flags myFlags)))"

text \<open>The name is known only after the call; \<open>to\<close> is the buffer it is left in, \<open>name_in\<close> reads it.\<close>

definition inline_mysql_file_create_temp ::
  "'w file_build \<Rightarrow> (ptr \<Rightarrow> 'w \<Rightarrow> string) \<Rightarrow> nat \<Rightarrow> ptr \<Rightarrow> string \<Rightarrow> string \<Rightarrow> 32 word \<Rightarrow> myf \<Rightarrow> ('w, 32 word) file_cmd" where
  "inline_mysql_file_create_temp B name_in key to dir pfx mode myFlags =
     bind (sys_call (low_int B) (C_create_temp_file to dir pfx mode myFlags)) (\<lambda>file.
     if have_psi B then with_os (\<lambda>w. bind (tell (Create_file key (name_in to w) file)) (\<lambda>_. ret file))
     else ret file)"

definition inline_mysql_file_open :: "'w file_build \<Rightarrow> nat \<Rightarrow> src \<Rightarrow> string \<Rightarrow> 32 word \<Rightarrow> myf \<Rightarrow> ('w, 32 word) file_cmd" where
  "inline_mysql_file_open B key src filename flags myFlags =
     locate B (Get_thread_file_name_locker key PSI_FILE_OPEN filename None) (\<lambda>locker.
     file_open_wait locker src (sys_call (low_int B) (C_my_open filename flags myFlags)))"

definition inline_mysql_file_close :: "'w file_build \<Rightarrow> src \<Rightarrow> 32 word \<Rightarrow> myf \<Rightarrow> ('w, 32 word) file_cmd" where
  "inline_mysql_file_close B src file flags =
     locate B (Get_thread_file_descriptor_locker file PSI_FILE_CLOSE) (\<lambda>locker.
     file_close_wait locker src (sys_call (low_int B) (C_my_close file flags)))"

definition inline_mysql_file_read ::
  "'w file_build \<Rightarrow> src \<Rightarrow> 32 word \<Rightarrow> ptr \<Rightarrow> size_t \<Rightarrow> myf \<Rightarrow> ('w, size_t) file_cmd" where
  "inline_mysql_file_read B src file buffer nbytes flags =
     locate B (Get_thread_file_descriptor_locker file PSI_FILE_READ) (\<lambda>locker.
     file_wait locker nbytes src (sys_call (low_size B) (C_my_read file buffer nbytes flags)) (bytes_moved flags nbytes))"

definition inline_mysql_file_write ::
  "'w file_build \<Rightarrow> src \<Rightarrow> 32 word \<Rightarrow> ptr \<Rightarrow> size_t \<Rightarrow> myf \<Rightarrow> ('w, size_t) file_cmd" where
  "inline_mysql_file_write B src file buffer nbytes flags =
     locate B (Get_thread_file_descriptor_locker file PSI_FILE_WRITE) (\<lambda>locker.
     file_wait locker nbytes src (sys_call (low_size B) (C_my_write file buffer nbytes flags)) (bytes_moved flags nbytes))"

definition inline_mysql_file_pread ::
  "'w file_build \<Rightarrow> src \<Rightarrow> 32 word \<Rightarrow> ptr \<Rightarrow> size_t \<Rightarrow> 64 word \<Rightarrow> myf \<Rightarrow> ('w, size_t) file_cmd" where
  "inline_mysql_file_pread B src file buffer nbytes offset flags =
     locate B (Get_thread_file_descriptor_locker file PSI_FILE_READ) (\<lambda>locker.
     file_wait locker nbytes src (sys_call (low_size B) (C_my_pread file buffer nbytes offset flags)) (bytes_moved flags nbytes))"

definition inline_mysql_file_pwrite ::
  "'w file_build \<Rightarrow> src \<Rightarrow> 32 word \<Rightarrow> ptr \<Rightarrow> size_t \<Rightarrow> 64 word \<Rightarrow> myf \<Rightarrow> ('w, size_t) file_cmd" where
  "inline_mysql_file_pwrite B src file buffer nbytes offset flags =
     locate B (Get_thread_file_descriptor_locker file PSI_FILE_WRITE) (\<lambda>locker.
     file_wait locker nbytes src (sys_call (low_size B) (C_my_pwrite file buffer nbytes offset flags)) (bytes_moved flags nbytes))"

definition inline_mysql_file_seek :: "'w file_build \<Rightarrow> src \<Rightarrow> 32 word \<Rightarrow> 64 word \<Rightarrow> 32 word \<Rightarrow> myf \<Rightarrow> ('w, 64 word) file_cmd" where
  "inline_mysql_file_seek B src file pos whence flags =
     locate B (Get_thread_file_descriptor_locker file PSI_FILE_SEEK) (\<lambda>locker.
     file_wait locker 0 src (sys_call (low_size B) (C_my_seek file pos whence flags)) (\<lambda>_. 0))"

definition inline_mysql_file_tell :: "'w file_build \<Rightarrow> src \<Rightarrow> 32 word \<Rightarrow> myf \<Rightarrow> ('w, 64 word) file_cmd" where
  "inline_mysql_file_tell B src file flags =
     locate B (Get_thread_file_descriptor_locker file PSI_FILE_TELL) (\<lambda>locker.
     file_wait locker 0 src (sys_call (low_size B) (C_my_tell file flags)) (\<lambda>_. 0))"

definition inline_mysql_file_delete :: "'w file_build \<Rightarrow> nat \<Rightarrow> src \<Rightarrow> string \<Rightarrow> myf \<Rightarrow> ('w, 32 word) file_cmd" where
  "inline_mysql_file_delete B key src name flags =
     locate B (Get_thread_file_name_locker key PSI_FILE_DELETE name None) (\<lambda>locker.
     file_close_wait locker src (sys_call (low_int B) (C_my_delete name flags)))"

definition inline_mysql_file_rename :: "'w file_build \<Rightarrow> nat \<Rightarrow> src \<Rightarrow> string \<Rightarrow> string \<Rightarrow> myf \<Rightarrow> ('w, 32 word) file_cmd" where
  "inline_mysql_file_rename B key src from to flags =
     locate B (Get_thread_file_name_locker key PSI_FILE_RENAME to None) (\<lambda>locker.
     file_wait locker 0 src (sys_call (low_int B) (C_my_rename from to flags)) (\<lambda>_. 0))"

definition inline_mysql_file_create_with_symlink ::
  "'w file_build \<Rightarrow> nat \<Rightarrow> src \<Rightarrow> string \<Rightarrow> string \<Rightarrow> 32 word \<Rightarrow> 32 word \<Rightarrow> myf \<Rightarrow> ('w, 32 word) file_cmd" where
  "inline_mysql_file_create_with_symlink B key src linkname filename create_flags access_flags flags =
     locate B (Get_thread_file_name_locker key PSI_FILE_CREATE filename None) (\<lambda>locker.
     file_open_wait locker src (sys_call (low_int B) (C_my_create_with_symlink linkname filename create_flags access_flags flags)))"

definition inline_mysql_file_delete_with_symlink :: "'w file_build \<Rightarrow> nat \<Rightarrow> src \<Rightarrow> string \<Rightarrow> myf \<Rightarrow> ('w, 32 word) file_cmd" where
  "inline_mysql_file_delete_with_symlink B key src name flags =
     locate B (Get_thread_file_name_locker key PSI_FILE_DELETE name None) (\<lambda>locker.
     file_close_wait locker src (sys_call (low_int B) (C_my_delete_with_symlink name flags)))"

definition inline_mysql_file_rename_with_symlink ::
  "'w file_build \<Rightarrow> nat \<Rightarrow> src \<Rightarrow> string \<Rightarrow> string \<Rightarrow> myf \<Rightarrow> ('w, 32 word) file_cmd" where
  "inline_mysql_file_rename_with_symlink B key src from to flags =
     locate B (Get_thread_file_name_locker key PSI_FILE_RENAME to None) (\<lambda>locker.
     file_wait locker 0 src (sys_call (low_int B) (C_my_rename_with_symlink from to flags)) (\<lambda>_. 0))"

definition inline_mysql_file_sync :: "'w file_build \<Rightarrow> src \<Rightarrow> 32 word \<Rightarrow> myf \<Rightarrow> ('w, 32 word) file_cmd" where
  "inline_mysql_file_sync B src fd flags =
     locate B (Get_thread_file_descriptor_locker fd PSI_FILE_SYNC) (\<lambda>locker.
     file_wait locker 0 src (sys_call (low_int B) (C_my_sync fd flags)) (\<lambda>_. 0))"

section \<open>Any request\<close>

datatype (plugins only: ) file_request =
    R_register string int | R_fgets src ptr "32 word" ptr | R_fgetc src ptr | R_fputs src "string option" ptr | R_fputc src char ptr
  | R_fprintf ptr string "string list" | R_vfprintf src ptr string "string list" | R_fflush src ptr | R_feof ptr
  | R_fstat src "32 word" ptr myf | R_stat nat src string ptr myf | R_chsize src "32 word" "64 word" "32 word" myf
  | R_fopen nat src string "32 word" myf | R_fclose src ptr myf | R_fread src ptr ptr size_t myf | R_fwrite src ptr ptr size_t myf
  | R_fseek src ptr "64 word" "32 word" myf | R_ftell src ptr myf
  | R_create nat src string "32 word" "32 word" myf | R_create_temp nat ptr string string "32 word" myf
  | R_open nat src string "32 word" myf | R_close src "32 word" myf
  | R_read src "32 word" ptr size_t myf | R_write src "32 word" ptr size_t myf
  | R_pread src "32 word" ptr size_t "64 word" myf | R_pwrite src "32 word" ptr size_t "64 word" myf
  | R_seek src "32 word" "64 word" "32 word" myf | R_tell src "32 word" myf
  | R_delete nat src string myf | R_rename nat src string string myf
  | R_create_with_symlink nat src string string "32 word" "32 word" myf
  | R_delete_with_symlink nat src string myf | R_rename_with_symlink nat src string string myf | R_sync src "32 word" myf

datatype reply = Void | An_int "32 word" | A_size "64 word" | A_pointer ptr | A_text "string option"

definition reply :: "('a \<Rightarrow> reply) \<Rightarrow> ('w, 'a) file_cmd \<Rightarrow> ('w, reply) file_cmd" where
  "reply f m = bind m (\<lambda>a. ret (f a))"

primrec file_step :: "(ptr \<Rightarrow> 'w \<Rightarrow> string) \<Rightarrow> 'w file_build \<Rightarrow> file_request \<Rightarrow> ('w, reply) file_cmd" where
  "file_step name_in B (R_register category num) = reply (\<lambda>_. Void) (inline_mysql_file_register B category num)"
| "file_step name_in B (R_fgets src str len file) = reply A_text (inline_mysql_file_fgets B src str len file)"
| "file_step name_in B (R_fgetc src file) = reply An_int (inline_mysql_file_fgetc B src file)"
| "file_step name_in B (R_fputs src str file) = reply An_int (inline_mysql_file_fputs B src str file)"
| "file_step name_in B (R_fputc src c file) = reply An_int (inline_mysql_file_fputc B src c file)"
| "file_step name_in B (R_fprintf file format args) = reply An_int (inline_mysql_file_fprintf B file format args)"
| "file_step name_in B (R_vfprintf src file format args) = reply An_int (inline_mysql_file_vfprintf B src file format args)"
| "file_step name_in B (R_fflush src file) = reply An_int (inline_mysql_file_fflush B src file)"
| "file_step name_in B (R_feof file) = reply An_int (inline_mysql_file_feof B file)"
| "file_step name_in B (R_fstat src filenr area flags) = reply An_int (inline_mysql_file_fstat B src filenr area flags)"
| "file_step name_in B (R_stat key src path area flags) = reply A_pointer (inline_mysql_file_stat B key src path area flags)"
| "file_step name_in B (R_chsize src file newlength filler flags) = reply An_int (inline_mysql_file_chsize B src file newlength filler flags)"
| "file_step name_in B (R_fopen key src name flags myFlags) = reply A_pointer (inline_mysql_file_fopen B key src name flags myFlags)"
| "file_step name_in B (R_fclose src file flags) = reply An_int (inline_mysql_file_fclose B src file flags)"
| "file_step name_in B (R_fread src file buffer n flags) = reply A_size (inline_mysql_file_fread B src file buffer n flags)"
| "file_step name_in B (R_fwrite src file buffer n flags) = reply A_size (inline_mysql_file_fwrite B src file buffer n flags)"
| "file_step name_in B (R_fseek src file pos whence flags) = reply A_size (inline_mysql_file_fseek B src file pos whence flags)"
| "file_step name_in B (R_ftell src file flags) = reply A_size (inline_mysql_file_ftell B src file flags)"
| "file_step name_in B (R_create key src name cflags aflags flags) = reply An_int (inline_mysql_file_create B key src name cflags aflags flags)"
| "file_step name_in B (R_create_temp key to dir pfx mode flags) = reply An_int (inline_mysql_file_create_temp B name_in key to dir pfx mode flags)"
| "file_step name_in B (R_open key src name flags myFlags) = reply An_int (inline_mysql_file_open B key src name flags myFlags)"
| "file_step name_in B (R_close src file flags) = reply An_int (inline_mysql_file_close B src file flags)"
| "file_step name_in B (R_read src file buffer n flags) = reply A_size (inline_mysql_file_read B src file buffer n flags)"
| "file_step name_in B (R_write src file buffer n flags) = reply A_size (inline_mysql_file_write B src file buffer n flags)"
| "file_step name_in B (R_pread src file buffer n off flags) = reply A_size (inline_mysql_file_pread B src file buffer n off flags)"
| "file_step name_in B (R_pwrite src file buffer n off flags) = reply A_size (inline_mysql_file_pwrite B src file buffer n off flags)"
| "file_step name_in B (R_seek src file pos whence flags) = reply A_size (inline_mysql_file_seek B src file pos whence flags)"
| "file_step name_in B (R_tell src file flags) = reply A_size (inline_mysql_file_tell B src file flags)"
| "file_step name_in B (R_delete key src name flags) = reply An_int (inline_mysql_file_delete B key src name flags)"
| "file_step name_in B (R_rename key src from to flags) = reply An_int (inline_mysql_file_rename B key src from to flags)"
| "file_step name_in B (R_create_with_symlink key src link name cflags aflags flags) = reply An_int (inline_mysql_file_create_with_symlink B key src link name cflags aflags flags)"
| "file_step name_in B (R_delete_with_symlink key src name flags) = reply An_int (inline_mysql_file_delete_with_symlink B key src name flags)"
| "file_step name_in B (R_rename_with_symlink key src from to flags) = reply An_int (inline_mysql_file_rename_with_symlink B key src from to flags)"
| "file_step name_in B (R_sync src file flags) = reply An_int (inline_mysql_file_sync B src file flags)"

section \<open>The contract\<close>

text \<open>Only the second field of a stream is the instrumentation's.\<close>

definition erase_streams :: "streams \<Rightarrow> streams" where
  "erase_streams h = (\<lambda>a. map_option (\<lambda>f. f\<lparr>m_psi := None\<rparr>) (h a))"

lemmas wrapper_defs =
  inline_mysql_file_register_def
  inline_mysql_file_fgets_def
  inline_mysql_file_fgetc_def
  inline_mysql_file_fputs_def
  inline_mysql_file_fputc_def
  inline_mysql_file_fprintf_def
  inline_mysql_file_vfprintf_def
  inline_mysql_file_fflush_def
  inline_mysql_file_feof_def
  inline_mysql_file_fstat_def
  inline_mysql_file_stat_def
  inline_mysql_file_chsize_def
  inline_mysql_file_fopen_def
  inline_mysql_file_fclose_def
  inline_mysql_file_fread_def
  inline_mysql_file_fwrite_def
  inline_mysql_file_fseek_def
  inline_mysql_file_ftell_def
  inline_mysql_file_create_def
  inline_mysql_file_create_temp_def
  inline_mysql_file_open_def
  inline_mysql_file_close_def
  inline_mysql_file_read_def
  inline_mysql_file_write_def
  inline_mysql_file_pread_def
  inline_mysql_file_pwrite_def
  inline_mysql_file_seek_def
  inline_mysql_file_tell_def
  inline_mysql_file_delete_def
  inline_mysql_file_rename_def
  inline_mysql_file_create_with_symlink_def
  inline_mysql_file_delete_with_symlink_def
  inline_mysql_file_rename_with_symlink_def
  inline_mysql_file_sync_def

lemma stream_bind:
  "bind (stream (Some a)) k = bind look (\<lambda>h. case h a of None \<Rightarrow> stop UndefinedBehaviour | Some f \<Rightarrow> k f)"
  by (simp add: stream_def) (rule arg_cong [where f = "bind look"], simp add: fun_eq_iff split: option.split)

lemma hides_stream [hides_intros]:
  assumes "\<And>f. hides erase_streams (k f) (k' (f\<lparr>m_psi := None\<rparr>))"
  shows "hides erase_streams (bind (stream p) k) (bind (stream p) k')"
proof (cases p)
  case None
  then show ?thesis by (simp add: stream_def hides_stop)
next
  case (Some a)
  show ?thesis unfolding Some stream_bind
    by (rule hides_look) (simp add: erase_streams_def hides_stop assms split: option.split)
qed

lemma hides_locate [hides_intros]:
  "(\<And>l. hides e (f l) (f' None)) \<Longrightarrow> hides e (locate B c f) (locate (plain B) c' f')"
  by (auto simp: locate_def intro: hides_ask)

lemma locate_bind: "bind (locate B c f) k = locate B c (\<lambda>l. bind (f l) k)"
  by (simp add: locate_def)

lemma hides_frames [hides_intros]:
  "hides e call call' \<Longrightarrow> hides e (file_wait l n src call used) (file_wait None n' src' call' used')"
  "hides e call2 call2' \<Longrightarrow> hides e (file_close_wait l src call2) (file_close_wait None src' call2')"
  "hides e call2 call2' \<Longrightarrow> hides e (file_open_wait l src call2) (file_open_wait None src' call2')"
  "hides e call3 call3' \<Longrightarrow> hides e (file_stat_wait l src call3) (file_stat_wait None src' call3')"
  by (cases l; auto simp: file_wait_def file_close_wait_def file_open_wait_def file_stat_wait_def
      intro!: hides_tell hides_finish hides_ret)+

lemmas hides_bind_frames [hides_intros] = hides_frames [THEN hides_bind]

lemma hides_free_stream [hides_intros]:
  "hides erase_streams (f ()) (f' ()) \<Longrightarrow> hides erase_streams (bind (free_stream B a) f) (bind (free_stream (plain B) a) f')"
  by (auto simp: free_stream_def erase_streams_def fun_eq_iff intro!: hides_intros)

lemma hides_new_stream [hides_intros]:
  "(\<And>p. hides erase_streams (f p) (f' p)) \<Longrightarrow> hides erase_streams (bind (new_stream B) f) (bind (new_stream (plain B)) f')"
  by (auto simp: new_stream_def erase_streams_def fun_eq_iff intro!: hides_intros hides_bind split: option.split)

lemma hides_set_stream [hides_intros]:
  "hides erase_streams (f ()) (f' ()) \<Longrightarrow> hides erase_streams (bind (set_stream a p psi) f) (bind (set_stream a p None) f')"
  by (auto simp: set_stream_def erase_streams_def fun_eq_iff intro!: hides_intros)

lemma hides_stream_open [hides_intros]:
  "hides erase_streams (stream_open B l src a (sys_call (low_ptr B) c)) (stream_open (plain B) None src' a (sys_call (low_ptr B) c))"
  by (cases l) (auto simp: stream_open_def Let_def intro!: hides_intros)

lemma fopen_hides [hides_intros]:
  assumes "\<And>p. hides erase_streams (k p) (k' p)"
  shows "hides erase_streams (bind (inline_mysql_file_fopen B key src name flags myFlags) k)
     (bind (inline_mysql_file_fopen (plain B) key src name flags myFlags) k')"
proof (rule hides_bind [OF _ assms])
  show "hides erase_streams (inline_mysql_file_fopen B key src name flags myFlags)
      (inline_mysql_file_fopen (plain B) key src name flags myFlags)"
    by (auto simp: inline_mysql_file_fopen_def intro!: hides_intros split: option.split)
qed

lemma fclose_hides [hides_intros]:
  assumes "\<And>p. hides erase_streams (k p) (k' p)"
  shows "hides erase_streams (bind (inline_mysql_file_fclose B src file flags) k) (bind (inline_mysql_file_fclose (plain B) src file flags) k')"
proof (rule hides_bind [OF _ assms])
  show "hides erase_streams (inline_mysql_file_fclose B src file flags) (inline_mysql_file_fclose (plain B) src file flags)"
    unfolding inline_mysql_file_fclose_def by (auto intro!: hides_intros split: option.split)
qed

lemma register_hides [hides_intros]:
  "hides e (f ()) (f' ()) \<Longrightarrow> hides e (bind (inline_mysql_file_register B c n) f) (bind (inline_mysql_file_register (plain B) c n) f')"
  by (simp add: inline_mysql_file_register_def hides_tell)

lemma create_temp_hides [hides_intros]:
  assumes "\<And>p. hides e (k p) (k' p)"
  shows "hides e (bind (inline_mysql_file_create_temp B name_in key to dir pfx mode flags) k)
    (bind (inline_mysql_file_create_temp (plain B) name_in key to dir pfx mode flags) k')"
proof (rule hides_bind [OF _ assms])
  have "hides e (with_os (\<lambda>w. bind (tell (Create_file key (name_in to w) fd)) (\<lambda>_. ret fd))) (ret fd)" for fd
    by (simp add: hides_def run_cmd hide_def with_os_def)
  then show "hides e (inline_mysql_file_create_temp B name_in key to dir pfx mode flags)
      (inline_mysql_file_create_temp (plain B) name_in key to dir pfx mode flags)"
    unfolding inline_mysql_file_create_temp_def by (auto intro!: hides_finish hides_sys_call hides_ret)
qed

lemmas simple_wrapper_defs =
  inline_mysql_file_fgets_def
  inline_mysql_file_fgetc_def
  inline_mysql_file_fputs_def
  inline_mysql_file_fputc_def
  inline_mysql_file_fprintf_def
  inline_mysql_file_vfprintf_def
  inline_mysql_file_fflush_def
  inline_mysql_file_feof_def
  inline_mysql_file_fstat_def
  inline_mysql_file_stat_def
  inline_mysql_file_chsize_def
  inline_mysql_file_fread_def
  inline_mysql_file_fwrite_def
  inline_mysql_file_fseek_def
  inline_mysql_file_ftell_def
  inline_mysql_file_create_def
  inline_mysql_file_open_def
  inline_mysql_file_close_def
  inline_mysql_file_read_def
  inline_mysql_file_write_def
  inline_mysql_file_pread_def
  inline_mysql_file_pwrite_def
  inline_mysql_file_seek_def
  inline_mysql_file_tell_def
  inline_mysql_file_delete_def
  inline_mysql_file_rename_def
  inline_mysql_file_create_with_symlink_def
  inline_mysql_file_delete_with_symlink_def
  inline_mysql_file_rename_with_symlink_def
  inline_mysql_file_sync_def

lemma file_step_hides: "hides erase_streams (file_step name_in B r) (file_step name_in (plain B) r)"
  by (cases r; simp only: file_step.simps reply_def simple_wrapper_defs Let_def bind_assoc locate_bind plain_build_simps MYSQL_FILE.simps;
      intro hides_intros; simp; intro hides_intros)

text \<open>The protocol: where a handle is, once it has been asked for.\<close>

definition handle :: "ptr \<Rightarrow> phase" where
  "handle l = (case l of None \<Rightarrow> Idle | Some l \<Rightarrow> Located l)"

lemma stream_moves [moves_intros]: "moves B Idle (stream p) Idle"
  by (auto simp: stream_def intro!: moves_intros split: option.split)

lemma locate_moves [moves_intros]:
  assumes "\<And>l. moves B (handle l) (f l) q"
  shows "moves B Idle (locate B c f) q"
proof (cases "have_psi B")
  case True
  have "\<exists>r. role_step a Idle (role_of (Locating c)) = Some r \<and> moves B r (f a) q" for a
    using assms [of a] by (simp add: handle_def)
  with True show ?thesis by (simp add: locate_def moves_ask)
next
  case False
  with assms [of None] show ?thesis by (simp add: locate_def handle_def)
qed

lemma frames_move [moves_intros]:
  "moves B (handle l) (file_wait l n src (sys_call f c) used) Idle"
  "moves B (handle l) (file_close_wait l src (sys_call g c)) Idle"
  "moves B (handle l) (file_open_wait l src (sys_call g c)) Idle"
  "moves B (handle l) (file_stat_wait l src (sys_call h c)) Idle"
  by (cases l; simp add: handle_def file_wait_def file_close_wait_def file_open_wait_def file_stat_wait_def moves_sys_call;
      (rule moves_bind [OF moves_tell moves_bind [OF moves_sys_call moves_bind [OF moves_tell moves_ret]]], simp, simp, simp))+

lemma stream_open_moves [moves_intros]: "moves B (handle l) (stream_open B l src a (sys_call f c)) Idle"
proof (cases l)
  case None
  then show ?thesis
    by (auto simp: stream_open_def handle_def set_stream_def free_stream_def Let_def intro!: moves_intros)
next
  case (Some k)
  have ended: "moves B (Called k) (bind (ask B (File_waiting (End_file_open_wait k p))) g) Idle"
    if "\<And>psi. moves B Idle (g psi) Idle" for p and g :: "ptr \<Rightarrow> ('a, ptr) file_cmd"
    using that by (intro moves_ask) simp
  with Some show ?thesis
    by (auto simp: stream_open_def handle_def set_stream_def free_stream_def Let_def
        intro!: moves_bind [OF moves_tell] moves_bind [OF moves_sys_call] moves_bind [OF moves_put] moves_ret moves_put ended)
qed

lemma file_step_moves: "moves B Idle (file_step name_in B r) Idle"
proof -
  have reply: "moves B Idle (reply f m) Idle" if "moves B Idle m Idle" for f and m :: "('a, 'b) file_cmd"
    unfolding reply_def by (rule moves_bind [OF that moves_ret])
  show ?thesis
    by (cases r; simp only: file_step.simps wrapper_defs Let_def new_stream_def free_stream_def bind_assoc;
        (intro reply)?; (rule moves_bind [OF stream_moves])?; (intro moves_intros)?; (auto intro!: moves_intros split: option.split)?)
qed

interpretation files: instrumentation "file_step name_in" erase_streams for name_in
  by unfold_locales (rule file_step_hides file_step_moves)+

text \<open>C30: the instrumented files are drop-in replacements. For every sequence of requests and every instrumentation, the
  headers compiled with it give the replies, the faults and the calls underneath, in the same order, that they give
  compiled without it; and the instrumentation is used by its protocol: every handle it gives out is started, has
  exactly one call timed, and is ended once before the next is asked for.\<close>

theorem files_contract:
  "files.run name_in (plain B) rs \<lparr>os = w, objs = erase_streams h, trace = []\<rparr> =
     bind_res (files.run name_in B rs \<lparr>os = w, objs = h, trace = []\<rparr>) (\<lambda>(replies, s'). Inr (replies, hide erase_streams s')) \<and>
   (case files.run name_in B rs \<lparr>os = w, objs = h, trace = []\<rparr> of
      Inl e \<Rightarrow> True
    | Inr (replies, s') \<Rightarrow> phase_after (service B) (trace s') = Some Idle)"
  by (rule files.run_contract)

section \<open>Streams\<close>

lemma locate_run: "\<exists>l t. locate B c f s = f l t \<and> objs t = objs s \<and> os t = os s"
proof (cases "have_psi B")
  case True
  then show ?thesis
    by (intro exI [of _ "service B (trace s @ [Psi (Locating c)])"] exI [of _ "s\<lparr>trace := trace s @ [Psi (Locating c)]\<rparr>"])
      (simp add: locate_def run_cmd)
next
  case False
  then show ?thesis by (intro exI [of _ None] exI [of _ s]) (simp add: locate_def)
qed

lemma fopen_objs:
  assumes "\<And>a. fst (low_ptr B (C_my_malloc MY_WME) (os s)) = Some a \<Longrightarrow> objs s a = None"
  shows "\<exists>p s1. inline_mysql_file_fopen B key src name flags fl s = Inr (p, s1) \<and>
    (case p of None \<Rightarrow> objs s1 = objs s
     | Some a \<Rightarrow> objs s a = None \<and> (\<exists>f. m_file f \<noteq> None \<and> objs s1 = (objs s)(a \<mapsto> f)))"
proof (cases "fst (low_ptr B (C_my_malloc MY_WME) (os s))")
  case None
  then show ?thesis by (simp add: inline_mysql_file_fopen_def new_stream_def run_cmd)
next
  case (Some a)
  with assms have n: "(objs s)(a := None) = objs s" "objs s a = None" by (simp_all add: fun_upd_idem)
  have o: "\<exists>p s1. stream_open B l src a (sys_call (low_ptr B) c) t = Inr (p, s1) \<and>
      (case p of None \<Rightarrow> objs s1 = (objs t)(a := None) | Some b \<Rightarrow> b = a \<and> (\<exists>f. m_file f \<noteq> None \<and> objs s1 = (objs t)(a \<mapsto> f)))" for l c t
    by (cases l; cases "fst (low_ptr B c (os t))") (auto simp: stream_open_def set_stream_def free_stream_def run_cmd Let_def intro!: exI)
  let ?t = "s\<lparr>os := snd (low_ptr B (C_my_malloc MY_WME) (os s)), trace := trace s @ [Sys (C_my_malloc MY_WME)],
    objs := (objs s)(a \<mapsto> \<lparr>m_file = None, m_psi = None\<rparr>)\<rparr>"
  obtain l t where t: "inline_mysql_file_fopen B key src name flags fl s =
      stream_open B l src a (sys_call (low_ptr B) (C_my_fopen name flags fl)) t" "objs t = objs ?t"
    using locate_run [of B "Get_thread_file_name_locker key PSI_FILE_STREAM_OPEN name (Some a)"
        "\<lambda>l. stream_open B l src a (sys_call (low_ptr B) (C_my_fopen name flags fl))" ?t] Some
    by (auto simp: inline_mysql_file_fopen_def new_stream_def run_cmd)
  with o [of l "C_my_fopen name flags fl" t] n show ?thesis
    by (fastforce split: option.splits)
qed

lemma fclose_objs:
  assumes "objs s a = Some f"
  shows "\<exists>r s1. inline_mysql_file_fclose B src (Some a) fl s = Inr (r, s1) \<and> objs s1 = (objs s)(a := None)"
proof -
  have c: "\<exists>r s1. bind (file_close_wait l src (sys_call (low_int B) c)) (\<lambda>result. bind (free_stream B a) (\<lambda>_. ret result)) t =
      Inr (r, s1) \<and> objs s1 = (objs t)(a := None)" for l c t
    by (cases l) (auto simp: file_close_wait_def free_stream_def run_cmd)
  obtain l t where "inline_mysql_file_fclose B src (Some a) fl s =
      bind (file_close_wait l src (sys_call (low_int B) (C_my_fclose (m_file f) fl))) (\<lambda>result. bind (free_stream B a) (\<lambda>_. ret result)) t"
      "objs t = objs s"
    using locate_run [of B "Get_thread_file_stream_locker (m_psi f) PSI_FILE_STREAM_CLOSE"
        "\<lambda>l. bind (file_close_wait l src (sys_call (low_int B) (C_my_fclose (m_file f) fl))) (\<lambda>result. bind (free_stream B a) (\<lambda>_. ret result))" s] assms
    by (auto simp: inline_mysql_file_fclose_def stream_def run_cmd)
  with c show ?thesis by metis
qed

text \<open>Streams are not leaked, and closing one twice is noticed by nothing. When the allocator returns fresh
  addresses, \<open>mysql_file_fopen\<close> followed by \<open>mysql_file_fclose\<close> leaves no structure behind, whichever of the two calls
  fails and whatever the instrumentation does; a null result has allocated nothing and may be closed. A second
  close reads the freed structure.\<close>

theorem file_streams_balanced:
  assumes "\<And>a. fst (low_ptr B (C_my_malloc MY_WME) (os s)) = Some a \<Longrightarrow> objs s a = None"
  shows "\<exists>p s1 r s2. inline_mysql_file_fopen B key src name flags fl s = Inr (p, s1) \<and>
    inline_mysql_file_fclose B src' p fl' s1 = Inr (r, s2) \<and> objs s2 = objs s \<and>
    (case p of None \<Rightarrow> r = 0 \<and> s2 = s1 | Some a \<Rightarrow> inline_mysql_file_fclose B src' p fl' s2 = Inl UndefinedBehaviour)"
proof -
  obtain p s1 where o: "inline_mysql_file_fopen B key src name flags fl s = Inr (p, s1)"
      "case p of None \<Rightarrow> objs s1 = objs s | Some a \<Rightarrow> objs s a = None \<and> (\<exists>f. m_file f \<noteq> None \<and> objs s1 = (objs s)(a \<mapsto> f))"
    using fopen_objs [OF assms] by blast
  show ?thesis
  proof (cases p)
    case None
    with o show ?thesis by (simp add: inline_mysql_file_fclose_def run_cmd)
  next
    case (Some a)
    with o obtain f where f: "objs s a = None" "objs s1 = (objs s)(a \<mapsto> f)" by auto
    then obtain r s2 where "inline_mysql_file_fclose B src' p fl' s1 = Inr (r, s2)" "objs s2 = objs s"
      using fclose_objs [of s1 a f B src' fl'] Some by (auto simp: fun_upd_idem)
    moreover have "inline_mysql_file_fclose B src' p fl' s2 = Inl UndefinedBehaviour"
      using Some f(1) \<open>objs s2 = objs s\<close> by (simp add: inline_mysql_file_fclose_def stream_def run_cmd)
    ultimately show ?thesis using o(1) Some by auto
  qed
qed

text \<open>An allocator that has one cell, a file system that opens everything, an instrumentation that follows everything.\<close>

definition example_files :: "nat file_build" where
  "example_files = \<lparr>have_psi = True, service = (\<lambda>t. Some (length t)), low_int = (\<lambda>_ w. (0, w)), low_size = (\<lambda>_ w. (0, w)),
     low_ptr = (\<lambda>_ w. (Some 16, w)), low_text = (\<lambda>_ w. (None, w))\<rparr>"

theorem file_streams_balanced_witness:
  "\<exists>p s1 r s2. inline_mysql_file_fopen example_files 1 (''a.cc'', 1) ''f'' 0 0 \<lparr>os = 0, objs = (\<lambda>_. None), trace = []\<rparr> = Inr (p, s1) \<and>
    inline_mysql_file_fclose example_files (''a.cc'', 2) p 0 s1 = Inr (r, s2) \<and> objs s2 = (\<lambda>_. None)"
  using file_streams_balanced [of example_files "\<lparr>os = 0, objs = (\<lambda>_. None), trace = []\<rparr>" 1 "(''a.cc'', 1)" "''f''" 0 0 "(''a.cc'', 2)" 0]
  by auto

section \<open>What is reported\<close>

text \<open>Reading one character reports one byte, also at the end of the file; the reads and writes report none when they fail.\<close>

lemma fgetc_reports_a_byte:
  assumes "have_psi B" and "objs s a = Some f"
    and "service B (trace s @ [Psi (Locating (Get_thread_file_stream_locker (m_psi f) PSI_FILE_READ))]) = Some l"
  shows "\<exists>r s'. inline_mysql_file_fgetc B src (Some a) s = Inr (r, s') \<and>
    r = fst (low_int B (C_fgetc (m_file f)) (os s)) \<and> last (trace s') = Psi (File_waiting (End_file_wait l 1))"
  using assms by (simp add: inline_mysql_file_fgetc_def stream_def locate_def file_wait_def run_cmd)

theorem fclose_null: "inline_mysql_file_fclose B src None flags s = Inr (0, s)"
  by (simp add: inline_mysql_file_fclose_def ret_def)

theorem failed_transfer_reports_none: "bytes_moved flags n MY_FILE_ERROR = 0"
  by (simp add: bytes_moved_def MY_FILE_ERROR_def)

end
