(* ===== verification/Psi_Thread.thy ===== *)
theory Psi_Thread
  imports Psi
begin

text \<open>
  The instrumented locks of \<open>mysql/psi/mysql_thread.h\<close>: mutexes, read-write locks, the locks that prefer
  readers, and conditions. Each is a structure of the real lock and the handle the instrumentation gave
  out for it; the real lock is known by the structure's address. Only an initialised structure is used: reading
  the handle of another is undefined, and so is the use of its lock.
\<close>

section \<open>What is underneath\<close>

text \<open>
  A mutex is compiled in one of three ways; the fast one wraps a system mutex, which some calls are
  given directly.
\<close>

datatype mutex_kind = SAFE_MUTEX | MY_PTHREAD_FASTMUTEX | Pthread_mutex

datatype mutex_ref = Whole nat | Inner nat

datatype (plugins only: ) lock_call =
    C_safe_mutex_init nat ptr src | C_my_pthread_fastmutex_init nat ptr | C_pthread_mutex_init nat ptr
  | C_safe_mutex_destroy nat src | C_pthread_mutex_destroy mutex_ref
  | C_safe_mutex_lock nat bool src | C_my_pthread_fastmutex_lock nat | C_pthread_mutex_lock nat
  | C_pthread_mutex_trylock mutex_ref | C_safe_mutex_unlock nat src | C_pthread_mutex_unlock mutex_ref
  | C_my_rwlock_init nat | C_rwlock_destroy nat | C_rw_rdlock nat | C_rw_wrlock nat
  | C_rw_tryrdlock nat | C_rw_trywrlock nat | C_rw_unlock nat
  | C_rw_pr_init nat | C_rw_pr_destroy nat | C_rw_pr_rdlock nat | C_rw_pr_wrlock nat | C_rw_pr_unlock nat
  | C_pthread_cond_init nat ptr | C_pthread_cond_destroy nat | C_my_cond_wait nat nat
  | C_my_cond_timedwait nat nat nat | C_pthread_cond_signal nat | C_pthread_cond_broadcast nat
  | C_pthread_create nat ptr nat nat | C_spawn_thread nat nat ptr nat nat

text \<open>The handle of every initialised structure, by its address.\<close>

record locks =
  mutex_psi :: "nat \<Rightarrow> ptr option"
  rwlock_psi :: "nat \<Rightarrow> ptr option"
  prlock_psi :: "nat \<Rightarrow> ptr option"
  cond_psi :: "nat \<Rightarrow> ptr option"

type_synonym ('w, 'a) lock_cmd = "(lock_call, 'w, locks, 'a) cmd"
type_synonym 'w lock_build = "(lock_call, 'w) build"

section \<open>Frames\<close>

text \<open>Reading the handle of a structure, which only an instrumented build uses.\<close>

definition handle_of :: "'w lock_build \<Rightarrow> (locks \<Rightarrow> nat \<Rightarrow> ptr option) \<Rightarrow> nat \<Rightarrow> (ptr \<Rightarrow> ('w, 'a) lock_cmd) \<Rightarrow> ('w, 'a) lock_cmd" where
  "handle_of B table that f =
     bind look (\<lambda>l. case table l that of
       None \<Rightarrow> stop UndefinedBehaviour
     | Some p \<Rightarrow> f (if have_psi B then p else None))"

text \<open>A wait: the instrumentation may decline it when it is told of its start.\<close>

definition lock_wait ::
  "'w lock_build \<Rightarrow> ptr \<Rightarrow> (nat \<Rightarrow> wait_call) \<Rightarrow> (nat \<Rightarrow> 32 word \<Rightarrow> wait_call) \<Rightarrow> ('w, 32 word) lock_cmd \<Rightarrow> ('w, 32 word) lock_cmd" where
  "lock_wait B psi start finish call =
     (case psi of
        None \<Rightarrow> call
      | Some p \<Rightarrow>
          bind (ask B (Waiting (start p))) (\<lambda>locker.
          bind call (\<lambda>result.
          bind (tell_if True locker (\<lambda>l. Waiting (finish l result))) (\<lambda>_.
          ret result))))"

text \<open>Initialising: the handle is stored before the real lock is made. Destroying: the instrumentation is told, and the handle erased, first.\<close>

definition lock_init :: "'w lock_build \<Rightarrow> object_call \<Rightarrow> (ptr \<Rightarrow> locks \<Rightarrow> locks) \<Rightarrow> lock_call \<Rightarrow> ('w, 32 word) lock_cmd" where
  "lock_init B c store call =
     bind (if have_psi B then bind (ask B (Object c)) (\<lambda>p. put (store p)) else put (store None)) (\<lambda>_.
     sys_call (low_int B) call)"

definition lock_destroy ::
  "'w lock_build \<Rightarrow> (locks \<Rightarrow> nat \<Rightarrow> ptr option) \<Rightarrow> nat \<Rightarrow> (nat \<Rightarrow> object_call) \<Rightarrow> (ptr \<Rightarrow> locks \<Rightarrow> locks) \<Rightarrow> lock_call \<Rightarrow> ('w, 32 word) lock_cmd" where
  "lock_destroy B table that c store call =
     handle_of B table that (\<lambda>p.
     bind (case p of Some m \<Rightarrow> bind (tell (Object (c m))) (\<lambda>_. put (store None)) | None \<Rightarrow> ret ()) (\<lambda>_.
     sys_call (low_int B) call))"

definition set_mutex :: "nat \<Rightarrow> ptr \<Rightarrow> locks \<Rightarrow> locks" where
  "set_mutex that p l = l\<lparr>mutex_psi := (mutex_psi l)(that \<mapsto> p)\<rparr>"

definition set_rwlock :: "nat \<Rightarrow> ptr \<Rightarrow> locks \<Rightarrow> locks" where
  "set_rwlock that p l = l\<lparr>rwlock_psi := (rwlock_psi l)(that \<mapsto> p)\<rparr>"

definition set_prlock :: "nat \<Rightarrow> ptr \<Rightarrow> locks \<Rightarrow> locks" where
  "set_prlock that p l = l\<lparr>prlock_psi := (prlock_psi l)(that \<mapsto> p)\<rparr>"

definition set_cond :: "nat \<Rightarrow> ptr \<Rightarrow> locks \<Rightarrow> locks" where
  "set_cond that p l = l\<lparr>cond_psi := (cond_psi l)(that \<mapsto> p)\<rparr>"

section \<open>Mutexes\<close>

definition mutex_init_call :: "mutex_kind \<Rightarrow> nat \<Rightarrow> ptr \<Rightarrow> src \<Rightarrow> lock_call" where
  "mutex_init_call k that attr src =
     (case k of SAFE_MUTEX \<Rightarrow> C_safe_mutex_init that attr src
      | MY_PTHREAD_FASTMUTEX \<Rightarrow> C_my_pthread_fastmutex_init that attr
      | Pthread_mutex \<Rightarrow> C_pthread_mutex_init that attr)"

definition mutex_destroy_call :: "mutex_kind \<Rightarrow> nat \<Rightarrow> src \<Rightarrow> lock_call" where
  "mutex_destroy_call k that src =
     (case k of SAFE_MUTEX \<Rightarrow> C_safe_mutex_destroy that src
      | MY_PTHREAD_FASTMUTEX \<Rightarrow> C_pthread_mutex_destroy (Inner that)
      | Pthread_mutex \<Rightarrow> C_pthread_mutex_destroy (Whole that))"

definition mutex_lock_call :: "mutex_kind \<Rightarrow> nat \<Rightarrow> src \<Rightarrow> lock_call" where
  "mutex_lock_call k that src =
     (case k of SAFE_MUTEX \<Rightarrow> C_safe_mutex_lock that False src
      | MY_PTHREAD_FASTMUTEX \<Rightarrow> C_my_pthread_fastmutex_lock that
      | Pthread_mutex \<Rightarrow> C_pthread_mutex_lock that)"

definition mutex_trylock_call :: "mutex_kind \<Rightarrow> nat \<Rightarrow> src \<Rightarrow> lock_call" where
  "mutex_trylock_call k that src =
     (case k of SAFE_MUTEX \<Rightarrow> C_safe_mutex_lock that True src
      | MY_PTHREAD_FASTMUTEX \<Rightarrow> C_pthread_mutex_trylock (Inner that)
      | Pthread_mutex \<Rightarrow> C_pthread_mutex_trylock (Whole that))"

definition mutex_unlock_call :: "mutex_kind \<Rightarrow> nat \<Rightarrow> src \<Rightarrow> lock_call" where
  "mutex_unlock_call k that src =
     (case k of SAFE_MUTEX \<Rightarrow> C_safe_mutex_unlock that src
      | MY_PTHREAD_FASTMUTEX \<Rightarrow> C_pthread_mutex_unlock (Inner that)
      | Pthread_mutex \<Rightarrow> C_pthread_mutex_unlock (Whole that))"

definition inline_mysql_mutex_register :: "'w lock_build \<Rightarrow> string \<Rightarrow> int \<Rightarrow> ('w, unit) lock_cmd" where
  "inline_mysql_mutex_register B category num =
     (if have_psi B then tell (Registering (Register Mutexes category num)) else ret ())"

definition inline_mysql_mutex_init :: "mutex_kind \<Rightarrow> 'w lock_build \<Rightarrow> nat \<Rightarrow> nat \<Rightarrow> ptr \<Rightarrow> src \<Rightarrow> ('w, 32 word) lock_cmd" where
  "inline_mysql_mutex_init k B key that attr src =
     lock_init B (Init_mutex key that) (set_mutex that) (mutex_init_call k that attr src)"

definition inline_mysql_mutex_destroy :: "mutex_kind \<Rightarrow> 'w lock_build \<Rightarrow> nat \<Rightarrow> src \<Rightarrow> ('w, 32 word) lock_cmd" where
  "inline_mysql_mutex_destroy k B that src =
     lock_destroy B mutex_psi that Destroy_mutex (set_mutex that) (mutex_destroy_call k that src)"

definition inline_mysql_mutex_lock :: "mutex_kind \<Rightarrow> 'w lock_build \<Rightarrow> nat \<Rightarrow> src \<Rightarrow> ('w, 32 word) lock_cmd" where
  "inline_mysql_mutex_lock k B that src =
     handle_of B mutex_psi that (\<lambda>p.
     lock_wait B p (\<lambda>m. Start_mutex_wait m PSI_MUTEX_LOCK src) End_mutex_wait
       (sys_call (low_int B) (mutex_lock_call k that src)))"

definition inline_mysql_mutex_trylock :: "mutex_kind \<Rightarrow> 'w lock_build \<Rightarrow> nat \<Rightarrow> src \<Rightarrow> ('w, 32 word) lock_cmd" where
  "inline_mysql_mutex_trylock k B that src =
     handle_of B mutex_psi that (\<lambda>p.
     lock_wait B p (\<lambda>m. Start_mutex_wait m PSI_MUTEX_TRYLOCK src) End_mutex_wait
       (sys_call (low_int B) (mutex_trylock_call k that src)))"

definition inline_mysql_mutex_unlock :: "mutex_kind \<Rightarrow> 'w lock_build \<Rightarrow> nat \<Rightarrow> src \<Rightarrow> ('w, 32 word) lock_cmd" where
  "inline_mysql_mutex_unlock k B that src =
     handle_of B mutex_psi that (\<lambda>p.
     bind (tell_if True p (\<lambda>m. Notifying (Unlock_mutex m))) (\<lambda>_.
     sys_call (low_int B) (mutex_unlock_call k that src)))"

section \<open>Read-write locks\<close>

definition inline_mysql_rwlock_register :: "'w lock_build \<Rightarrow> string \<Rightarrow> int \<Rightarrow> ('w, unit) lock_cmd" where
  "inline_mysql_rwlock_register B category num =
     (if have_psi B then tell (Registering (Register Rwlocks category num)) else ret ())"

definition inline_mysql_rwlock_init :: "'w lock_build \<Rightarrow> nat \<Rightarrow> nat \<Rightarrow> ('w, 32 word) lock_cmd" where
  "inline_mysql_rwlock_init B key that = lock_init B (Init_rwlock key that) (set_rwlock that) (C_my_rwlock_init that)"

definition inline_mysql_prlock_init :: "'w lock_build \<Rightarrow> nat \<Rightarrow> nat \<Rightarrow> ('w, 32 word) lock_cmd" where
  "inline_mysql_prlock_init B key that = lock_init B (Init_rwlock key that) (set_prlock that) (C_rw_pr_init that)"

definition inline_mysql_rwlock_destroy :: "'w lock_build \<Rightarrow> nat \<Rightarrow> ('w, 32 word) lock_cmd" where
  "inline_mysql_rwlock_destroy B that = lock_destroy B rwlock_psi that Destroy_rwlock (set_rwlock that) (C_rwlock_destroy that)"

definition inline_mysql_prlock_destroy :: "'w lock_build \<Rightarrow> nat \<Rightarrow> ('w, 32 word) lock_cmd" where
  "inline_mysql_prlock_destroy B that = lock_destroy B prlock_psi that Destroy_rwlock (set_prlock that) (C_rw_pr_destroy that)"

definition inline_mysql_rwlock_rdlock :: "'w lock_build \<Rightarrow> nat \<Rightarrow> src \<Rightarrow> ('w, 32 word) lock_cmd" where
  "inline_mysql_rwlock_rdlock B that src =
     handle_of B rwlock_psi that (\<lambda>p.
     lock_wait B p (\<lambda>m. Start_rwlock_rdwait m PSI_RWLOCK_READLOCK src) End_rwlock_rdwait
       (sys_call (low_int B) (C_rw_rdlock that)))"

definition inline_mysql_prlock_rdlock :: "'w lock_build \<Rightarrow> nat \<Rightarrow> src \<Rightarrow> ('w, 32 word) lock_cmd" where
  "inline_mysql_prlock_rdlock B that src =
     handle_of B prlock_psi that (\<lambda>p.
     lock_wait B p (\<lambda>m. Start_rwlock_rdwait m PSI_RWLOCK_READLOCK src) End_rwlock_rdwait
       (sys_call (low_int B) (C_rw_pr_rdlock that)))"

definition inline_mysql_rwlock_wrlock :: "'w lock_build \<Rightarrow> nat \<Rightarrow> src \<Rightarrow> ('w, 32 word) lock_cmd" where
  "inline_mysql_rwlock_wrlock B that src =
     handle_of B rwlock_psi that (\<lambda>p.
     lock_wait B p (\<lambda>m. Start_rwlock_wrwait m PSI_RWLOCK_WRITELOCK src) End_rwlock_wrwait
       (sys_call (low_int B) (C_rw_wrlock that)))"

definition inline_mysql_prlock_wrlock :: "'w lock_build \<Rightarrow> nat \<Rightarrow> src \<Rightarrow> ('w, 32 word) lock_cmd" where
  "inline_mysql_prlock_wrlock B that src =
     handle_of B prlock_psi that (\<lambda>p.
     lock_wait B p (\<lambda>m. Start_rwlock_wrwait m PSI_RWLOCK_WRITELOCK src) End_rwlock_wrwait
       (sys_call (low_int B) (C_rw_pr_wrlock that)))"

definition inline_mysql_rwlock_tryrdlock :: "'w lock_build \<Rightarrow> nat \<Rightarrow> src \<Rightarrow> ('w, 32 word) lock_cmd" where
  "inline_mysql_rwlock_tryrdlock B that src =
     handle_of B rwlock_psi that (\<lambda>p.
     lock_wait B p (\<lambda>m. Start_rwlock_rdwait m PSI_RWLOCK_TRYREADLOCK src) End_rwlock_rdwait
       (sys_call (low_int B) (C_rw_tryrdlock that)))"

definition inline_mysql_rwlock_trywrlock :: "'w lock_build \<Rightarrow> nat \<Rightarrow> src \<Rightarrow> ('w, 32 word) lock_cmd" where
  "inline_mysql_rwlock_trywrlock B that src =
     handle_of B rwlock_psi that (\<lambda>p.
     lock_wait B p (\<lambda>m. Start_rwlock_wrwait m PSI_RWLOCK_TRYWRITELOCK src) End_rwlock_wrwait
       (sys_call (low_int B) (C_rw_trywrlock that)))"

definition inline_mysql_rwlock_unlock :: "'w lock_build \<Rightarrow> nat \<Rightarrow> ('w, 32 word) lock_cmd" where
  "inline_mysql_rwlock_unlock B that =
     handle_of B rwlock_psi that (\<lambda>p.
     bind (tell_if True p (\<lambda>m. Notifying (Unlock_rwlock m))) (\<lambda>_.
     sys_call (low_int B) (C_rw_unlock that)))"

definition inline_mysql_prlock_unlock :: "'w lock_build \<Rightarrow> nat \<Rightarrow> ('w, 32 word) lock_cmd" where
  "inline_mysql_prlock_unlock B that =
     handle_of B prlock_psi that (\<lambda>p.
     bind (tell_if True p (\<lambda>m. Notifying (Unlock_rwlock m))) (\<lambda>_.
     sys_call (low_int B) (C_rw_pr_unlock that)))"

section \<open>Conditions\<close>

definition inline_mysql_cond_register :: "'w lock_build \<Rightarrow> string \<Rightarrow> int \<Rightarrow> ('w, unit) lock_cmd" where
  "inline_mysql_cond_register B category num =
     (if have_psi B then tell (Registering (Register Conds category num)) else ret ())"

definition inline_mysql_cond_init :: "'w lock_build \<Rightarrow> nat \<Rightarrow> nat \<Rightarrow> ptr \<Rightarrow> ('w, 32 word) lock_cmd" where
  "inline_mysql_cond_init B key that attr = lock_init B (Init_cond key that) (set_cond that) (C_pthread_cond_init that attr)"

definition inline_mysql_cond_destroy :: "'w lock_build \<Rightarrow> nat \<Rightarrow> ('w, 32 word) lock_cmd" where
  "inline_mysql_cond_destroy B that = lock_destroy B cond_psi that Destroy_cond (set_cond that) (C_pthread_cond_destroy that)"

definition inline_mysql_cond_wait :: "'w lock_build \<Rightarrow> nat \<Rightarrow> nat \<Rightarrow> src \<Rightarrow> ('w, 32 word) lock_cmd" where
  "inline_mysql_cond_wait B that mutex src =
     handle_of B cond_psi that (\<lambda>p.
     handle_of B mutex_psi mutex (\<lambda>m.
     lock_wait B p (\<lambda>c. Start_cond_wait c m PSI_COND_WAIT src) End_cond_wait
       (sys_call (low_int B) (C_my_cond_wait that mutex))))"

definition inline_mysql_cond_timedwait :: "'w lock_build \<Rightarrow> nat \<Rightarrow> nat \<Rightarrow> nat \<Rightarrow> src \<Rightarrow> ('w, 32 word) lock_cmd" where
  "inline_mysql_cond_timedwait B that mutex abstime src =
     handle_of B cond_psi that (\<lambda>p.
     handle_of B mutex_psi mutex (\<lambda>m.
     lock_wait B p (\<lambda>c. Start_cond_wait c m PSI_COND_TIMEDWAIT src) End_cond_wait
       (sys_call (low_int B) (C_my_cond_timedwait that mutex abstime))))"

definition inline_mysql_cond_signal :: "'w lock_build \<Rightarrow> nat \<Rightarrow> ('w, 32 word) lock_cmd" where
  "inline_mysql_cond_signal B that =
     handle_of B cond_psi that (\<lambda>p.
     bind (tell_if True p (\<lambda>m. Notifying (Signal_cond m))) (\<lambda>_.
     sys_call (low_int B) (C_pthread_cond_signal that)))"

definition inline_mysql_cond_broadcast :: "'w lock_build \<Rightarrow> nat \<Rightarrow> ('w, 32 word) lock_cmd" where
  "inline_mysql_cond_broadcast B that =
     handle_of B cond_psi that (\<lambda>p.
     bind (tell_if True p (\<lambda>m. Notifying (Broadcast_cond m))) (\<lambda>_.
     sys_call (low_int B) (C_pthread_cond_broadcast that)))"

section \<open>Threads\<close>

definition inline_mysql_thread_register :: "'w lock_build \<Rightarrow> string \<Rightarrow> int \<Rightarrow> ('w, unit) lock_cmd" where
  "inline_mysql_thread_register B category num =
     (if have_psi B then tell (Registering (Register Threads category num)) else ret ())"

text \<open>With the interface a thread is created by the instrumentation.\<close>

definition inline_mysql_thread_create :: "'w lock_build \<Rightarrow> nat \<Rightarrow> nat \<Rightarrow> ptr \<Rightarrow> nat \<Rightarrow> nat \<Rightarrow> ('w, 32 word) lock_cmd" where
  "inline_mysql_thread_create B key thread attr start_routine arg =
     sys_call (low_int B) (C_spawn_thread key thread attr start_routine arg)"

definition mysql_thread_create :: "'w lock_build \<Rightarrow> nat \<Rightarrow> nat \<Rightarrow> ptr \<Rightarrow> nat \<Rightarrow> nat \<Rightarrow> ('w, 32 word) lock_cmd" where
  "mysql_thread_create B key thread attr start_routine arg =
     (if have_psi B then inline_mysql_thread_create B key thread attr start_routine arg
      else sys_call (low_int B) (C_pthread_create thread attr start_routine arg))"

definition inline_mysql_thread_set_psi_id :: "'w lock_build \<Rightarrow> nat \<Rightarrow> ('w, unit) lock_cmd" where
  "inline_mysql_thread_set_psi_id B thread_id =
     (if have_psi B then bind (ask B (Threading Get_thread)) (\<lambda>psi. tell (Threading (Set_thread_id psi thread_id)))
      else ret ())"

section \<open>Any request\<close>

text \<open>A request and its return code, if it has one.\<close>

datatype (plugins only: ) lock_request =
    R_mutex_register string int
  | R_mutex_init nat nat ptr src
  | R_mutex_destroy nat src
  | R_mutex_lock nat src
  | R_mutex_trylock nat src
  | R_mutex_unlock nat src
  | R_rwlock_register string int
  | R_rwlock_init nat nat
  | R_prlock_init nat nat
  | R_rwlock_destroy nat
  | R_prlock_destroy nat
  | R_rwlock_rdlock nat src
  | R_prlock_rdlock nat src
  | R_rwlock_wrlock nat src
  | R_prlock_wrlock nat src
  | R_rwlock_tryrdlock nat src
  | R_rwlock_trywrlock nat src
  | R_rwlock_unlock nat
  | R_prlock_unlock nat
  | R_cond_register string int
  | R_cond_init nat nat ptr
  | R_cond_destroy nat
  | R_cond_wait nat nat src
  | R_cond_timedwait nat nat nat src
  | R_cond_signal nat
  | R_cond_broadcast nat
  | R_thread_register string int
  | R_thread_set_psi_id nat

definition void :: "('w, unit) lock_cmd \<Rightarrow> ('w, 32 word option) lock_cmd" where
  "void m = bind m (\<lambda>_. ret None)"

definition code :: "('w, 32 word) lock_cmd \<Rightarrow> ('w, 32 word option) lock_cmd" where
  "code m = bind m (\<lambda>r. ret (Some r))"

primrec lock_step :: "mutex_kind \<Rightarrow> 'w lock_build \<Rightarrow> lock_request \<Rightarrow> ('w, 32 word option) lock_cmd" where
  "lock_step k B (R_mutex_register c n) = void (inline_mysql_mutex_register B c n)"
| "lock_step k B (R_mutex_init key that attr src) = code (inline_mysql_mutex_init k B key that attr src)"
| "lock_step k B (R_mutex_destroy that src) = code (inline_mysql_mutex_destroy k B that src)"
| "lock_step k B (R_mutex_lock that src) = code (inline_mysql_mutex_lock k B that src)"
| "lock_step k B (R_mutex_trylock that src) = code (inline_mysql_mutex_trylock k B that src)"
| "lock_step k B (R_mutex_unlock that src) = code (inline_mysql_mutex_unlock k B that src)"
| "lock_step k B (R_rwlock_register c n) = void (inline_mysql_rwlock_register B c n)"
| "lock_step k B (R_rwlock_init key that) = code (inline_mysql_rwlock_init B key that)"
| "lock_step k B (R_prlock_init key that) = code (inline_mysql_prlock_init B key that)"
| "lock_step k B (R_rwlock_destroy that) = code (inline_mysql_rwlock_destroy B that)"
| "lock_step k B (R_prlock_destroy that) = code (inline_mysql_prlock_destroy B that)"
| "lock_step k B (R_rwlock_rdlock that src) = code (inline_mysql_rwlock_rdlock B that src)"
| "lock_step k B (R_prlock_rdlock that src) = code (inline_mysql_prlock_rdlock B that src)"
| "lock_step k B (R_rwlock_wrlock that src) = code (inline_mysql_rwlock_wrlock B that src)"
| "lock_step k B (R_prlock_wrlock that src) = code (inline_mysql_prlock_wrlock B that src)"
| "lock_step k B (R_rwlock_tryrdlock that src) = code (inline_mysql_rwlock_tryrdlock B that src)"
| "lock_step k B (R_rwlock_trywrlock that src) = code (inline_mysql_rwlock_trywrlock B that src)"
| "lock_step k B (R_rwlock_unlock that) = code (inline_mysql_rwlock_unlock B that)"
| "lock_step k B (R_prlock_unlock that) = code (inline_mysql_prlock_unlock B that)"
| "lock_step k B (R_cond_register c n) = void (inline_mysql_cond_register B c n)"
| "lock_step k B (R_cond_init key that attr) = code (inline_mysql_cond_init B key that attr)"
| "lock_step k B (R_cond_destroy that) = code (inline_mysql_cond_destroy B that)"
| "lock_step k B (R_cond_wait that mutex src) = code (inline_mysql_cond_wait B that mutex src)"
| "lock_step k B (R_cond_timedwait that mutex t src) = code (inline_mysql_cond_timedwait B that mutex t src)"
| "lock_step k B (R_cond_signal that) = code (inline_mysql_cond_signal B that)"
| "lock_step k B (R_cond_broadcast that) = code (inline_mysql_cond_broadcast B that)"
| "lock_step k B (R_thread_register c n) = void (inline_mysql_thread_register B c n)"
| "lock_step k B (R_thread_set_psi_id i) = void (inline_mysql_thread_set_psi_id B i)"

section \<open>The contract\<close>

definition erase_locks :: "locks \<Rightarrow> locks" where
  "erase_locks l = \<lparr>mutex_psi = map_option (\<lambda>_. None) \<circ> mutex_psi l, rwlock_psi = map_option (\<lambda>_. None) \<circ> rwlock_psi l,
     prlock_psi = map_option (\<lambda>_. None) \<circ> prlock_psi l, cond_psi = map_option (\<lambda>_. None) \<circ> cond_psi l\<rparr>"

lemmas lock_wrapper_defs =
  inline_mysql_mutex_register_def
  inline_mysql_mutex_init_def
  inline_mysql_mutex_destroy_def
  inline_mysql_mutex_lock_def
  inline_mysql_mutex_trylock_def
  inline_mysql_mutex_unlock_def
  inline_mysql_rwlock_register_def
  inline_mysql_rwlock_init_def
  inline_mysql_prlock_init_def
  inline_mysql_rwlock_destroy_def
  inline_mysql_prlock_destroy_def
  inline_mysql_rwlock_rdlock_def
  inline_mysql_prlock_rdlock_def
  inline_mysql_rwlock_wrlock_def
  inline_mysql_prlock_wrlock_def
  inline_mysql_rwlock_tryrdlock_def
  inline_mysql_rwlock_trywrlock_def
  inline_mysql_rwlock_unlock_def
  inline_mysql_prlock_unlock_def
  inline_mysql_cond_register_def
  inline_mysql_cond_init_def
  inline_mysql_cond_destroy_def
  inline_mysql_cond_wait_def
  inline_mysql_cond_timedwait_def
  inline_mysql_cond_signal_def
  inline_mysql_cond_broadcast_def
  inline_mysql_thread_register_def
  inline_mysql_thread_set_psi_id_def

text \<open>A table of handles, which erasing empties.\<close>

definition erasable :: "(locks \<Rightarrow> nat \<Rightarrow> ptr option) \<Rightarrow> bool" where
  "erasable table \<longleftrightarrow> (\<forall>l. table (erase_locks l) = map_option (\<lambda>_. None) \<circ> table l)"

lemma erasable_tables [simp]: "erasable mutex_psi" "erasable rwlock_psi" "erasable prlock_psi" "erasable cond_psi"
  by (simp_all add: erasable_def erase_locks_def)

lemma hides_handle_of [hides_intros]:
  assumes "erasable table" and "\<And>p. hides erase_locks (f p) (f' None)"
  shows "hides erase_locks (handle_of B table that f) (handle_of (plain B) table that f')"
  unfolding handle_of_def
  by (rule hides_look) (use assms in \<open>auto simp: erasable_def hides_stop split: option.split\<close>)

lemma hides_lock_wait [hides_intros]:
  "hides e call call' \<Longrightarrow> hides e (lock_wait B p start finish call) (lock_wait B' None start' finish' call')"
  by (cases p) (auto simp: lock_wait_def intro!: hides_ask hides_finish hides_tell_if hides_ret)

lemma erase_set:
  "erase_locks (set_mutex a p l) = set_mutex a None (erase_locks l)"
  "erase_locks (set_rwlock a p l) = set_rwlock a None (erase_locks l)"
  "erase_locks (set_prlock a p l) = set_prlock a None (erase_locks l)"
  "erase_locks (set_cond a p l) = set_cond a None (erase_locks l)"
  by (simp_all add: erase_locks_def fun_eq_iff set_mutex_def set_rwlock_def set_prlock_def set_cond_def)

lemma erase_reset:
  "mutex_psi l a = Some p \<Longrightarrow> set_mutex a None (erase_locks l) = erase_locks l"
  "rwlock_psi l a = Some p \<Longrightarrow> set_rwlock a None (erase_locks l) = erase_locks l"
  "prlock_psi l a = Some p \<Longrightarrow> set_prlock a None (erase_locks l) = erase_locks l"
  "cond_psi l a = Some p \<Longrightarrow> set_cond a None (erase_locks l) = erase_locks l"
  by (simp_all add: erase_locks_def fun_eq_iff set_mutex_def set_rwlock_def set_prlock_def set_cond_def)

lemma lock_init_hides [hides_intros]:
  "(\<And>p l. erase_locks (store p l) = store None (erase_locks l)) \<Longrightarrow>
     hides erase_locks (lock_init B c store call) (lock_init (plain B) c' store call)"
  by (auto simp: lock_init_def intro!: hides_intros)

lemma lock_destroy_hides [hides_intros]:
  assumes "erasable table" and "\<And>l p. table l that = Some p \<Longrightarrow> erase_locks (store None l) = erase_locks l"
  shows "hides erase_locks (lock_destroy B table that c store call) (lock_destroy (plain B) table that c store call)"
  unfolding hides_def
  using assms by (auto simp: lock_destroy_def handle_of_def run_cmd hide_def erasable_def split: option.split)

lemma lock_step_hides: "hides erase_locks (lock_step k B r) (lock_step k (plain B) r)"
proof -
  have code: "hides erase_locks (code m) (code m')" if "hides erase_locks m m'" for m m' :: "('a, 32 word) lock_cmd"
    unfolding code_def by (rule hides_bind [OF that hides_ret])
  show ?thesis
    by (cases r; simp only: lock_step.simps lock_wrapper_defs plain_build_simps;
        (rule code)?; (intro hides_intros)?; (auto simp: void_def erase_set erase_reset intro!: hides_intros)?)
qed

lemma handle_of_moves [moves_intros]: "(\<And>p. moves B q (f p) q') \<Longrightarrow> moves B q (handle_of B t that f) q'"
  unfolding handle_of_def by (rule moves_bind [OF moves_look]) (auto intro: moves_stop split: option.split)

lemma lock_wait_moves [moves_intros]:
  assumes "\<And>p. role_of (Waiting (start p)) = Opens" and "\<And>l r. role_of (Waiting (finish l r)) = Ends l"
  shows "moves B Idle (lock_wait B p start finish (sys_call f c)) Idle"
proof (cases p)
  case None
  then show ?thesis by (simp add: lock_wait_def moves_sys_call)
next
  case (Some m)
  have "moves B (case l of None \<Rightarrow> Idle | Some l \<Rightarrow> Started l) (bind (sys_call f c) (\<lambda>result.
      bind (tell_if True l (\<lambda>l. Waiting (finish l result))) (\<lambda>_. ret result))) Idle" for l
    by (cases l) (auto simp: tell_if_def assms intro!: moves_sys_call moves_bind [OF moves_sys_call] moves_ret moves_bind [OF moves_tell])
  note timed = this
  have "role_step l Idle (role_of (Waiting (start m))) = Some (case l of None \<Rightarrow> Idle | Some l \<Rightarrow> Started l)" for l
    by (simp add: assms(1))
  then show ?thesis unfolding Some lock_wait_def option.case by (intro moves_ask exI conjI) (assumption | rule timed)+
qed

lemma lock_init_moves: "moves B Idle (lock_init B c store call) Idle"
  unfolding lock_init_def by (auto intro!: moves_bind [OF _ moves_sys_call] moves_ask moves_put)

lemma lock_destroy_moves: "moves B Idle (lock_destroy B table that c store call) Idle"
  unfolding lock_destroy_def
  by (auto intro!: handle_of_moves moves_bind [OF _ moves_sys_call] moves_bind [OF moves_tell] moves_put moves_ret split: option.split)

lemma lock_note_moves: "moves B Idle (bind (tell_if True p (\<lambda>m. Notifying (c m))) (\<lambda>_. sys_call f d)) Idle"
  by (intro moves_bind [OF moves_tell_if moves_sys_call]) simp_all

lemma thread_moves:
  "moves B Idle (tell (Registering c)) Idle"
  "moves B Idle (bind (ask B (Threading Get_thread)) (\<lambda>psi. tell (Threading (Set_thread_id psi i)))) Idle"
  by (auto intro!: moves_ask moves_tell)

lemma lock_step_moves: "moves B Idle (lock_step k B r) Idle"
proof -
  have code: "moves B Idle m Idle \<Longrightarrow> moves B Idle (code m) Idle" for m :: "('a, 32 word) lock_cmd"
    by (auto simp: code_def intro: moves_bind moves_ret)
  have void: "moves B Idle m Idle \<Longrightarrow> moves B Idle (void m) Idle" for m :: "('a, unit) lock_cmd"
    by (auto simp: void_def intro: moves_bind moves_ret)
  show ?thesis
    by (cases r; simp only: lock_step.simps lock_wrapper_defs; (rule code | rule void);
        (simp only: lock_init_moves lock_destroy_moves)?;
        (auto intro!: handle_of_moves lock_wait_moves lock_note_moves thread_moves moves_ret)?)
qed

interpretation locks: instrumentation "lock_step k" erase_locks for k
  by unfold_locales (rule lock_step_hides lock_step_moves)+

text \<open>C31: the instrumented locks are drop-in replacements. For every sequence of requests on initialised
  mutexes, read-write locks and conditions, and every instrumentation, the replies and the calls underneath are
  those of the headers compiled without it, in each of the three ways a mutex can be; and every wait
  the instrumentation follows is started, times exactly one call, and is ended once.\<close>

theorem locks_contract:
  "locks.run k (plain B) rs \<lparr>os = w, objs = erase_locks l, trace = []\<rparr> =
     bind_res (locks.run k B rs \<lparr>os = w, objs = l, trace = []\<rparr>) (\<lambda>(replies, s'). Inr (replies, hide erase_locks s')) \<and>
   (case locks.run k B rs \<lparr>os = w, objs = l, trace = []\<rparr> of
      Inl e \<Rightarrow> True
    | Inr (replies, s') \<Rightarrow> phase_after (service B) (trace s') = Some Idle)"
  by (rule locks.run_contract)

end
