(* ===== verification/Psi_Socket.thy ===== *)
theory Psi_Socket
  imports Psi
begin

text \<open>
  The instrumented sockets of \<open>mysql/psi/mysql_socket.h\<close>: a descriptor with the handle the instrumentation
  gave out for it, passed by value. The program's socket variables are the state; on Windows there is one more, the
  address of the function that disconnects a socket, looked up at the first shutdown.
\<close>

section \<open>What is underneath\<close>

type_synonym my_socket = "64 word"

definition INVALID_SOCKET :: my_socket where "INVALID_SOCKET = - 1"

record MYSQL_SOCKET =
  fd :: my_socket
  s_psi :: ptr

text \<open>Addresses and buffers are pointers; the length a call of \<open>accept\<close> is given and leaves is a local variable.\<close>

datatype (plugins only: ) net_call =
    C_socket "32 word" "32 word" "32 word" | C_bind my_socket ptr "32 word" | C_getsockname my_socket ptr ptr
  | C_connect my_socket ptr "32 word" | C_getpeername my_socket ptr ptr
  | C_send my_socket ptr size_t "32 word" | C_recv my_socket ptr size_t "32 word"
  | C_sendto my_socket ptr size_t "32 word" ptr "32 word" | C_recvfrom my_socket ptr size_t "32 word" ptr ptr
  | C_getsockopt my_socket "32 word" "32 word" ptr ptr | C_setsockopt my_socket "32 word" "32 word" ptr "32 word"
  | C_listen my_socket "32 word" | C_accept my_socket ptr "32 word" | C_closesocket my_socket
  | C_WSAIoctl my_socket | C_DisconnectEx nat my_socket | C_shutdown my_socket "32 word"

record sockets =
  vars :: "nat \<Rightarrow> MYSQL_SOCKET"
  DisconnectEx :: ptr

type_synonym ('w, 'a) net_cmd = "(net_call, 'w, sockets, 'a) cmd"

text \<open>
  What this header needs besides a build: whether it is for Windows, the length \<open>accept\<close> has left
  in the local variable, and what a pointer to a length points to.
\<close>

record 'w net_env =
  windows :: bool
  accepted_len :: "'w \<Rightarrow> 32 word"
  peek :: "nat \<Rightarrow> 'w \<Rightarrow> 32 word"

type_synonym 'w net_build = "(net_call, 'w) build"

section \<open>Helpers\<close>

definition mysql_socket_invalid :: MYSQL_SOCKET where
  "mysql_socket_invalid = \<lparr>fd = INVALID_SOCKET, s_psi = None\<rparr>"

definition mysql_socket_getfd :: "MYSQL_SOCKET \<Rightarrow> my_socket" where
  "mysql_socket_getfd mysql_socket = fd mysql_socket"

text \<open>Through a pointer to one of the program's variables.\<close>

definition mysql_socket_setfd :: "nat option \<Rightarrow> my_socket \<Rightarrow> ('w, unit) net_cmd" where
  "mysql_socket_setfd mysql_socket f =
     (case mysql_socket of
        Some v \<Rightarrow> put (\<lambda>o'. o'\<lparr>vars := (vars o')(v := (vars o' v)\<lparr>fd := f\<rparr>)\<rparr>)
      | None \<Rightarrow> ret ())"

definition mysql_socket_set_address :: "'w net_build \<Rightarrow> MYSQL_SOCKET \<Rightarrow> ptr \<Rightarrow> 32 word \<Rightarrow> ('w, unit) net_cmd" where
  "mysql_socket_set_address B socket addr addr_len =
     tell_if (have_psi B) (s_psi socket) (\<lambda>p. Socketing (Set_socket_info p addr (uint addr_len)))"

definition mysql_socket_set_thread_owner :: "'w net_build \<Rightarrow> MYSQL_SOCKET \<Rightarrow> ('w, unit) net_cmd" where
  "mysql_socket_set_thread_owner B socket =
     tell_if (have_psi B) (s_psi socket) (\<lambda>p. Socketing (Set_socket_thread_owner p))"

definition inline_mysql_start_socket_wait ::
  "'w net_build \<Rightarrow> MYSQL_SOCKET \<Rightarrow> PSI_socket_operation \<Rightarrow> size_t \<Rightarrow> src \<Rightarrow> ('w, ptr) net_cmd" where
  "inline_mysql_start_socket_wait B mysql_socket op byte_count src =
     (case s_psi mysql_socket of
        Some p \<Rightarrow> ask B (Socketing (Start_socket_wait p op byte_count src))
      | None \<Rightarrow> ret None)"

definition inline_mysql_end_socket_wait :: "ptr \<Rightarrow> size_t \<Rightarrow> ('w, unit) net_cmd" where
  "inline_mysql_end_socket_wait locker byte_count = tell_if True locker (\<lambda>l. Socketing (End_socket_wait l byte_count))"

definition inline_mysql_socket_set_state :: "MYSQL_SOCKET \<Rightarrow> PSI_socket_state \<Rightarrow> ('w, unit) net_cmd" where
  "inline_mysql_socket_set_state socket state = tell_if True (s_psi socket) (\<lambda>p. Socketing (Set_socket_state p state))"

definition MYSQL_SOCKET_SET_STATE :: "'w net_build \<Rightarrow> MYSQL_SOCKET \<Rightarrow> PSI_socket_state \<Rightarrow> ('w, unit) net_cmd" where
  "MYSQL_SOCKET_SET_STATE B socket state = (if have_psi B then inline_mysql_socket_set_state socket state else ret ())"

section \<open>Frames\<close>

text \<open>
  A wrapper's body: an instrumented socket's call between start and end, with what is reported in between and as
  moved; otherwise the call alone.
\<close>

definition socket_wait ::
  "'w net_build \<Rightarrow> MYSQL_SOCKET \<Rightarrow> PSI_socket_operation \<Rightarrow> size_t \<Rightarrow> src \<Rightarrow> ('w, 'a) net_cmd \<Rightarrow>
     (nat \<Rightarrow> 'a \<Rightarrow> ('w, unit) net_cmd) \<Rightarrow> ('a \<Rightarrow> size_t) \<Rightarrow> ('w, 'a) net_cmd" where
  "socket_wait B mysql_socket op nbytes src call between used =
     (case (if have_psi B then s_psi mysql_socket else None) of
        None \<Rightarrow> call
      | Some p \<Rightarrow>
          bind (ask B (Socketing (Start_socket_wait p op nbytes src))) (\<lambda>locker.
          bind call (\<lambda>result.
          bind (between p result) (\<lambda>_.
          bind (tell_if True locker (\<lambda>l. Socketing (End_socket_wait l (used result)))) (\<lambda>_.
          ret result)))))"

abbreviation nothing :: "nat \<Rightarrow> 'a \<Rightarrow> ('w, unit) net_cmd" where
  "nothing \<equiv> \<lambda>_ _. ret ()"

text \<open>What a send or a receive reports as moved, and the length it passes on: on Windows it is cut to an \<open>int\<close>.\<close>

definition bytes_used :: "size_t \<Rightarrow> size_t" where
  "bytes_used result = (if sint result > - 1 then result else 0)"

definition if_win_int :: "'w net_env \<Rightarrow> size_t \<Rightarrow> size_t" where
  "if_win_int N n = (if windows N then scast (ucast n :: 32 word) else n)"

section \<open>The wrappers\<close>

definition inline_mysql_socket_register :: "'w net_build \<Rightarrow> string \<Rightarrow> int \<Rightarrow> ('w, unit) net_cmd" where
  "inline_mysql_socket_register B category num =
     (if have_psi B then tell (Registering (Register Sockets category num)) else ret ())"

text \<open>A new descriptor gets a handle.\<close>

definition init_handle :: "'w net_build \<Rightarrow> nat \<Rightarrow> my_socket \<Rightarrow> ptr \<Rightarrow> 32 word \<Rightarrow> ('w, MYSQL_SOCKET) net_cmd" where
  "init_handle B key f addr addr_len =
     (if have_psi B \<and> f \<noteq> INVALID_SOCKET
      then bind (ask B (Object (Init_socket key f addr (uint addr_len)))) (\<lambda>p. ret \<lparr>fd = f, s_psi = p\<rparr>)
      else ret \<lparr>fd = f, s_psi = None\<rparr>)"

definition inline_mysql_socket_socket :: "'w net_build \<Rightarrow> nat \<Rightarrow> 32 word \<Rightarrow> 32 word \<Rightarrow> 32 word \<Rightarrow> ('w, MYSQL_SOCKET) net_cmd" where
  "inline_mysql_socket_socket B key domain type protocol =
     bind (sys_call (low_size B) (C_socket domain type protocol)) (\<lambda>f. init_handle B key f None 0)"

definition inline_mysql_socket_bind :: "'w net_build \<Rightarrow> src \<Rightarrow> MYSQL_SOCKET \<Rightarrow> ptr \<Rightarrow> 32 word \<Rightarrow> ('w, 32 word) net_cmd" where
  "inline_mysql_socket_bind B src mysql_socket addr len =
     socket_wait B mysql_socket PSI_SOCKET_BIND 0 src (sys_call (low_int B) (C_bind (fd mysql_socket) addr len))
       (\<lambda>p result. if result = 0 then tell (Socketing (Set_socket_info p addr (uint len))) else ret ()) (\<lambda>_. 0)"

definition inline_mysql_socket_getsockname ::
  "'w net_build \<Rightarrow> src \<Rightarrow> MYSQL_SOCKET \<Rightarrow> ptr \<Rightarrow> ptr \<Rightarrow> ('w, 32 word) net_cmd" where
  "inline_mysql_socket_getsockname B src mysql_socket addr len =
     socket_wait B mysql_socket PSI_SOCKET_BIND 0 src (sys_call (low_int B) (C_getsockname (fd mysql_socket) addr len))
       nothing (\<lambda>_. 0)"

definition inline_mysql_socket_connect ::
  "'w net_build \<Rightarrow> src \<Rightarrow> MYSQL_SOCKET \<Rightarrow> ptr \<Rightarrow> 32 word \<Rightarrow> ('w, 32 word) net_cmd" where
  "inline_mysql_socket_connect B src mysql_socket addr len =
     socket_wait B mysql_socket PSI_SOCKET_CONNECT 0 src (sys_call (low_int B) (C_connect (fd mysql_socket) addr len))
       nothing (\<lambda>_. 0)"

definition inline_mysql_socket_getpeername ::
  "'w net_build \<Rightarrow> src \<Rightarrow> MYSQL_SOCKET \<Rightarrow> ptr \<Rightarrow> ptr \<Rightarrow> ('w, 32 word) net_cmd" where
  "inline_mysql_socket_getpeername B src mysql_socket addr len =
     socket_wait B mysql_socket PSI_SOCKET_BIND 0 src (sys_call (low_int B) (C_getpeername (fd mysql_socket) addr len))
       nothing (\<lambda>_. 0)"

definition inline_mysql_socket_send ::
  "'w net_env \<Rightarrow> 'w net_build \<Rightarrow> src \<Rightarrow> MYSQL_SOCKET \<Rightarrow> ptr \<Rightarrow> size_t \<Rightarrow> 32 word \<Rightarrow> ('w, size_t) net_cmd" where
  "inline_mysql_socket_send N B src mysql_socket buf n flags =
     socket_wait B mysql_socket PSI_SOCKET_SEND n src (sys_call (low_size B) (C_send (fd mysql_socket) buf (if_win_int N n) flags))
       nothing bytes_used"

definition inline_mysql_socket_recv ::
  "'w net_env \<Rightarrow> 'w net_build \<Rightarrow> src \<Rightarrow> MYSQL_SOCKET \<Rightarrow> ptr \<Rightarrow> size_t \<Rightarrow> 32 word \<Rightarrow> ('w, size_t) net_cmd" where
  "inline_mysql_socket_recv N B src mysql_socket buf n flags =
     socket_wait B mysql_socket PSI_SOCKET_RECV 0 src (sys_call (low_size B) (C_recv (fd mysql_socket) buf (if_win_int N n) flags))
       nothing bytes_used"

definition inline_mysql_socket_sendto ::
  "'w net_env \<Rightarrow> 'w net_build \<Rightarrow> src \<Rightarrow> MYSQL_SOCKET \<Rightarrow> ptr \<Rightarrow> size_t \<Rightarrow> 32 word \<Rightarrow> ptr \<Rightarrow> 32 word \<Rightarrow> ('w, size_t) net_cmd" where
  "inline_mysql_socket_sendto N B src mysql_socket buf n flags addr addr_len =
     socket_wait B mysql_socket PSI_SOCKET_SEND n src (sys_call (low_size B) (C_sendto (fd mysql_socket) buf (if_win_int N n) flags addr addr_len))
       nothing bytes_used"

definition inline_mysql_socket_recvfrom ::
  "'w net_env \<Rightarrow> 'w net_build \<Rightarrow> src \<Rightarrow> MYSQL_SOCKET \<Rightarrow> ptr \<Rightarrow> size_t \<Rightarrow> 32 word \<Rightarrow> ptr \<Rightarrow> ptr \<Rightarrow> ('w, size_t) net_cmd" where
  "inline_mysql_socket_recvfrom N B src mysql_socket buf n flags addr addr_len =
     socket_wait B mysql_socket PSI_SOCKET_RECV 0 src (sys_call (low_size B) (C_recvfrom (fd mysql_socket) buf (if_win_int N n) flags addr addr_len))
       nothing bytes_used"

definition inline_mysql_socket_getsockopt ::
  "'w net_build \<Rightarrow> src \<Rightarrow> MYSQL_SOCKET \<Rightarrow> 32 word \<Rightarrow> 32 word \<Rightarrow> ptr \<Rightarrow> ptr \<Rightarrow> ('w, 32 word) net_cmd" where
  "inline_mysql_socket_getsockopt B src mysql_socket level optname optval optlen =
     socket_wait B mysql_socket PSI_SOCKET_OPT 0 src (sys_call (low_int B) (C_getsockopt (fd mysql_socket) level optname optval optlen))
       nothing (\<lambda>_. 0)"

definition inline_mysql_socket_setsockopt ::
  "'w net_build \<Rightarrow> src \<Rightarrow> MYSQL_SOCKET \<Rightarrow> 32 word \<Rightarrow> 32 word \<Rightarrow> ptr \<Rightarrow> 32 word \<Rightarrow> ('w, 32 word) net_cmd" where
  "inline_mysql_socket_setsockopt B src mysql_socket level optname optval optlen =
     socket_wait B mysql_socket PSI_SOCKET_OPT 0 src (sys_call (low_int B) (C_setsockopt (fd mysql_socket) level optname optval optlen))
       nothing (\<lambda>_. 0)"

definition inline_mysql_socket_listen ::
  "'w net_build \<Rightarrow> src \<Rightarrow> MYSQL_SOCKET \<Rightarrow> 32 word \<Rightarrow> ('w, 32 word) net_cmd" where
  "inline_mysql_socket_listen B src mysql_socket backlog =
     socket_wait B mysql_socket PSI_SOCKET_CONNECT 0 src (sys_call (low_int B) (C_listen (fd mysql_socket) backlog))
       nothing (\<lambda>_. 0)"

text \<open>The length passed to \<open>accept\<close> is a local variable's; the caller's is only read.\<close>

definition inline_mysql_socket_accept ::
  "'w net_env \<Rightarrow> 'w net_build \<Rightarrow> src \<Rightarrow> nat \<Rightarrow> MYSQL_SOCKET \<Rightarrow> ptr \<Rightarrow> ptr \<Rightarrow> ('w, MYSQL_SOCKET) net_cmd" where
  "inline_mysql_socket_accept N B src key socket_listen addr addr_len =
     with_os (\<lambda>w.
     let addr_length = (case addr_len of Some p \<Rightarrow> peek N p w | None \<Rightarrow> 0)
     in bind (socket_wait B socket_listen PSI_SOCKET_CONNECT 0 src
               (sys_call (low_size B) (C_accept (fd socket_listen) addr addr_length)) nothing (\<lambda>_. 0)) (\<lambda>f.
        with_os (\<lambda>w. init_handle B key f addr (accepted_len N w))))"

definition inline_mysql_socket_close :: "'w net_build \<Rightarrow> src \<Rightarrow> MYSQL_SOCKET \<Rightarrow> ('w, 32 word) net_cmd" where
  "inline_mysql_socket_close B src mysql_socket =
     bind (socket_wait B mysql_socket PSI_SOCKET_CLOSE 0 src (sys_call (low_int B) (C_closesocket (fd mysql_socket)))
       nothing (\<lambda>_. 0)) (\<lambda>result.
     bind (tell_if (have_psi B) (s_psi mysql_socket) (\<lambda>p. Object (Destroy_socket p))) (\<lambda>_.
     ret result))"

definition find_DisconnectEx :: "'w net_env \<Rightarrow> 'w net_build \<Rightarrow> MYSQL_SOCKET \<Rightarrow> ('w, ptr) net_cmd" where
  "find_DisconnectEx N B mysql_socket =
     (if windows N then
        bind look (\<lambda>o'.
        case DisconnectEx o' of
          Some d \<Rightarrow> ret (Some d)
        | None \<Rightarrow>
            bind (sys_call (low_ptr B) (C_WSAIoctl (fd mysql_socket))) (\<lambda>d.
            bind (put (\<lambda>o'. o'\<lparr>DisconnectEx := d\<rparr>)) (\<lambda>_. ret d)))
      else ret None)"

definition shutdown_call :: "'w net_build \<Rightarrow> ptr \<Rightarrow> MYSQL_SOCKET \<Rightarrow> 32 word \<Rightarrow> ('w, 32 word) net_cmd" where
  "shutdown_call B d mysql_socket how =
     (case d of
        Some p \<Rightarrow> sys_call (\<lambda>c w. case low_int B c w of (r, w') \<Rightarrow> (if r = 1 then 0 else - 1, w')) (C_DisconnectEx p (fd mysql_socket))
      | None \<Rightarrow> sys_call (low_int B) (C_shutdown (fd mysql_socket) how))"

definition inline_mysql_socket_shutdown ::
  "'w net_env \<Rightarrow> 'w net_build \<Rightarrow> src \<Rightarrow> MYSQL_SOCKET \<Rightarrow> 32 word \<Rightarrow> ('w, 32 word) net_cmd" where
  "inline_mysql_socket_shutdown N B src mysql_socket how =
     bind (find_DisconnectEx N B mysql_socket) (\<lambda>d.
     socket_wait B mysql_socket PSI_SOCKET_SHUTDOWN 0 src (shutdown_call B d mysql_socket how) nothing (\<lambda>_. 0))"

section \<open>Any request\<close>

text \<open>Requests name the program's variables; a new socket is stored in one.\<close>

datatype (plugins only: ) net_request =
    R_register string int | R_setfd "nat option" my_socket | R_set_address nat ptr "32 word" | R_set_thread_owner nat
  | R_set_state nat PSI_socket_state
  | R_socket nat nat "32 word" "32 word" "32 word" | R_bind src nat ptr "32 word" | R_getsockname src nat ptr ptr
  | R_connect src nat ptr "32 word" | R_getpeername src nat ptr ptr | R_send src nat ptr size_t "32 word"
  | R_recv src nat ptr size_t "32 word" | R_sendto src nat ptr size_t "32 word" ptr "32 word"
  | R_recvfrom src nat ptr size_t "32 word" ptr ptr | R_getsockopt src nat "32 word" "32 word" ptr ptr
  | R_setsockopt src nat "32 word" "32 word" ptr "32 word" | R_listen src nat "32 word"
  | R_accept nat src nat nat ptr ptr | R_close src nat | R_shutdown src nat "32 word"

text \<open>A reply is the number returned, if there is one.\<close>

definition store :: "nat \<Rightarrow> ('w, MYSQL_SOCKET) net_cmd \<Rightarrow> ('w, 64 word option) net_cmd" where
  "store v m = bind m (\<lambda>k. bind (put (\<lambda>o'. o'\<lparr>vars := (vars o')(v := k)\<rparr>)) (\<lambda>_. ret (Some (fd k))))"

definition on_var :: "nat \<Rightarrow> (MYSQL_SOCKET \<Rightarrow> ('w, 'a) net_cmd) \<Rightarrow> ('a \<Rightarrow> 64 word option) \<Rightarrow> ('w, 64 word option) net_cmd" where
  "on_var v f r = bind look (\<lambda>o'. bind (f (vars o' v)) (\<lambda>a. ret (r a)))"

primrec net_step :: "'w net_env \<Rightarrow> 'w net_build \<Rightarrow> net_request \<Rightarrow> ('w, 64 word option) net_cmd" where
  "net_step N B (R_register c n) = bind (inline_mysql_socket_register B c n) (\<lambda>_. ret None)"
| "net_step N B (R_setfd p f) = bind (mysql_socket_setfd p f) (\<lambda>_. ret None)"
| "net_step N B (R_set_address v addr len) = on_var v (\<lambda>k. mysql_socket_set_address B k addr len) (\<lambda>_. None)"
| "net_step N B (R_set_thread_owner v) = on_var v (mysql_socket_set_thread_owner B) (\<lambda>_. None)"
| "net_step N B (R_set_state v st) = on_var v (\<lambda>k. MYSQL_SOCKET_SET_STATE B k st) (\<lambda>_. None)"
| "net_step N B (R_socket v key domain type protocol) = store v (inline_mysql_socket_socket B key domain type protocol)"
| "net_step N B (R_bind src v addr len) = on_var v (\<lambda>k. inline_mysql_socket_bind B src k addr len) (\<lambda>r. Some (scast r))"
| "net_step N B (R_getsockname src v addr len) = on_var v (\<lambda>k. inline_mysql_socket_getsockname B src k addr len) (\<lambda>r. Some (scast r))"
| "net_step N B (R_connect src v addr len) = on_var v (\<lambda>k. inline_mysql_socket_connect B src k addr len) (\<lambda>r. Some (scast r))"
| "net_step N B (R_getpeername src v addr len) = on_var v (\<lambda>k. inline_mysql_socket_getpeername B src k addr len) (\<lambda>r. Some (scast r))"
| "net_step N B (R_send src v buf n flags) = on_var v (\<lambda>k. inline_mysql_socket_send N B src k buf n flags) Some"
| "net_step N B (R_recv src v buf n flags) = on_var v (\<lambda>k. inline_mysql_socket_recv N B src k buf n flags) Some"
| "net_step N B (R_sendto src v buf n flags addr len) = on_var v (\<lambda>k. inline_mysql_socket_sendto N B src k buf n flags addr len) Some"
| "net_step N B (R_recvfrom src v buf n flags addr len) = on_var v (\<lambda>k. inline_mysql_socket_recvfrom N B src k buf n flags addr len) Some"
| "net_step N B (R_getsockopt src v l opt val len) = on_var v (\<lambda>k. inline_mysql_socket_getsockopt B src k l opt val len) (\<lambda>r. Some (scast r))"
| "net_step N B (R_setsockopt src v l opt val len) = on_var v (\<lambda>k. inline_mysql_socket_setsockopt B src k l opt val len) (\<lambda>r. Some (scast r))"
| "net_step N B (R_listen src v backlog) = on_var v (\<lambda>k. inline_mysql_socket_listen B src k backlog) (\<lambda>r. Some (scast r))"
| "net_step N B (R_accept u src key v addr len) =
     bind look (\<lambda>o'. store u (inline_mysql_socket_accept N B src key (vars o' v) addr len))"
| "net_step N B (R_close src v) = on_var v (inline_mysql_socket_close B src) (\<lambda>r. Some (scast r))"
| "net_step N B (R_shutdown src v how) = on_var v (\<lambda>k. inline_mysql_socket_shutdown N B src k how) (\<lambda>r. Some (scast r))"

section \<open>The contract\<close>

definition bare :: "MYSQL_SOCKET \<Rightarrow> MYSQL_SOCKET" where
  "bare k = k\<lparr>s_psi := None\<rparr>"

definition erase_sockets :: "sockets \<Rightarrow> sockets" where
  "erase_sockets o' = o'\<lparr>vars := bare \<circ> vars o'\<rparr>"

lemma bare_simps [simp]: "fd (bare k) = fd k" "s_psi (bare k) = None"
  by (simp_all add: bare_def)

lemma hides_socket_wait [hides_intros]:
  assumes "hides e call call'" and "\<And>p r. hides e (between p r) (ret ())"
  shows "hides e (socket_wait B k op n src call between used) (socket_wait (plain B) k' op' n' src' call' between' used')"
proof -
  have "hides e (bind (ask B c) (\<lambda>locker. bind call (\<lambda>result. bind (between p result) (\<lambda>_.
      bind (tell_if True locker (\<lambda>l. Socketing (End_socket_wait l (used result)))) (\<lambda>_. ret result))))) call'" for c p
    by (intro hides_ask hides_finish [OF assms(1)] hides_drop [OF assms(2)] hides_tell_if hides_ret)
  then show ?thesis using assms(1) by (simp add: socket_wait_def split: option.split)
qed

lemmas net_wrapper_defs = inline_mysql_socket_getsockname_def inline_mysql_socket_connect_def inline_mysql_socket_getpeername_def
  inline_mysql_socket_send_def inline_mysql_socket_recv_def inline_mysql_socket_sendto_def inline_mysql_socket_recvfrom_def
  inline_mysql_socket_getsockopt_def inline_mysql_socket_setsockopt_def inline_mysql_socket_listen_def inline_mysql_socket_bind_def

lemma hides_tell_if_last [hides_intros]: "hides e (tell_if b p c) (ret ())"
  using hides_tell_if [of e ret "ret ()" b p c] by (simp add: hides_ret)

lemma hides_tell_last [hides_intros]: "hides e (tell c) (ret ())"
  using hides_tell [of e ret "ret ()" c] by (simp add: hides_ret)

text \<open>A new socket is compared without its handle.\<close>

lemma hides_store:
  "hides erase_sockets (bind m (\<lambda>k. ret (bare k))) m' \<Longrightarrow> hides erase_sockets (store v m) (store v m')"
  unfolding hides_def store_def
  by (auto simp: bind_def ret_def put_def bind_res_def hide_def erase_sockets_def bare_def fun_eq_iff split: sum.splits prod.splits)

lemma hides_init_handle:
  "hides e (bind (init_handle B key d addr n) (\<lambda>k. ret (bare k))) (init_handle (plain B) key d addr n)"
  by (auto simp: init_handle_def bare_def intro!: hides_ask hides_ret)

lemma hides_on_var [hides_intros]:
  "(\<And>k. hides erase_sockets (f k) (f' (bare k))) \<Longrightarrow> hides erase_sockets (on_var v f r) (on_var v f' r)"
  unfolding on_var_def by (intro hides_look hides_bind hides_ret) (simp add: erase_sockets_def)

lemma accept_hides:
  "hides erase_sockets (store u (inline_mysql_socket_accept N B src key k addr len))
     (store u (inline_mysql_socket_accept N (plain B) src key (bare k) addr len))"
  by (rule hides_store)
    (auto simp: inline_mysql_socket_accept_def bind_with_os
      intro!: hides_with_os hides_bind [OF hides_socket_wait] hides_sys_call hides_ret hides_init_handle)

lemma find_hides:
  "(\<And>d. hides erase_sockets (f d) (f' d)) \<Longrightarrow>
     hides erase_sockets (bind (find_DisconnectEx N B k) f) (bind (find_DisconnectEx N (plain B) (bare k)) f')"
  by (rule hides_bind)
    (auto simp: find_DisconnectEx_def erase_sockets_def intro!: hides_intros split: option.split)

lemma net_step_hides: "hides erase_sockets (net_step N B r) (net_step N (plain B) r)"
proof (cases r)
  case (R_socket v key domain type protocol)
  then show ?thesis
    by (auto simp: inline_mysql_socket_socket_def intro!: hides_store hides_bind_sys_call hides_init_handle)
next
  case (R_accept u src key v addr len)
  show ?thesis unfolding R_accept net_step.simps
    by (rule hides_look) (use accept_hides in \<open>simp add: erase_sockets_def\<close>)
next
  case (R_close src v)
  then show ?thesis
    by (auto simp: inline_mysql_socket_close_def intro!: hides_on_var hides_finish [OF hides_socket_wait] hides_sys_call hides_ret hides_tell_if)
next
  case (R_shutdown src v how)
  have "hides erase_sockets (shutdown_call B d k how) (shutdown_call (plain B) d (bare k) how)" for d k
    by (auto simp: shutdown_call_def intro!: hides_intros split: option.split)
  with R_shutdown show ?thesis
    by (auto simp: inline_mysql_socket_shutdown_def intro!: hides_on_var find_hides hides_socket_wait hides_ret)
qed (auto simp: net_wrapper_defs inline_mysql_socket_register_def mysql_socket_setfd_def mysql_socket_set_address_def
    mysql_socket_set_thread_owner_def MYSQL_SOCKET_SET_STATE_def inline_mysql_socket_set_state_def
    erase_sockets_def fun_eq_iff bare_def intro!: hides_intros hides_bind split: option.split)

text \<open>A call that is one call underneath, and a report that neither opens nor ends anything.\<close>

definition one_call :: "'w net_build \<Rightarrow> ('w, 'a) net_cmd \<Rightarrow> bool" where
  "one_call B m \<longleftrightarrow> (\<forall>p q. call_step p = Some q \<longrightarrow> moves B p m q)"

definition reports :: "'w net_build \<Rightarrow> ('w, unit) net_cmd \<Rightarrow> bool" where
  "reports B m \<longleftrightarrow> moves B Idle m Idle \<and> (\<forall>l. moves B (Called l) m (Called l))"

lemma one_call_sys_call [simp]: "one_call B (sys_call f c)"
  by (simp add: one_call_def moves_sys_call)

lemma one_call_shutdown [simp]: "one_call B (shutdown_call B d k how)"
  by (simp add: shutdown_call_def split: option.split)

lemma reports_simps [simp]:
  "reports B (ret ())" "role_of c = Notes \<Longrightarrow> reports B (tell c)"
  by (simp_all add: reports_def moves_ret moves_tell)

lemma socket_wait_moves:
  assumes "one_call B call" and "\<And>p r. reports B (between p r)"
  shows "moves B Idle (socket_wait B k op n src call between used) Idle"
proof -
  have c: "moves B Idle call Idle" "moves B (Started l) call (Called l)" for l
    using assms(1) by (simp_all add: one_call_def)
  have "moves B (case l of None \<Rightarrow> Idle | Some l \<Rightarrow> Started l) (bind call (\<lambda>result.
      bind (between p result) (\<lambda>_. bind (tell_if True l (\<lambda>l. Socketing (End_socket_wait l (used result)))) (\<lambda>_. ret result)))) Idle" for l p
  proof (cases l)
    case None
    then show ?thesis using c(1) assms(2) by (auto simp: reports_def intro: moves_bind moves_ret)
  next
    case (Some h)
    have "moves B (Called h) (tell_if True l (\<lambda>l. Socketing (End_socket_wait l u))) Idle" for u
      unfolding Some tell_if_def by (simp add: moves_tell)
    moreover have "moves B (Called h) (between p r) (Called h)" for r using assms(2) by (simp add: reports_def)
    ultimately show ?thesis using c(2) [of h] Some by (auto intro: moves_bind moves_ret)
  qed
  moreover have "role_step l Idle (role_of (Socketing (Start_socket_wait p op n src))) = Some (case l of None \<Rightarrow> Idle | Some l \<Rightarrow> Started l)" for l p
    by simp
  ultimately have "moves B Idle (bind (ask B (Socketing (Start_socket_wait p op n src))) (\<lambda>l. bind call (\<lambda>result.
      bind (between p result) (\<lambda>_. bind (tell_if True l (\<lambda>l. Socketing (End_socket_wait l (used result)))) (\<lambda>_. ret result))))) Idle" for p
    by (intro moves_ask) blast
  with c(1) show ?thesis by (simp add: socket_wait_def split: option.split)
qed

lemma init_handle_moves: "moves B Idle (init_handle B key f addr n) Idle"
  by (auto simp: init_handle_def intro!: moves_ask moves_ret)

lemma store_moves: "moves B Idle m Idle \<Longrightarrow> moves B Idle (store v m) Idle"
  unfolding store_def by (intro moves_bind [OF _ moves_bind [OF moves_put moves_ret]])

lemma on_var_moves: "(\<And>k. moves B Idle (f k) Idle) \<Longrightarrow> moves B Idle (on_var v f r) Idle"
  unfolding on_var_def by (intro moves_bind [OF moves_look moves_bind [OF _ moves_ret]])

lemma find_moves: "moves B Idle (find_DisconnectEx N B k) Idle"
  by (auto simp: find_DisconnectEx_def intro!: moves_bind [OF moves_look] moves_bind [OF moves_sys_call] moves_bind [OF moves_put] moves_ret
      split: option.split)

lemma net_step_moves: "moves B Idle (net_step N B r) Idle"
proof (cases r)
  case (R_socket v key domain type protocol)
  then show ?thesis
    by (auto simp: inline_mysql_socket_socket_def intro!: store_moves moves_bind [OF moves_sys_call] init_handle_moves)
next
  case (R_accept u src key v addr len)
  have "moves B Idle (inline_mysql_socket_accept N B src key k addr len) Idle" for k
    by (auto simp: inline_mysql_socket_accept_def intro!: moves_with_os moves_bind [OF socket_wait_moves] init_handle_moves)
  with R_accept show ?thesis by (auto intro!: moves_bind [OF moves_look] store_moves)
next
  case (R_close src v)
  have "moves B Idle (inline_mysql_socket_close B src k) Idle" for k
    unfolding inline_mysql_socket_close_def
    by (intro moves_bind [OF socket_wait_moves] moves_bind [OF moves_tell_if] moves_ret) simp_all
  with R_close show ?thesis by (auto intro: on_var_moves)
next
  case (R_shutdown src v how)
  have "moves B Idle (inline_mysql_socket_shutdown N B src k how) Idle" for k
    unfolding inline_mysql_socket_shutdown_def
    by (intro moves_bind [OF find_moves] socket_wait_moves) simp_all
  with R_shutdown show ?thesis by (auto intro: on_var_moves)
next
  case (R_bind src v addr len)
  then show ?thesis by (auto simp: inline_mysql_socket_bind_def intro!: on_var_moves socket_wait_moves)
qed (auto simp: net_wrapper_defs inline_mysql_socket_register_def mysql_socket_setfd_def mysql_socket_set_address_def
    mysql_socket_set_thread_owner_def MYSQL_SOCKET_SET_STATE_def inline_mysql_socket_set_state_def
    intro!: on_var_moves socket_wait_moves moves_tell_if moves_tell moves_ret moves_bind [OF _ moves_ret] moves_put split: option.split)

interpretation nets: instrumentation "net_step N" erase_sockets for N
  by unfold_locales (rule net_step_hides net_step_moves)+

text \<open>C32: the instrumented sockets are drop-in replacements. For every sequence of requests on the program's socket
  variables, on Windows and elsewhere, and every instrumentation, the numbers returned, the descriptors stored and
  the calls underneath are those of the headers compiled without it; and every wait the instrumentation
  follows is started, times exactly one call, and is ended once.\<close>

theorem sockets_contract:
  "nets.run N (plain B) rs \<lparr>os = w, objs = erase_sockets k, trace = []\<rparr> =
     bind_res (nets.run N B rs \<lparr>os = w, objs = k, trace = []\<rparr>) (\<lambda>(replies, s'). Inr (replies, hide erase_sockets s')) \<and>
   (case nets.run N B rs \<lparr>os = w, objs = k, trace = []\<rparr> of
      Inl e \<Rightarrow> True
    | Inr (replies, s') \<Rightarrow> phase_after (service B) (trace s') = Some Idle)"
  by (rule nets.run_contract)

section \<open>Where they are not\<close>

text \<open>
  \<open>accept\<close> leaves the length of the peer's address where its third argument points; the wrapper gives it a local variable
  and does not copy it back. What happens does not depend on where the caller's pointer points, only on the number it finds there.
\<close>

theorem accept_length_not_returned:
  assumes "peek N p (os s) = peek N q (os s)"
  shows "inline_mysql_socket_accept N B src key k addr (Some p) s = inline_mysql_socket_accept N B src key k addr (Some q) s"
  using assms by (simp add: inline_mysql_socket_accept_def with_os_def)

text \<open>On Windows, once the function has been found, a shutdown does not depend on which directions are to be shut.\<close>

theorem shutdown_ignores_direction:
  assumes "windows N" and "DisconnectEx (objs s) = Some d"
  shows "inline_mysql_socket_shutdown N B src k how s = inline_mysql_socket_shutdown N B src k how' s"
  using assms by (simp add: inline_mysql_socket_shutdown_def find_DisconnectEx_def shutdown_call_def run_cmd)

text \<open>A buffer of 2 GB or more has a negative length there.\<close>

lemma windows_length_cut:
  "windows N \<Longrightarrow> if_win_int N 0x80000000 = - 0x80000000" "\<not> windows N \<Longrightarrow> if_win_int N n = n"
  by (simp_all add: if_win_int_def)

end
