(* ===== verification/Psi_Server.thy ===== *)
theory Psi_Server
  imports Psi
begin

text \<open>
  The wrappers around what only a server does: statements and their digests (\<open>mysql/psi/mysql_statement.h\<close>),
  stages (\<open>mysql_stage.h\<close>), waits for tables (\<open>mysql_table.h\<close>) and idle waits (\<open>mysql_idle.h\<close>). Other than the
  wrappers of files, locks and sockets, which keep their lockers to themselves, most of these give their locker to
  the caller, who passes it on to the next one: waits of other kinds happen in between.
\<close>

section \<open>State\<close>

text \<open>The variables in which the caller keeps lockers. What is underneath is the caller's own code, by number.\<close>

record lockers =
  statements :: "nat \<Rightarrow> ptr"
  digests :: "nat \<Rightarrow> ptr"
  tables :: "nat \<Rightarrow> ptr"
  idles :: "nat \<Rightarrow> ptr"

datatype payload = Payload nat

type_synonym ('w, 'a) server_cmd = "(payload, 'w, lockers, 'a) cmd"
type_synonym 'w server_build = "(payload, 'w) build"

section \<open>Stages\<close>

definition inline_mysql_stage_register :: "string \<Rightarrow> int \<Rightarrow> ('w, unit) server_cmd" where
  "inline_mysql_stage_register category num = tell (Registering (Register Stages category num))"

definition inline_mysql_set_stage :: "nat \<Rightarrow> src \<Rightarrow> ('w, unit) server_cmd" where
  "inline_mysql_set_stage key src = tell (Staging (Start_stage key src))"

definition mysql_stage_register :: "'w server_build \<Rightarrow> string \<Rightarrow> int \<Rightarrow> ('w, unit) server_cmd" where
  "mysql_stage_register B category num = (if have_psi B then inline_mysql_stage_register category num else ret ())"

definition MYSQL_SET_STAGE :: "'w server_build \<Rightarrow> nat \<Rightarrow> src \<Rightarrow> ('w, unit) server_cmd" where
  "MYSQL_SET_STAGE B key src = (if have_psi B then inline_mysql_set_stage key src else ret ())"

section \<open>Statements\<close>

definition inline_mysql_statement_register :: "string \<Rightarrow> int \<Rightarrow> ('w, unit) server_cmd" where
  "inline_mysql_statement_register category num = tell (Registering (Register Statements category num))"

definition inline_mysql_digest_start :: "'w server_build \<Rightarrow> ptr \<Rightarrow> ('w, ptr) server_cmd" where
  "inline_mysql_digest_start B locker =
     (case locker of None \<Rightarrow> ret None | Some l \<Rightarrow> ask B (Digesting (Digest_start l)))"

definition inline_mysql_digest_end :: "ptr \<Rightarrow> ptr \<Rightarrow> ('w, unit) server_cmd" where
  "inline_mysql_digest_end locker digest = tell_if True locker (\<lambda>l. Digesting (Digest_end l digest))"

definition inline_mysql_start_statement :: "'w server_build \<Rightarrow> nat \<Rightarrow> ptr \<Rightarrow> 32 word \<Rightarrow> ptr \<Rightarrow> src \<Rightarrow> ('w, ptr) server_cmd" where
  "inline_mysql_start_statement B key db db_len charset src =
     bind (ask B (Stating (Get_thread_statement_locker key charset))) (\<lambda>locker.
     bind (tell_if True locker (\<lambda>l. Stating (Start_statement l db db_len src))) (\<lambda>_.
     ret locker))"

definition inline_mysql_refine_statement :: "'w server_build \<Rightarrow> ptr \<Rightarrow> nat \<Rightarrow> ('w, ptr) server_cmd" where
  "inline_mysql_refine_statement B locker key =
     (case locker of None \<Rightarrow> ret None | Some l \<Rightarrow> ask B (Stating (Refine_statement l key)))"

definition inline_mysql_set_statement_text :: "ptr \<Rightarrow> ptr \<Rightarrow> 32 word \<Rightarrow> ('w, unit) server_cmd" where
  "inline_mysql_set_statement_text locker str str_len = tell_if True locker (\<lambda>l. Stating (Set_statement_text l str str_len))"

definition inline_mysql_set_statement_lock_time :: "ptr \<Rightarrow> 64 word \<Rightarrow> ('w, unit) server_cmd" where
  "inline_mysql_set_statement_lock_time locker num = tell_if True locker (\<lambda>l. Stating (Set_statement_lock_time l num))"

definition inline_mysql_set_statement_rows_sent :: "ptr \<Rightarrow> 64 word \<Rightarrow> ('w, unit) server_cmd" where
  "inline_mysql_set_statement_rows_sent locker num = tell_if True locker (\<lambda>l. Stating (Set_statement_rows_sent l num))"

definition inline_mysql_set_statement_rows_examined :: "ptr \<Rightarrow> 64 word \<Rightarrow> ('w, unit) server_cmd" where
  "inline_mysql_set_statement_rows_examined locker num = tell_if True locker (\<lambda>l. Stating (Set_statement_rows_examined l num))"

definition inline_mysql_end_statement :: "ptr \<Rightarrow> ptr \<Rightarrow> ('w, unit) server_cmd" where
  "inline_mysql_end_statement locker stmt_da =
     bind (tell (Staging End_stage)) (\<lambda>_. tell_if True locker (\<lambda>l. Stating (End_statement l stmt_da)))"

text \<open>The macros: without the interface nothing happens, and the locker is null.\<close>

definition mysql_statement_register :: "'w server_build \<Rightarrow> string \<Rightarrow> int \<Rightarrow> ('w, unit) server_cmd" where
  "mysql_statement_register B category num = (if have_psi B then inline_mysql_statement_register category num else ret ())"

definition MYSQL_DIGEST_START :: "'w server_build \<Rightarrow> ptr \<Rightarrow> ('w, ptr) server_cmd" where
  "MYSQL_DIGEST_START B locker = (if have_psi B then inline_mysql_digest_start B locker else ret None)"

definition MYSQL_DIGEST_END :: "'w server_build \<Rightarrow> ptr \<Rightarrow> ptr \<Rightarrow> ('w, unit) server_cmd" where
  "MYSQL_DIGEST_END B locker digest = (if have_psi B then inline_mysql_digest_end locker digest else ret ())"

definition MYSQL_START_STATEMENT :: "'w server_build \<Rightarrow> nat \<Rightarrow> ptr \<Rightarrow> 32 word \<Rightarrow> ptr \<Rightarrow> src \<Rightarrow> ('w, ptr) server_cmd" where
  "MYSQL_START_STATEMENT B key db db_len charset src =
     (if have_psi B then inline_mysql_start_statement B key db db_len charset src else ret None)"

definition MYSQL_REFINE_STATEMENT :: "'w server_build \<Rightarrow> ptr \<Rightarrow> nat \<Rightarrow> ('w, ptr) server_cmd" where
  "MYSQL_REFINE_STATEMENT B locker key = (if have_psi B then inline_mysql_refine_statement B locker key else ret None)"

definition MYSQL_SET_STATEMENT_TEXT :: "'w server_build \<Rightarrow> ptr \<Rightarrow> ptr \<Rightarrow> 32 word \<Rightarrow> ('w, unit) server_cmd" where
  "MYSQL_SET_STATEMENT_TEXT B locker str str_len = (if have_psi B then inline_mysql_set_statement_text locker str str_len else ret ())"

definition MYSQL_SET_STATEMENT_LOCK_TIME :: "'w server_build \<Rightarrow> ptr \<Rightarrow> 64 word \<Rightarrow> ('w, unit) server_cmd" where
  "MYSQL_SET_STATEMENT_LOCK_TIME B locker num = (if have_psi B then inline_mysql_set_statement_lock_time locker num else ret ())"

definition MYSQL_SET_STATEMENT_ROWS_SENT :: "'w server_build \<Rightarrow> ptr \<Rightarrow> 64 word \<Rightarrow> ('w, unit) server_cmd" where
  "MYSQL_SET_STATEMENT_ROWS_SENT B locker num = (if have_psi B then inline_mysql_set_statement_rows_sent locker num else ret ())"

definition MYSQL_SET_STATEMENT_ROWS_EXAMINED :: "'w server_build \<Rightarrow> ptr \<Rightarrow> 64 word \<Rightarrow> ('w, unit) server_cmd" where
  "MYSQL_SET_STATEMENT_ROWS_EXAMINED B locker num = (if have_psi B then inline_mysql_set_statement_rows_examined locker num else ret ())"

definition MYSQL_END_STATEMENT :: "'w server_build \<Rightarrow> ptr \<Rightarrow> ptr \<Rightarrow> ('w, unit) server_cmd" where
  "MYSQL_END_STATEMENT B locker stmt_da = (if have_psi B then inline_mysql_end_statement locker stmt_da else ret ())"

section \<open>Tables and idle waits\<close>

text \<open>The macros with a payload: the code they are wrapped around appears in both branches and runs once.\<close>

definition table_wait :: "'w server_build \<Rightarrow> ptr \<Rightarrow> (nat \<Rightarrow> table_call) \<Rightarrow> (nat \<Rightarrow> table_call) \<Rightarrow> ('w, 'a) server_cmd \<Rightarrow> ('w, 'a) server_cmd" where
  "table_wait B psi start finish payload =
     (if have_psi B then
        (case psi of
           Some p \<Rightarrow>
             bind (ask B (Tabling (start p))) (\<lambda>locker.
             bind payload (\<lambda>a.
             bind (tell_if True locker (\<lambda>l. Tabling (finish l))) (\<lambda>_.
             ret a)))
         | None \<Rightarrow> payload)
      else payload)"

definition MYSQL_TABLE_IO_WAIT :: "'w server_build \<Rightarrow> ptr \<Rightarrow> PSI_table_io_operation \<Rightarrow> 32 word \<Rightarrow> src \<Rightarrow> ('w, 'a) server_cmd \<Rightarrow> ('w, 'a) server_cmd" where
  "MYSQL_TABLE_IO_WAIT B psi op index src = table_wait B psi (\<lambda>p. Start_table_io_wait p op index src) End_table_io_wait"

definition MYSQL_TABLE_LOCK_WAIT :: "'w server_build \<Rightarrow> ptr \<Rightarrow> PSI_table_lock_operation \<Rightarrow> 64 word \<Rightarrow> src \<Rightarrow> ('w, 'a) server_cmd \<Rightarrow> ('w, 'a) server_cmd" where
  "MYSQL_TABLE_LOCK_WAIT B psi op flags src = table_wait B psi (\<lambda>p. Start_table_lock_wait p op flags src) End_table_lock_wait"

definition inline_mysql_start_table_lock_wait :: "'w server_build \<Rightarrow> ptr \<Rightarrow> PSI_table_lock_operation \<Rightarrow> 64 word \<Rightarrow> src \<Rightarrow> ('w, ptr) server_cmd" where
  "inline_mysql_start_table_lock_wait B psi op flags src =
     (case psi of Some p \<Rightarrow> ask B (Tabling (Start_table_lock_wait p op flags src)) | None \<Rightarrow> ret None)"

definition inline_mysql_end_table_lock_wait :: "ptr \<Rightarrow> ('w, unit) server_cmd" where
  "inline_mysql_end_table_lock_wait locker = tell_if True locker (\<lambda>l. Tabling (End_table_lock_wait l))"

definition inline_mysql_start_idle_wait :: "'w server_build \<Rightarrow> src \<Rightarrow> ('w, ptr) server_cmd" where
  "inline_mysql_start_idle_wait B src = ask B (Idling (Start_idle_wait src))"

definition inline_mysql_end_idle_wait :: "ptr \<Rightarrow> ('w, unit) server_cmd" where
  "inline_mysql_end_idle_wait locker = tell_if True locker (\<lambda>l. Idling (End_idle_wait l))"

text \<open>Starting a wait assigns the caller's variable, or does nothing.\<close>

definition MYSQL_START_TABLE_LOCK_WAIT :: "'w server_build \<Rightarrow> nat \<Rightarrow> ptr \<Rightarrow> PSI_table_lock_operation \<Rightarrow> 64 word \<Rightarrow> src \<Rightarrow> ('w, unit) server_cmd" where
  "MYSQL_START_TABLE_LOCK_WAIT B v psi op flags src =
     (if have_psi B then
        bind (inline_mysql_start_table_lock_wait B psi op flags src) (\<lambda>locker. put (\<lambda>x. x\<lparr>tables := (tables x)(v := locker)\<rparr>))
      else ret ())"

definition MYSQL_END_TABLE_LOCK_WAIT :: "'w server_build \<Rightarrow> ptr \<Rightarrow> ('w, unit) server_cmd" where
  "MYSQL_END_TABLE_LOCK_WAIT B locker = (if have_psi B then inline_mysql_end_table_lock_wait locker else ret ())"

definition MYSQL_START_IDLE_WAIT :: "'w server_build \<Rightarrow> nat \<Rightarrow> src \<Rightarrow> ('w, unit) server_cmd" where
  "MYSQL_START_IDLE_WAIT B v src =
     (if have_psi B then bind (inline_mysql_start_idle_wait B src) (\<lambda>locker. put (\<lambda>x. x\<lparr>idles := (idles x)(v := locker)\<rparr>))
      else ret ())"

definition MYSQL_END_IDLE_WAIT :: "'w server_build \<Rightarrow> ptr \<Rightarrow> ('w, unit) server_cmd" where
  "MYSQL_END_IDLE_WAIT B locker = (if have_psi B then inline_mysql_end_idle_wait locker else ret ())"

section \<open>Any request\<close>

text \<open>
  A request names the caller's variables; they hold null until a request assigns them. The macro that declares a table's locker
  (\<open>MYSQL_TABLE_WAIT_VARIABLES\<close>) gives it no value, so that a caller who ends a wait of
  that variable without having begun one is a caller of the model only if he has set it to null himself.\<close>

text \<open>A request names its variables by number; its reply is that of the payload, if it has one.\<close>

datatype (plugins only: ) server_request =
    R_stage_register string int
  | R_set_stage nat src
  | R_statement_register string int
  | R_start_statement nat nat ptr "32 word" ptr src
  | R_refine_statement nat nat
  | R_statement_text nat ptr "32 word"
  | R_lock_time nat "64 word"
  | R_rows_sent nat "64 word"
  | R_rows_examined nat "64 word"
  | R_end_statement nat ptr
  | R_digest_start nat nat
  | R_digest_end nat ptr
  | R_table_io_wait ptr PSI_table_io_operation "32 word" src nat
  | R_table_lock_wait ptr PSI_table_lock_operation "64 word" src nat
  | R_start_table_lock_wait nat ptr PSI_table_lock_operation "64 word" src
  | R_end_table_lock_wait nat
  | R_start_idle_wait nat src
  | R_end_idle_wait nat

definition quiet :: "('w, unit) server_cmd \<Rightarrow> ('w, 32 word option) server_cmd" where
  "quiet m = bind m (\<lambda>_. ret None)"

definition payload :: "'w server_build \<Rightarrow> nat \<Rightarrow> ('w, 32 word option) server_cmd" where
  "payload B n = bind (sys_call (low_int B) (Payload n)) (\<lambda>r. ret (Some r))"

definition set_statement :: "nat \<Rightarrow> ptr \<Rightarrow> ('w, unit) server_cmd" where
  "set_statement v p = put (\<lambda>x. x\<lparr>statements := (statements x)(v := p)\<rparr>)"

definition set_digest :: "nat \<Rightarrow> ptr \<Rightarrow> ('w, unit) server_cmd" where
  "set_digest v p = put (\<lambda>x. x\<lparr>digests := (digests x)(v := p)\<rparr>)"

primrec server_step :: "'w server_build \<Rightarrow> server_request \<Rightarrow> ('w, 32 word option) server_cmd" where
  "server_step B (R_stage_register c n) = quiet (mysql_stage_register B c n)"
| "server_step B (R_set_stage key src) = quiet (MYSQL_SET_STAGE B key src)"
| "server_step B (R_statement_register c n) = quiet (mysql_statement_register B c n)"
| "server_step B (R_start_statement v key db len cs src) =
     quiet (bind (MYSQL_START_STATEMENT B key db len cs src) (set_statement v))"
| "server_step B (R_refine_statement v key) =
     quiet (bind look (\<lambda>x. bind (MYSQL_REFINE_STATEMENT B (statements x v) key) (set_statement v)))"
| "server_step B (R_statement_text v str len) = quiet (bind look (\<lambda>x. MYSQL_SET_STATEMENT_TEXT B (statements x v) str len))"
| "server_step B (R_lock_time v n) = quiet (bind look (\<lambda>x. MYSQL_SET_STATEMENT_LOCK_TIME B (statements x v) n))"
| "server_step B (R_rows_sent v n) = quiet (bind look (\<lambda>x. MYSQL_SET_STATEMENT_ROWS_SENT B (statements x v) n))"
| "server_step B (R_rows_examined v n) = quiet (bind look (\<lambda>x. MYSQL_SET_STATEMENT_ROWS_EXAMINED B (statements x v) n))"
| "server_step B (R_end_statement v da) = quiet (bind look (\<lambda>x. MYSQL_END_STATEMENT B (statements x v) da))"
| "server_step B (R_digest_start d v) =
     quiet (bind look (\<lambda>x. bind (MYSQL_DIGEST_START B (statements x v)) (set_digest d)))"
| "server_step B (R_digest_end d digest) = quiet (bind look (\<lambda>x. MYSQL_DIGEST_END B (digests x d) digest))"
| "server_step B (R_table_io_wait psi op index src n) = MYSQL_TABLE_IO_WAIT B psi op index src (payload B n)"
| "server_step B (R_table_lock_wait psi op flags src n) = MYSQL_TABLE_LOCK_WAIT B psi op flags src (payload B n)"
| "server_step B (R_start_table_lock_wait v psi op flags src) = quiet (MYSQL_START_TABLE_LOCK_WAIT B v psi op flags src)"
| "server_step B (R_end_table_lock_wait v) = quiet (bind look (\<lambda>x. MYSQL_END_TABLE_LOCK_WAIT B (tables x v)))"
| "server_step B (R_start_idle_wait v src) = quiet (MYSQL_START_IDLE_WAIT B v src)"
| "server_step B (R_end_idle_wait v) = quiet (bind look (\<lambda>x. MYSQL_END_IDLE_WAIT B (idles x v)))"

section \<open>The contract\<close>

definition no_lockers :: lockers where
  "no_lockers = \<lparr>statements = \<lambda>_. None, digests = \<lambda>_. None, tables = \<lambda>_. None, idles = \<lambda>_. None\<rparr>"

definition erase_lockers :: "lockers \<Rightarrow> lockers" where
  "erase_lockers _ = no_lockers"

lemmas server_wrapper_defs =
  inline_mysql_stage_register_def inline_mysql_set_stage_def mysql_stage_register_def MYSQL_SET_STAGE_def
  inline_mysql_statement_register_def inline_mysql_digest_start_def inline_mysql_digest_end_def
  inline_mysql_start_statement_def inline_mysql_refine_statement_def inline_mysql_set_statement_text_def
  inline_mysql_set_statement_lock_time_def inline_mysql_set_statement_rows_sent_def
  inline_mysql_set_statement_rows_examined_def inline_mysql_end_statement_def mysql_statement_register_def
  MYSQL_DIGEST_START_def MYSQL_DIGEST_END_def MYSQL_START_STATEMENT_def MYSQL_REFINE_STATEMENT_def
  MYSQL_SET_STATEMENT_TEXT_def MYSQL_SET_STATEMENT_LOCK_TIME_def MYSQL_SET_STATEMENT_ROWS_SENT_def
  MYSQL_SET_STATEMENT_ROWS_EXAMINED_def MYSQL_END_STATEMENT_def table_wait_def MYSQL_TABLE_IO_WAIT_def
  MYSQL_TABLE_LOCK_WAIT_def inline_mysql_start_table_lock_wait_def inline_mysql_end_table_lock_wait_def
  inline_mysql_start_idle_wait_def inline_mysql_end_idle_wait_def MYSQL_START_TABLE_LOCK_WAIT_def
  MYSQL_END_TABLE_LOCK_WAIT_def MYSQL_START_IDLE_WAIT_def MYSQL_END_IDLE_WAIT_def

lemmas server_request_defs = quiet_def payload_def set_statement_def set_digest_def

lemma plain_server_step:
  "server_step (plain B) r s = (case r of
       R_table_io_wait psi op index src n \<Rightarrow> payload B n s
     | R_table_lock_wait psi op flags src n \<Rightarrow> payload B n s
     | R_start_statement v key db len cs src \<Rightarrow> Inr (None, s\<lparr>objs := (objs s)\<lparr>statements := (statements (objs s))(v := None)\<rparr>\<rparr>)
     | R_refine_statement v key \<Rightarrow> Inr (None, s\<lparr>objs := (objs s)\<lparr>statements := (statements (objs s))(v := None)\<rparr>\<rparr>)
     | R_digest_start d v \<Rightarrow> Inr (None, s\<lparr>objs := (objs s)\<lparr>digests := (digests (objs s))(d := None)\<rparr>\<rparr>)
     | _ \<Rightarrow> Inr (None, s))"
  by (cases r; simp add: server_wrapper_defs server_request_defs run_cmd)

lemma server_step_hides: "hides erase_lockers (server_step B r) (server_step (plain B) r)"
  unfolding hides_def plain_server_step
  by (cases r; simp add: server_wrapper_defs server_request_defs run_cmd tell_if_def hide_def erase_lockers_def no_lockers_def fun_upd_idem split: option.split)

lemma idle_ask: "role_of c = Notes \<Longrightarrow> moves B Idle (ask B c) Idle"
  using moves_ask [of Idle c B ret Idle] by (simp add: moves_ret)

lemma idle_bind: "moves B Idle m Idle \<Longrightarrow> (\<And>a. moves B Idle (f a) Idle) \<Longrightarrow> moves B Idle (bind m f) Idle"
  by (rule moves_bind)

lemmas idle_intros = idle_bind idle_ask moves_ret moves_look moves_put moves_tell moves_tell_if moves_sys_call

lemma server_step_moves: "moves B Idle (server_step B r) Idle"
  by (cases r) (auto simp: server_wrapper_defs server_request_defs simp del: bind_assoc intro!: idle_intros split: option.split)

interpretation servers: instrumentation server_step erase_lockers
  by unfold_locales (rule server_step_hides server_step_moves)+

section \<open>Handles are the instrumentation's own\<close>

text \<open>
  Which calls give out a handle, and which name one. A history keeps handles when every handle a call names
  has been given out before it as one of its kind.
\<close>

datatype handle_kind = Statement | Digest | Table_wait | Idle_wait

fun grants :: "psi_call \<Rightarrow> handle_kind option" where
  "grants (Stating (Get_thread_statement_locker _ _)) = Some Statement"
| "grants (Stating (Refine_statement _ _)) = Some Statement"
| "grants (Digesting (Digest_start _)) = Some Digest"
| "grants (Tabling (Start_table_io_wait _ _ _ _)) = Some Table_wait"
| "grants (Tabling (Start_table_lock_wait _ _ _ _)) = Some Table_wait"
| "grants (Idling (Start_idle_wait _)) = Some Idle_wait"
| "grants _ = None"

fun handle_named :: "psi_call \<Rightarrow> (handle_kind \<times> nat) option" where
  "handle_named (Stating (Refine_statement l _)) = Some (Statement, l)"
| "handle_named (Stating (Start_statement l _ _ _)) = Some (Statement, l)"
| "handle_named (Stating (Set_statement_text l _ _)) = Some (Statement, l)"
| "handle_named (Stating (Set_statement_lock_time l _)) = Some (Statement, l)"
| "handle_named (Stating (Set_statement_rows_sent l _)) = Some (Statement, l)"
| "handle_named (Stating (Set_statement_rows_examined l _)) = Some (Statement, l)"
| "handle_named (Stating (End_statement l _)) = Some (Statement, l)"
| "handle_named (Digesting (Digest_start l)) = Some (Statement, l)"
| "handle_named (Digesting (Digest_end l _)) = Some (Digest, l)"
| "handle_named (Tabling (End_table_io_wait l)) = Some (Table_wait, l)"
| "handle_named (Tabling (End_table_lock_wait l)) = Some (Table_wait, l)"
| "handle_named (Idling (End_idle_wait l)) = Some (Idle_wait, l)"
| "handle_named _ = None"

definition granted_by :: "psi_call \<Rightarrow> ptr \<Rightarrow> (handle_kind \<times> nat) set" where
  "granted_by c answer = (case (grants c, answer) of (Some k, Some l) \<Rightarrow> {(k, l)} | _ \<Rightarrow> {})"

fun granted_rev :: "('c event list \<Rightarrow> ptr) \<Rightarrow> 'c event list \<Rightarrow> (handle_kind \<times> nat) set" where
  "granted_rev psi [] = {}"
| "granted_rev psi (e # past) =
     (case e of Sys _ \<Rightarrow> {} | Psi c \<Rightarrow> granted_by c (psi (rev (e # past)))) \<union> granted_rev psi past"

fun keeps_rev :: "('c event list \<Rightarrow> ptr) \<Rightarrow> 'c event list \<Rightarrow> bool" where
  "keeps_rev psi [] = True"
| "keeps_rev psi (e # past) =
     (keeps_rev psi past \<and>
      (case e of Sys _ \<Rightarrow> True | Psi c \<Rightarrow> (case handle_named c of None \<Rightarrow> True | Some h \<Rightarrow> h \<in> granted_rev psi past)))"

definition keeps_handles :: "('c event list \<Rightarrow> ptr) \<Rightarrow> 'c event list \<Rightarrow> bool" where
  "keeps_handles psi t = keeps_rev psi (rev t)"

definition granted :: "('c event list \<Rightarrow> ptr) \<Rightarrow> 'c event list \<Rightarrow> (handle_kind \<times> nat) set" where
  "granted psi t = granted_rev psi (rev t)"

lemma granted_snoc [simp]:
  "granted psi (t @ [Sys d]) = granted psi t"
  "granted psi (t @ [Psi c]) = granted_by c (psi (t @ [Psi c])) \<union> granted psi t"
  by (simp_all add: granted_def)

lemma keeps_snoc [simp]:
  "keeps_handles psi (t @ [Sys d]) = keeps_handles psi t"
  "keeps_handles psi (t @ [Psi c]) \<longleftrightarrow> keeps_handles psi t \<and> (\<forall>h. handle_named c = Some h \<longrightarrow> h \<in> granted psi t)"
  by (auto simp: keeps_handles_def granted_def split: option.splits)

text \<open>The caller's variables hold handles given out, of their kind.\<close>

definition lockers_granted :: "(handle_kind \<times> nat) set \<Rightarrow> lockers \<Rightarrow> bool" where
  "lockers_granted G x \<longleftrightarrow>
     (\<forall>v l. (statements x v = Some l \<longrightarrow> (Statement, l) \<in> G) \<and> (digests x v = Some l \<longrightarrow> (Digest, l) \<in> G) \<and>
        (tables x v = Some l \<longrightarrow> (Table_wait, l) \<in> G) \<and> (idles x v = Some l \<longrightarrow> (Idle_wait, l) \<in> G))"

definition keeps :: "'w server_build \<Rightarrow> (payload, 'w, lockers) sys \<Rightarrow> bool" where
  "keeps B s \<longleftrightarrow> keeps_handles (service B) (trace s) \<and> lockers_granted (granted (service B) (trace s)) (objs s)"

lemma lockers_granted_mono:
  "lockers_granted G x \<Longrightarrow> lockers_granted (H \<union> G) x" "lockers_granted G x \<Longrightarrow> lockers_granted (insert h G) x"
  by (auto simp: lockers_granted_def)

lemma lockers_granted_upd:
  assumes "lockers_granted G x"
  shows "(\<And>l. p = Some l \<Longrightarrow> (Statement, l) \<in> G) \<Longrightarrow> lockers_granted G (x\<lparr>statements := (statements x)(v := p)\<rparr>)"
    "(\<And>l. p = Some l \<Longrightarrow> (Digest, l) \<in> G) \<Longrightarrow> lockers_granted G (x\<lparr>digests := (digests x)(v := p)\<rparr>)"
    "(\<And>l. p = Some l \<Longrightarrow> (Table_wait, l) \<in> G) \<Longrightarrow> lockers_granted G (x\<lparr>tables := (tables x)(v := p)\<rparr>)"
    "(\<And>l. p = Some l \<Longrightarrow> (Idle_wait, l) \<in> G) \<Longrightarrow> lockers_granted G (x\<lparr>idles := (idles x)(v := p)\<rparr>)"
  using assms by (simp_all add: lockers_granted_def)

lemma lockers_grantedD:
  assumes "lockers_granted G x"
  shows "statements x v = Some l \<Longrightarrow> (Statement, l) \<in> G" "digests x v = Some l \<Longrightarrow> (Digest, l) \<in> G"
    "tables x v = Some l \<Longrightarrow> (Table_wait, l) \<in> G" "idles x v = Some l \<Longrightarrow> (Idle_wait, l) \<in> G"
  using assms by (simp_all add: lockers_granted_def)

lemma granted_by_simps [simp]:
  "grants c = None \<Longrightarrow> granted_by c p = {}" "grants c = Some k \<Longrightarrow> granted_by c p = {(k, l) |l. p = Some l}"
  by (auto simp: granted_by_def split: option.split)

lemma server_step_keeps: "keeps B s \<Longrightarrow> server_step B r s = Inr (a, s') \<Longrightarrow> keeps B s'"
  unfolding keeps_def
  by (cases r; simp add: server_wrapper_defs server_request_defs run_cmd tell_if_def del: append_assoc split: option.splits if_splits;
      auto simp del: append_assoc dest: lockers_grantedD intro!: lockers_granted_upd intro: lockers_granted_mono)

text \<open>C39: the hooks of a server are harmless, and their lockers genuine. For every sequence of statements, digests,
  stages, table and idle waits, in any order and with any of the caller's variables, and every
  instrumentation: the caller's own code runs in the order and as often as without the interface and
  gets the same answers; and every locker the instrumentation is told of is one it has given out before, as one
  of that kind, although the lockers pass through the caller's hands and the instrumentation may refuse any of them.\<close>

theorem server_hooks_contract:
  "servers.run (plain B) rs \<lparr>os = w, objs = no_lockers, trace = []\<rparr> =
     bind_res (servers.run B rs \<lparr>os = w, objs = no_lockers, trace = []\<rparr>) (\<lambda>(replies, s'). Inr (replies, hide erase_lockers s')) \<and>
   (case servers.run B rs \<lparr>os = w, objs = no_lockers, trace = []\<rparr> of
      Inl e \<Rightarrow> False
    | Inr (replies, s') \<Rightarrow> keeps_handles (service B) (trace s'))"
proof -
  have no_fault: "\<exists>a s'. server_step B r s = Inr (a, s')" for r s
    by (cases r) (auto simp: server_wrapper_defs server_request_defs run_cmd tell_if_def split: option.splits)
  have "\<exists>a s'. servers.run B rs s = Inr (a, s') \<and> keeps B s'" if "keeps B s" for s
    using that
  proof (induction rs arbitrary: s)
    case Nil
    then show ?case by (simp add: run_cmd)
  next
    case (Cons r rs)
    obtain a t where t: "server_step B r s = Inr (a, t)" using no_fault by blast
    with Cons.prems have "keeps B t" by (rule server_step_keeps)
    with Cons.IH obtain as s' where "servers.run B rs t = Inr (as, s')" "keeps B s'" by blast
    with t show ?case by (simp add: run_cmd)
  qed
  moreover have "keeps B \<lparr>os = w, objs = no_lockers, trace = []\<rparr>"
    by (simp add: keeps_def keeps_handles_def lockers_granted_def no_lockers_def)
  ultimately obtain as s' where "servers.run B rs \<lparr>os = w, objs = no_lockers, trace = []\<rparr> = Inr (as, s')" "keeps B s'"
    by blast
  then show ?thesis
    using servers.run_contract [of B rs w no_lockers] by (simp add: keeps_def erase_lockers_def)
qed

text \<open>A refinement the instrumentation refuses loses the statement: its end is not reported, only the stage's.\<close>

lemma refused_refinement:
  assumes "\<And>t. service B t = (case last t of Psi (Stating (Get_thread_statement_locker _ _)) \<Rightarrow> Some 7 | _ \<Rightarrow> None)"
    and "have_psi B"
  shows "\<exists>s'. servers.run B [R_start_statement 0 1 None 0 None src, R_refine_statement 0 2, R_end_statement 0 None]
      \<lparr>os = w, objs = x, trace = []\<rparr> = Inr ([None, None, None], s') \<and>
    trace s' = map Psi [Stating (Get_thread_statement_locker 1 None), Stating (Start_statement 7 None 0 src),
      Stating (Refine_statement 7 2), Staging End_stage]"
  by (simp add: assms server_wrapper_defs server_request_defs run_cmd tell_if_def)

end
