(* ===== verification/Timespec.thy ===== *)
theory Timespec
  imports "HOL-Library.Word" "HOL-Library.Signed_Division"
begin

text \<open>
  The deadlines of timed waits (\<open>my_pthread.h\<close>): the macros for Windows, where a deadline is a file time in units of
  100 nanoseconds with the longest wait in milliseconds beside it, and those for elsewhere, where it is seconds
  and nanoseconds. Times come from the system in units of 100 nanoseconds and are parameters; a number of
  nanoseconds is a \<open>ulonglong\<close>.
\<close>

section \<open>Windows\<close>

record win_timespec =
  i64 :: "64 word"
  max_timeout_msec :: "32 word"

definition win_set_timespec_time_nsec :: "64 word \<Rightarrow> 64 word \<Rightarrow> win_timespec" where
  "win_set_timespec_time_nsec TIME NSEC =
     \<lparr>i64 = TIME + word_of_int (sint NSEC sdiv 100), max_timeout_msec = ucast (NSEC div 1000000)\<rparr>"

definition win_set_timespec_nsec :: "64 word \<Rightarrow> 64 word \<Rightarrow> win_timespec" where
  "win_set_timespec_nsec system_time NSEC = win_set_timespec_time_nsec system_time NSEC"

definition win_cmp_timespec :: "win_timespec \<Rightarrow> win_timespec \<Rightarrow> int" where
  "win_cmp_timespec TS1 TS2 =
     (if sint (i64 TS1) > sint (i64 TS2) then 1 else if sint (i64 TS1) < sint (i64 TS2) then - 1 else 0)"

definition win_diff_timespec :: "win_timespec \<Rightarrow> win_timespec \<Rightarrow> 64 word" where
  "win_diff_timespec TS1 TS2 = (i64 TS1 - i64 TS2) * 100"

section \<open>Elsewhere\<close>

record timespec =
  tv_sec :: "64 word"
  tv_nsec :: "64 word"

definition set_timespec_time_nsec :: "64 word \<Rightarrow> 64 word \<Rightarrow> timespec" where
  "set_timespec_time_nsec TIME NSEC =
     (let nsec = NSEC;
          now = TIME + nsec div 100
      in \<lparr>tv_sec = now div 10000000, tv_nsec = now mod 10000000 * 100 + nsec mod 100\<rparr>)"

definition set_timespec_nsec :: "64 word \<Rightarrow> 64 word \<Rightarrow> timespec" where
  "set_timespec_nsec my_getsystime NSEC = set_timespec_time_nsec my_getsystime NSEC"

definition cmp_timespec :: "timespec \<Rightarrow> timespec \<Rightarrow> int" where
  "cmp_timespec TS1 TS2 =
     (if sint (tv_sec TS1) > sint (tv_sec TS2) \<or>
         tv_sec TS1 = tv_sec TS2 \<and> sint (tv_nsec TS1) > sint (tv_nsec TS2) then 1
      else if sint (tv_sec TS1) < sint (tv_sec TS2) \<or>
         tv_sec TS1 = tv_sec TS2 \<and> sint (tv_nsec TS1) < sint (tv_nsec TS2) then - 1
      else 0)"

definition diff_timespec :: "timespec \<Rightarrow> timespec \<Rightarrow> 64 word" where
  "diff_timespec TS1 TS2 = (tv_sec TS1 - tv_sec TS2) * 1000000000 + tv_nsec TS1 - tv_nsec TS2"

text \<open>In seconds: the product is in 64 bits.\<close>

definition win_set_timespec :: "64 word \<Rightarrow> 64 word \<Rightarrow> win_timespec" where
  "win_set_timespec system_time SEC = win_set_timespec_nsec system_time (SEC * 1000000000)"

definition set_timespec :: "64 word \<Rightarrow> 64 word \<Rightarrow> timespec" where
  "set_timespec my_getsystime SEC = set_timespec_nsec my_getsystime (SEC * 1000000000)"

section \<open>What a deadline is\<close>

text \<open>The moment a deadline stands for, in nanoseconds; and the calls whose numbers fit.\<close>

definition moment :: "timespec \<Rightarrow> int" where
  "moment ts = uint (tv_sec ts) * 1000000000 + uint (tv_nsec ts)"

definition deadline_fits :: "64 word \<Rightarrow> 64 word \<Rightarrow> bool" where
  "deadline_fits TIME NSEC \<longleftrightarrow> uint TIME + uint NSEC div 100 < 2 ^ 63 \<and> uint NSEC < 2 ^ 63"

lemma deadline_bounds:
  assumes "deadline_fits t n"
  shows "uint t + uint n div 100 < 9223372036854775808" "0 \<le> uint t + uint n div 100" "uint t < 9223372036854775808"
    "uint n < 9223372036854775808"
proof -
  have d: "0 \<le> uint n div 100" "0 \<le> uint t" by (simp_all add: pos_imp_zdiv_nonneg_iff)
  show s: "uint t + uint n div 100 < 9223372036854775808" "uint n < 9223372036854775808"
    using assms by (simp_all add: deadline_fits_def)
  show "0 \<le> uint t + uint n div 100" "uint t < 9223372036854775808" using d s by linarith+
qed

lemma uint_literals [simp]:
  "uint (100 :: 64 word) = 100" "uint (10000000 :: 64 word) = 10000000" "uint (1000000 :: 64 word) = 1000000"
  by simp_all

lemma deadline_now:
  assumes "deadline_fits t n"
  shows "uint (t + n div 100) = uint t + uint n div 100"
proof -
  have "uint t + uint n div 100 < 18446744073709551616" "0 \<le> uint t + uint n div 100"
    using deadline_bounds [OF assms] by simp_all
  then show ?thesis by (simp add: uint_word_ariths uint_div)
qed

lemma uint_scaled:
  fixes a b :: "64 word"
  assumes "uint a < 10000000" and "uint b < 100"
  shows "uint (a * 100 + b) = uint a * 100 + uint b"
proof -
  have "0 \<le> uint a * 100 + uint b" "uint a * 100 + uint b < 2 ^ 64" using assms by simp_all
  moreover have "uint (a * 100 + b) = (uint a * 100 + uint b) mod 2 ^ 64" by (simp add: uint_word_ariths mod_simps)
  ultimately show ?thesis by (simp only: mod_pos_pos_trivial)
qed

lemma nsec_small: "uint (tv_nsec (set_timespec_time_nsec t n)) = uint (t + n div 100) mod 10000000 * 100 + uint n mod 100"
proof -
  have "uint ((t + n div 100) mod 10000000) = uint (t + n div 100) mod 10000000" "uint (n mod 100) = uint n mod 100"
    by (simp_all only: uint_mod uint_literals)
  moreover from this have "uint ((t + n div 100) mod 10000000) < 10000000" "uint (n mod 100) < 100" by simp_all
  note uint_scaled [OF this]
  ultimately show ?thesis by (simp only: set_timespec_time_nsec_def Let_def timespec.simps)
qed

lemma sec_nsec:
  assumes "deadline_fits t n"
  shows "uint (tv_sec (set_timespec_time_nsec t n)) = (uint t * 100 + uint n) div 1000000000"
    and "uint (tv_nsec (set_timespec_time_nsec t n)) = (uint t * 100 + uint n) mod 1000000000"
proof -
  let ?now = "uint t + uint n div 100"
  have m: "uint t * 100 + uint n = 100 * ?now + uint n mod 100" by simp
  have "(100 * ?now + uint n mod 100) div 1000000000 = ?now div 10000000"
    using zdiv_zmult2_eq [of 10000000 "100 * ?now + uint n mod 100" 100] by simp
  with m deadline_now [OF assms] show "uint (tv_sec (set_timespec_time_nsec t n)) = (uint t * 100 + uint n) div 1000000000"
    by (simp add: set_timespec_time_nsec_def Let_def uint_div)
  have "(100 * ?now + uint n mod 100) mod 1000000000 = 100 * (?now mod 10000000) + uint n mod 100"
    using zmod_zmult2_eq [of 10000000 "100 * ?now + uint n mod 100" 100] by simp
  with m deadline_now [OF assms] nsec_small [of t n]
  show "uint (tv_nsec (set_timespec_time_nsec t n)) = (uint t * 100 + uint n) mod 1000000000"
    by (simp add: add.commute mult.commute)
qed

lemma moment_set: "deadline_fits t n \<Longrightarrow> moment (set_timespec_time_nsec t n) = uint t * 100 + uint n"
  by (simp add: moment_def sec_nsec)

lemma sint_small:
  assumes "uint (w :: 64 word) < 2 ^ 63"
  shows "sint w = uint w"
proof -
  have "signed_take_bit 63 (uint w) = uint w"
    unfolding signed_take_bit_int_eq_self_iff using assms uint_ge_0 [of w] by linarith
  then show ?thesis by (simp add: sint_uint)
qed

lemma cmp_moment:
  assumes "uint (tv_sec a) < 2 ^ 63" "uint (tv_sec b) < 2 ^ 63"
    and "uint (tv_nsec a) < 1000000000" "uint (tv_nsec b) < 1000000000"
  shows "cmp_timespec a b = sgn (moment a - moment b)"
proof -
  have s: "sint (tv_sec a) = uint (tv_sec a)" "sint (tv_sec b) = uint (tv_sec b)"
    "sint (tv_nsec a) = uint (tv_nsec a)" "sint (tv_nsec b) = uint (tv_nsec b)"
    using assms by (simp_all add: sint_small)
  have e: "tv_sec a = tv_sec b \<longleftrightarrow> uint (tv_sec a) = uint (tv_sec b)" by (simp add: word_eq_iff_unsigned)
  have n: "0 \<le> uint (tv_nsec a)" "0 \<le> uint (tv_nsec b)" by simp_all
  consider "uint (tv_sec a) < uint (tv_sec b)" | "uint (tv_sec a) = uint (tv_sec b)" | "uint (tv_sec b) < uint (tv_sec a)" by linarith
  then show ?thesis
  proof cases
    case 1
    then have "moment a < moment b" using assms(3,4) n unfolding moment_def by linarith
    with 1 show ?thesis by (simp add: cmp_timespec_def s e sgn_if)
  next
    case 2
    then show ?thesis by (auto simp: cmp_timespec_def s e moment_def sgn_if)
  next
    case 3
    then have "moment b < moment a" using assms(3,4) n unfolding moment_def by linarith
    with 3 show ?thesis by (simp add: cmp_timespec_def s e sgn_if)
  qed
qed

lemma diff_moment: "diff_timespec a b = word_of_int (moment a - moment b)"
  by (simp add: diff_timespec_def moment_def algebra_simps)

lemma win_i64:
  assumes "deadline_fits t n"
  shows "uint (i64 (win_set_timespec_nsec t n)) = uint t + uint n div 100"
proof -
  have "sint n = uint n" using assms by (simp add: deadline_fits_def sint_small)
  then have i: "i64 (win_set_timespec_nsec t n) = word_of_int (uint t + uint n div 100)"
    by (simp add: win_set_timespec_nsec_def win_set_timespec_time_nsec_def signed_divide_int_def sgn_if)
  have "uint t + uint n div 100 < 18446744073709551616" "0 \<le> uint t + uint n div 100"
    using deadline_bounds [OF assms] by simp_all
  moreover have "uint (word_of_int k :: 64 word) = k mod 18446744073709551616" for k by (simp add: uint_word_of_int)
  ultimately show ?thesis unfolding i by (simp only: mod_pos_pos_trivial)
qed

lemma uint_difference: "uint (word_of_int k :: 64 word) = k mod 2 ^ 64"
  by (simp add: uint_word_of_int)

lemma sint_difference:
  assumes "- (2 ^ 63) \<le> k" and "k < 2 ^ 63"
  shows "sint (word_of_int k :: 64 word) = k"
proof -
  have "sint (word_of_int k :: 64 word) = signed_take_bit 63 k" by (simp add: sint_sbintrunc')
  then show ?thesis using assms by (simp add: signed_take_bit_int_eq_self)
qed

lemma win_diff_moment:
  assumes "deadline_fits t n" and "deadline_fits t' n'"
  shows "win_diff_timespec (win_set_timespec_nsec t n) (win_set_timespec_nsec t' n') =
    word_of_int (((uint t * 100 + uint n) div 100 - (uint t' * 100 + uint n') div 100) * 100)"
proof -
  have "win_diff_timespec a b = word_of_int ((uint (i64 a) - uint (i64 b)) * 100)" for a b
    by (simp add: win_diff_timespec_def)
  moreover have "(uint u * 100 + uint k) div 100 = uint u + uint k div 100" for u k :: "64 word" by simp
  ultimately show ?thesis by (simp only: win_i64 assms)
qed

text \<open>C36: deadlines mean what they say. Elsewhere than on Windows the deadline a number of nanoseconds ahead stands for the
  system's time plus that number, to the nanosecond and with less than a second in its second field; on
  Windows for the same in whole units of 100 nanoseconds. Comparing two deadlines, whatever times they were made at, is
  comparing those moments. Their difference is the difference of the moments modulo \<open>2 ^ 64\<close>, negative ones included:
  read as a signed number it is the difference itself as long as that fits in 64 bits (292 years); on Windows
  the same in whole units.\<close>

theorem deadlines_exact:
  assumes "deadline_fits t n" and "deadline_fits t' n'"
  defines "m \<equiv> uint t * 100 + uint n" and "m' \<equiv> uint t' * 100 + uint n'"
  shows "moment (set_timespec_nsec t n) = m \<and>
    uint (tv_nsec (set_timespec_nsec t n)) < 1000000000 \<and>
    uint (i64 (win_set_timespec_nsec t n)) = m div 100 \<and>
    cmp_timespec (set_timespec_nsec t n) (set_timespec_nsec t' n') = sgn (m - m') \<and>
    win_cmp_timespec (win_set_timespec_nsec t n) (win_set_timespec_nsec t' n') = sgn (m div 100 - m' div 100) \<and>
    (let d = diff_timespec (set_timespec_nsec t n) (set_timespec_nsec t' n')
     in uint d = (m - m') mod 2 ^ 64 \<and> (- (2 ^ 63) \<le> m - m' \<and> m - m' < 2 ^ 63 \<longrightarrow> sint d = m - m')) \<and>
    (let d = win_diff_timespec (win_set_timespec_nsec t n) (win_set_timespec_nsec t' n');
         k = (m div 100 - m' div 100) * 100
     in uint d = k mod 2 ^ 64 \<and> (- (2 ^ 63) \<le> k \<and> k < 2 ^ 63 \<longrightarrow> sint d = k))"
proof -
  have nn: "0 \<le> m" "0 \<le> m'" by (simp_all add: m_def m'_def)
  have sec: "uint (tv_sec (set_timespec_nsec u k)) < 2 ^ 63" if "deadline_fits u k" for u k
  proof -
    have "(uint u * 100 + uint k) div 1000000000 < 9223372036854775808" using deadline_bounds [OF that] by linarith
    then show ?thesis by (simp add: set_timespec_nsec_def sec_nsec [OF that])
  qed
  have nsec: "uint (tv_nsec (set_timespec_nsec u k)) < 1000000000" if "deadline_fits u k" for u k
    using that by (simp add: set_timespec_nsec_def sec_nsec)
  have mom: "moment (set_timespec_nsec u k) = uint u * 100 + uint k" if "deadline_fits u k" for u k
    using that by (simp add: set_timespec_nsec_def moment_set)
  have i: "uint (i64 (win_set_timespec_nsec u k)) = (uint u * 100 + uint k) div 100" if "deadline_fits u k" for u k
    using win_i64 [OF that] by simp
  have c: "cmp_timespec (set_timespec_nsec t n) (set_timespec_nsec t' n') = sgn (m - m')"
    using cmp_moment [OF sec sec nsec nsec] assms(1,2) by (simp add: mom m_def m'_def)
  have si: "sint (i64 (win_set_timespec_nsec u k)) = (uint u * 100 + uint k) div 100" if "deadline_fits u k" for u k
    using i [OF that] that by (subst sint_small) (simp_all add: deadline_fits_def)
  have w: "win_cmp_timespec (win_set_timespec_nsec t n) (win_set_timespec_nsec t' n') = sgn (m div 100 - m' div 100)"
    by (simp add: win_cmp_timespec_def si assms(1,2) sgn_if m_def m'_def)
  have d: "diff_timespec (set_timespec_nsec t n) (set_timespec_nsec t' n') = word_of_int (m - m')"
    unfolding m_def m'_def by (simp only: diff_moment mom assms(1,2))
  have wd: "win_diff_timespec (win_set_timespec_nsec t n) (win_set_timespec_nsec t' n') =
      word_of_int ((m div 100 - m' div 100) * 100)"
    unfolding m_def m'_def by (rule win_diff_moment [OF assms(1,2)])
  have "moment (set_timespec_nsec t n) = m" "uint (i64 (win_set_timespec_nsec t n)) = m div 100"
    by (simp_all only: mom i assms(1) m_def)
  with c w nsec [OF assms(1)] show ?thesis
    unfolding d wd Let_def by (intro conjI impI) (simp_all only: uint_difference sint_difference)
qed

theorem deadlines_exact_witness:
  "moment (set_timespec_nsec 17000000000000000 2500000150) = 1700000002500000150 \<and>
    uint (i64 (win_set_timespec_nsec 17000000000000000 2500000150)) = 17000000025000001 \<and>
    cmp_timespec (set_timespec_nsec 17000000000000000 2500000150) (set_timespec_nsec 17000000000000010 1) = 1 \<and>
    sint (diff_timespec (set_timespec_nsec 17000000000000000 150) (set_timespec_nsec 17000000000000010 1)) = - 851 \<and>
    sint (win_diff_timespec (win_set_timespec_nsec 17000000000000000 150) (win_set_timespec_nsec 17000000000000010 1)) = - 900"
  using deadlines_exact [of 17000000000000000 2500000150 17000000000000010 1]
    deadlines_exact [of 17000000000000000 150 17000000000000010 1] by (simp add: deadline_fits_def Let_def)

text \<open>
  The longest wait in milliseconds is a 32-bit \<open>long\<close> on Windows: 25 days ahead it is negative, and 50 days
  ahead short.
\<close>

lemma long_wait_wraps:
  "sint (max_timeout_msec (win_set_timespec t (25 * 86400))) = - 2134967296"
  "sint (max_timeout_msec (win_set_timespec t (50 * 86400))) = 25032704"
  by (simp_all add: win_set_timespec_def win_set_timespec_nsec_def win_set_timespec_time_nsec_def)

end
