(* ===== verification/Counters.thy ===== *)
theory Counters
  imports Byte_Order
begin

text \<open>
  The counters threads share, at the end of \<open>my_pthread.h\<close>: \<open>thread_safe_increment\<close> and its
  kin, exact under any interleaving, and the \<open>statistic_\<close> macros, which are exact or not depending on
  the build. A macro is a sequence of steps that cannot be interrupted: taking or giving back the mutex, reading the
  variable, writing the sum back, or one interlocked instruction.
\<close>

section \<open>Steps\<close>

datatype 'v instr = Lock | Unlock | Load | Store 'v | Interlocked 'v

text \<open>
  \<open>InterlockedExchangeAdd\<close> on \<open>(long*) &V\<close>: the four bytes at the variable's address, its low ones.
\<close>

definition interlocked_add :: "'a::len word \<Rightarrow> 'a word \<Rightarrow> 'a word" where
  "interlocked_add d v = (v AND NOT (mask 32)) OR ucast (ucast v + ucast d :: 32 word)"

section \<open>The macros\<close>

text \<open>\<open>win\<close> is the build for Windows.\<close>

definition locked :: "'v \<Rightarrow> 'v instr list" where
  "locked d = [Lock, Load, Store d, Unlock]"

definition unlocked :: "'v \<Rightarrow> 'v instr list" where
  "unlocked d = [Load, Store d]"

definition thread_safe_increment :: "bool \<Rightarrow> 'a::len word instr list" where
  "thread_safe_increment win = (if win then [Interlocked 1] else locked 1)"

definition thread_safe_decrement :: "bool \<Rightarrow> 'a::len word instr list" where
  "thread_safe_decrement win = (if win then [Interlocked (- 1)] else locked (- 1))"

definition thread_safe_add :: "bool \<Rightarrow> 'a::len word \<Rightarrow> 'a word instr list" where
  "thread_safe_add win C = (if win then [Interlocked C] else locked C)"

definition thread_safe_sub :: "bool \<Rightarrow> 'a::len word \<Rightarrow> 'a word instr list" where
  "thread_safe_sub win C = (if win then [Interlocked (- C)] else locked (- C))"

text \<open>\<open>safe\<close> is the build option \<open>SAFE_STATISTICS\<close>.\<close>

definition statistic_increment :: "bool \<Rightarrow> bool \<Rightarrow> 'a::len word instr list" where
  "statistic_increment safe win = (if safe then thread_safe_increment win else unlocked 1)"

definition statistic_decrement :: "bool \<Rightarrow> bool \<Rightarrow> 'a::len word instr list" where
  "statistic_decrement safe win = (if safe then thread_safe_decrement win else unlocked (- 1))"

definition statistic_add :: "bool \<Rightarrow> bool \<Rightarrow> 'a::len word \<Rightarrow> 'a word instr list" where
  "statistic_add safe win C = (if safe then thread_safe_add win C else unlocked C)"

definition statistic_sub :: "bool \<Rightarrow> bool \<Rightarrow> 'a::len word \<Rightarrow> 'a word instr list" where
  "statistic_sub safe win C = (if safe then thread_safe_sub win C else unlocked (- C))"

definition status_var_increment :: "'a::len word instr list" where "status_var_increment = unlocked 1"
definition status_var_decrement :: "'a::len word instr list" where "status_var_decrement = unlocked (- 1)"
definition status_var_add :: "'a::len word \<Rightarrow> 'a word instr list" where "status_var_add C = unlocked C"
definition status_var_sub :: "'a::len word \<Rightarrow> 'a word instr list" where "status_var_sub C = unlocked (- C)"

section \<open>Threads\<close>

text \<open>One counter and its mutex; what each thread has still to do, and the value it has read.\<close>

record 'v counter =
  V :: 'v
  owner :: "nat option"
  code :: "nat \<Rightarrow> 'v instr list"
  reg :: "nat \<Rightarrow> 'v"

inductive counter_step :: "'a::len word counter \<Rightarrow> 'a word counter \<Rightarrow> bool" where
  lock: "code s t = Lock # is \<Longrightarrow> owner s = None \<Longrightarrow>
    counter_step s (s\<lparr>owner := Some t, code := (code s)(t := is)\<rparr>)"
| unlock: "code s t = Unlock # is \<Longrightarrow> owner s = Some t \<Longrightarrow>
    counter_step s (s\<lparr>owner := None, code := (code s)(t := is)\<rparr>)"
| load: "code s t = Load # is \<Longrightarrow>
    counter_step s (s\<lparr>reg := (reg s)(t := V s), code := (code s)(t := is)\<rparr>)"
| store: "code s t = Store d # is \<Longrightarrow>
    counter_step s (s\<lparr>V := reg s t + d, code := (code s)(t := is)\<rparr>)"
| interlocked: "code s t = Interlocked d # is \<Longrightarrow>
    counter_step s (s\<lparr>V := interlocked_add d (V s), code := (code s)(t := is)\<rparr>)"

text \<open>The operations of a thread-safe counter, what each is compiled to, and what it is to add.\<close>

datatype 'v counter_op = Increment | Decrement | Add 'v | Sub 'v

fun thread_safe :: "bool \<Rightarrow> 'a::len word counter_op \<Rightarrow> 'a word instr list" where
  "thread_safe win Increment = thread_safe_increment win"
| "thread_safe win Decrement = thread_safe_decrement win"
| "thread_safe win (Add C) = thread_safe_add win C"
| "thread_safe win (Sub C) = thread_safe_sub win C"

fun delta :: "'a::len word counter_op \<Rightarrow> 'a word" where
  "delta Increment = 1"
| "delta Decrement = - 1"
| "delta (Add C) = C"
| "delta (Sub C) = - C"

definition counter_start :: "bool \<Rightarrow> 'a::len word \<Rightarrow> 'a word counter_op list list \<Rightarrow> 'a word counter" where
  "counter_start win v ops = \<lparr>V = v, owner = None,
     code = (\<lambda>t. if t < length ops then concat (map (thread_safe win) (ops ! t)) else []), reg = (\<lambda>_. 0)\<rparr>"

section \<open>What is left to do\<close>

text \<open>
  A thread between two operations, and a thread that owns the mutex: in the middle of one, with
  the value read being the value of the variable.
\<close>

inductive idle_code :: "bool \<Rightarrow> 'v instr list \<Rightarrow> bool" where
  idle_nil: "idle_code win []"
| idle_interlocked: "idle_code True is \<Longrightarrow> idle_code True (Interlocked d # is)"
| idle_locked: "idle_code False is \<Longrightarrow> idle_code False (Lock # Load # Store d # Unlock # is)"

inductive owner_code :: "bool \<Rightarrow> 'v \<Rightarrow> 'v \<Rightarrow> 'v instr list \<Rightarrow> bool" where
  owner_load: "idle_code False is \<Longrightarrow> owner_code False v r (Load # Store d # Unlock # is)"
| owner_store: "idle_code False is \<Longrightarrow> owner_code False v v (Store d # Unlock # is)"
| owner_unlock: "idle_code False is \<Longrightarrow> owner_code False v r (Unlock # is)"

inductive_simps idle_simps:
  "idle_code win (Lock # is)" "idle_code win (Unlock # is)" "idle_code win (Load # is)" "idle_code win (Store d # is)"
  "idle_code win (Interlocked d # is)"

inductive_simps owner_simps:
  "owner_code win v r []" "owner_code win v r (Lock # is)" "owner_code win v r (Unlock # is)"
  "owner_code win v r (Load # is)" "owner_code win v r (Store d # is)" "owner_code win v r (Interlocked d # is)"

inductive_cases owner_codeE: "owner_code win v r is"
inductive_cases idle_codeE: "idle_code win is"

fun remaining :: "'a::len word instr list \<Rightarrow> 'a word" where
  "remaining [] = 0"
| "remaining (Store d # is) = d + remaining is"
| "remaining (Interlocked d # is) = d + remaining is"
| "remaining (_ # is) = remaining is"

definition counter_inv :: "bool \<Rightarrow> nat \<Rightarrow> 'a::len word \<Rightarrow> 'a word counter \<Rightarrow> bool" where
  "counter_inv win n tot s \<longleftrightarrow>
     (\<forall>t\<ge>n. code s t = [])
     \<and> (\<forall>t. owner s \<noteq> Some t \<longrightarrow> idle_code win (code s t))
     \<and> (\<forall>t. owner s = Some t \<longrightarrow> owner_code win (V s) (reg s t) (code s t))
     \<and> V s + (\<Sum>t<n. remaining (code s t)) = tot"

section \<open>The sum is kept\<close>

lemma interlocked_add_32:
  fixes v :: "'a::len word"
  assumes "LENGTH('a) = 32"
  shows "interlocked_add d v = v + d"
proof -
  have "v AND NOT (mask 32) = 0"
    by (rule bit_word_eqI) (use assms in \<open>simp add: bit_simps\<close>)
  moreover have "ucast (ucast v + ucast d :: 32 word) = v + d"
    by (rule word_unat_eq_iff [THEN iffD2]) (use assms in \<open>simp add: unat_word_ariths unsigned_ucast_eq take_bit_eq_mod mod_simps\<close>)
  ultimately show ?thesis by (simp add: interlocked_add_def)
qed

lemma sum_remaining:
  assumes "t < (n::nat)" and "code s' = (code s)(t := is)"
  shows "(\<Sum>u<n. remaining (code s' u)) + remaining (code s t) = (\<Sum>u<n. remaining (code s u)) + (remaining is :: 'a::len word)"
proof -
  have "(\<Sum>u\<in>{..<n} - {t}. remaining (code s' u)) = (\<Sum>u\<in>{..<n} - {t}. remaining (code s u) :: 'a word)"
    by (rule sum.cong) (auto simp: assms(2))
  moreover have "t \<in> {..<n}" using assms(1) by simp
  ultimately show ?thesis
    using sum.remove [of "{..<n}" t "\<lambda>u. remaining (code s' u)"] sum.remove [of "{..<n}" t "\<lambda>u. remaining (code s u)"]
    by (simp add: assms(2) ac_simps)
qed

lemma counter_invD:
  assumes "counter_inv win n tot s" and "code s t = i # is"
  shows "t < n" and "owner s \<noteq> Some t \<Longrightarrow> idle_code win (i # is)"
    and "owner s = Some t \<Longrightarrow> owner_code win (V s) (reg s t) (i # is)"
  using assms by (auto simp: counter_inv_def not_less [symmetric])

lemma owner_not_win: "owner_code win v r is \<Longrightarrow> \<not> win"
  by (auto elim: owner_codeE)

text \<open>Every step keeps the invariant: what the counter holds and what is left to add make up the same sum.\<close>

lemma counter_inv_step:
  fixes s :: "'a::len word counter"
  assumes inv: "counter_inv win n tot s" and step: "counter_step s s'" and w: "win \<Longrightarrow> LENGTH('a) = 32"
  shows "counter_inv win n tot s'"
  using step
proof cases
  case (lock t "is")
  note D = counter_invD [OF inv lock(2)]
  have "idle_code win (Lock # is)" using D(2) lock(3) by simp
  with lock inv sum_remaining [OF D(1), of s' s "is"] show ?thesis
    by (auto simp: counter_inv_def idle_simps owner_simps)
next
  case (unlock t "is")
  note D = counter_invD [OF inv unlock(2)]
  have "idle_code win is" using D(3) unlock(3) by (simp add: owner_simps)
  with unlock inv sum_remaining [OF D(1), of s' s "is"] show ?thesis
    by (auto simp: counter_inv_def)
next
  case (load t "is")
  note D = counter_invD [OF inv load(2)]
  have o: "owner s = Some t" using D(2) by (auto simp: idle_simps)
  with D(3) load inv sum_remaining [OF D(1), of s' s "is"] show ?thesis
    by (auto simp: counter_inv_def owner_simps)
next
  case (store t d "is")
  note D = counter_invD [OF inv store(2)]
  have o: "owner s = Some t" using D(2) by (auto simp: idle_simps)
  with D(3) store inv sum_remaining [OF D(1), of s' s "is"] show ?thesis
    by (auto simp: counter_inv_def owner_simps add.commute)
next
  case (interlocked t d "is")
  note D = counter_invD [OF inv interlocked(2)]
  have o: "owner s \<noteq> Some t" using D(3) by (auto simp: owner_simps)
  then have win: "win" and idle: "idle_code win is" using D(2) by (auto simp: idle_simps)
  then have "owner s = None" using inv by (cases "owner s") (auto simp: counter_inv_def dest: owner_not_win)
  with idle interlocked inv sum_remaining [OF D(1), of s' s "is"] interlocked_add_32 [OF w [OF win]] show ?thesis
    by (auto simp: counter_inv_def add.commute)
qed

text \<open>Nobody waits for ever: while something is left to do, somebody can do it.\<close>

lemma counter_progress:
  assumes inv: "counter_inv win n tot s" and busy: "code s t \<noteq> []"
  shows "\<exists>s'. counter_step s s'"
proof (cases "owner s")
  case (Some u)
  then have "owner_code win (V s) (reg s u) (code s u)" using inv by (simp add: counter_inv_def)
  then show ?thesis
    by (cases rule: owner_code.cases) (use Some in \<open>fastforce intro: counter_step.intros\<close>)+
next
  case None
  then have "idle_code win (code s t)" using inv by (simp add: counter_inv_def)
  then show ?thesis
    by (cases rule: idle_code.cases) (use None busy in \<open>fastforce intro: counter_step.intros\<close>)+
qed

text \<open>Every step does away with one instruction, so a run has no more steps than there are instructions.\<close>

definition work :: "nat \<Rightarrow> 'v counter \<Rightarrow> nat" where
  "work n s = (\<Sum>t<n. length (code s t))"

lemma work_step:
  assumes "counter_inv win n tot s" and "counter_step s s'"
  shows "work n s = Suc (work n s')"
proof -
  obtain t i "is" where t: "code s t = i # is" and s': "code s' = (code s)(t := is)"
    using assms(2) by cases auto
  have n: "t \<in> {..<n}" using counter_invD(1) [OF assms(1) t] by simp
  have "(\<Sum>u\<in>{..<n} - {t}. length (code s' u)) = (\<Sum>u\<in>{..<n} - {t}. length (code s u))"
    by (rule sum.cong) (auto simp: s')
  then show ?thesis
    using sum.remove [of "{..<n}" t "\<lambda>u. length (code s u)"] sum.remove [of "{..<n}" t "\<lambda>u. length (code s' u)"] n
    by (simp add: work_def t s')
qed

lemma thread_safe_idle: "idle_code win (thread_safe win op @ is) = idle_code win is"
  by (cases op; cases win)
    (simp_all add: thread_safe_increment_def thread_safe_decrement_def thread_safe_add_def thread_safe_sub_def
      locked_def idle_simps)

lemma remaining_append: "remaining (is @ js) = remaining is + remaining js"
  by (induction "is" rule: remaining.induct) (simp_all add: add.assoc)

lemma thread_safe_remaining: "remaining (thread_safe win op) = delta op"
  by (cases op)
    (simp_all add: thread_safe_increment_def thread_safe_decrement_def thread_safe_add_def thread_safe_sub_def locked_def)

lemma compiled:
  "idle_code win (concat (map (thread_safe win) os))"
  "remaining (concat (map (thread_safe win) os)) = sum_list (map delta os)"
  by (induction os) (auto simp: thread_safe_idle remaining_append thread_safe_remaining intro: idle_nil)

lemma sum_ops: "(\<Sum>t<length ops. sum_list (map f (ops ! t))) = sum_list (map f (concat ops))"
  by (induction ops) (simp_all add: sum.lessThan_Suc_shift del: sum.lessThan_Suc)

lemma counter_start_inv:
  "counter_inv win (length ops) (v + sum_list (map delta (concat ops))) (counter_start win v ops)"
  by (simp add: counter_inv_def counter_start_def compiled idle_nil sum_ops)

lemma counter_run_inv:
  fixes v :: "'a::len word"
  assumes "(counter_step ^^ k) (counter_start win v ops) s" and "win \<Longrightarrow> LENGTH('a) = 32"
  shows "counter_inv win (length ops) (v + sum_list (map delta (concat ops))) s
       \<and> k + work (length ops) s = work (length ops) (counter_start win v ops)"
  using assms(1)
proof (induction k arbitrary: s)
  case 0
  then have "s = counter_start win v ops" by simp
  then show ?case by (simp only: counter_start_inv simp_thms add_0)
next
  case (Suc k)
  then obtain s1 where "(counter_step ^^ k) (counter_start win v ops) s1" and step: "counter_step s1 s" by auto
  from Suc.IH [OF this(1)] counter_inv_step [OF _ step assms(2)] work_step [OF _ step] show ?case by fastforce
qed

text \<open>C37: Thread-safe counters are exact. Any number of threads apply any sequences of the thread-safe macros to one
  counter under one mutex (on Windows: to a counter of 32 bits, without the mutex). However their steps are interleaved, a run
  is no longer than the instructions there are; as long as a thread has something left to do some step is possible; and when
  none has, the counter has changed by exactly the sum of all amounts, modulo its width.\<close>

theorem counters_exact:
  fixes v :: "'a::len word"
  assumes "(counter_step ^^ k) (counter_start win v ops) s" and "win \<longrightarrow> LENGTH('a) = 32"
  shows "k \<le> work (length ops) (counter_start win v ops)
       \<and> (code s t \<noteq> [] \<longrightarrow> (\<exists>s'. counter_step s s'))
       \<and> ((\<forall>t. code s t = []) \<longrightarrow> V s = v + sum_list (map delta (concat ops)))"
proof -
  have "counter_inv win (length ops) (v + sum_list (map delta (concat ops))) s
      \<and> k + work (length ops) s = work (length ops) (counter_start win v ops)"
    using assms by (intro counter_run_inv) auto
  then show ?thesis using counter_progress [of win _ _ s t] by (auto simp: counter_inv_def)
qed

theorem counters_exact_witness:
  "\<exists>s. (counter_step ^^ 2) (counter_start True (5 :: 32 word) [[Increment], [Sub 3]]) s \<and> V s = 3"
proof -
  let ?s0 = "counter_start True (5 :: 32 word) [[Increment], [Sub 3]]"
  let ?s1 = "?s0\<lparr>V := interlocked_add (- 3) (V ?s0), code := (code ?s0)(1 := [])\<rparr>"
  let ?s2 = "?s1\<lparr>V := interlocked_add 1 (V ?s1), code := (code ?s1)(0 := [])\<rparr>"
  have c: "code ?s0 = (\<lambda>t. if t = 0 then [Interlocked 1] else if t = 1 then [Interlocked (- 3)] else [])"
    by (auto simp: counter_start_def thread_safe_increment_def thread_safe_sub_def less_Suc_eq fun_eq_iff)
  have "counter_step ?s0 ?s1" by (rule interlocked) (simp add: c)
  moreover have "counter_step ?s1 ?s2" by (rule interlocked) (simp add: c)
  ultimately have run: "(counter_step ^^ 2) ?s0 ?s2" by (auto simp: numeral_2_eq_2)
  from counters_exact [OF this] run show ?thesis by (intro exI [of _ ?s2]) (simp add: c)
qed

section \<open>Where it ends\<close>

text \<open>On Windows the cast keeps the carry from a wider counter.\<close>

lemma interlocked_wide: "interlocked_add 1 (0xFFFFFFFF :: 64 word) = 0"
  by (simp add: interlocked_add_def mask_eq_exp_minus_1)

text \<open>
  Without \<open>SAFE_STATISTICS\<close> a thread that is interrupted between its two steps undoes whatever the others have added
  meanwhile, however much that was.
\<close>

lemma run_alone:
  fixes s :: "'a::len word counter"
  assumes "code s t = concat (replicate k (statistic_increment False win))"
  shows "\<exists>s'. counter_step\<^sup>*\<^sup>* s s' \<and> code s' = (code s)(t := []) \<and> V s' = V s + of_nat k \<and> (\<forall>u. u \<noteq> t \<longrightarrow> reg s' u = reg s u)"
  using assms
proof (induction k arbitrary: s)
  case 0
  then show ?case by (intro exI [of _ s]) (auto simp: fun_eq_iff)
next
  case (Suc k)
  let ?rest = "concat (replicate k (statistic_increment False win :: 'a word instr list))"
  let ?s1 = "s\<lparr>reg := (reg s)(t := V s), code := (code s)(t := Store 1 # ?rest)\<rparr>"
  let ?s2 = "?s1\<lparr>V := reg ?s1 t + 1, code := (code ?s1)(t := ?rest)\<rparr>"
  have "counter_step s ?s1"
    by (rule load) (use Suc.prems in \<open>simp add: statistic_increment_def unlocked_def\<close>)
  moreover have "counter_step ?s1 ?s2" by (rule store) simp
  ultimately have two: "counter_step\<^sup>*\<^sup>* s ?s2" by (meson rtranclp.rtrancl_into_rtrancl rtranclp.rtrancl_refl)
  have "code ?s2 t = ?rest" by simp
  from Suc.IH [OF this] obtain s' where rest: "counter_step\<^sup>*\<^sup>* ?s2 s'" "code s' = (code ?s2)(t := [])"
    "V s' = V ?s2 + of_nat k" "\<forall>u. u \<noteq> t \<longrightarrow> reg s' u = reg ?s2 u" by blast
  from two rest(1) have "counter_step\<^sup>*\<^sup>* s s'" by (rule rtranclp_trans)
  with rest(2-4) show ?case by (intro exI [of _ s']) (auto simp: fun_eq_iff)
qed

lemma statistic_updates_lost:
  fixes s :: "'a::len word counter"
  assumes "code s 0 = statistic_increment False win" and "code s 1 = concat (replicate k (statistic_increment False win))"
  shows "\<exists>s'. counter_step\<^sup>*\<^sup>* s s' \<and> code s' 0 = [] \<and> code s' 1 = [] \<and> V s' = V s + 1"
proof -
  let ?s1 = "s\<lparr>reg := (reg s)(0 := V s), code := (code s)(0 := [Store 1])\<rparr>"
  have one: "counter_step s ?s1" by (rule load) (use assms(1) in \<open>simp add: statistic_increment_def unlocked_def\<close>)
  have "code ?s1 1 = concat (replicate k (statistic_increment False win))" using assms(2) by simp
  from run_alone [OF this] obtain s2 where s2: "counter_step\<^sup>*\<^sup>* ?s1 s2" "code s2 = (code ?s1)(1 := [])"
    "\<forall>u. u \<noteq> 1 \<longrightarrow> reg s2 u = reg ?s1 u" by blast
  have "counter_step s2 (s2\<lparr>V := reg s2 0 + 1, code := (code s2)(0 := [])\<rparr>)" by (rule store) (simp add: s2(2))
  with one s2(1) have "counter_step\<^sup>*\<^sup>* s (s2\<lparr>V := reg s2 0 + 1, code := (code s2)(0 := [])\<rparr>)"
    by (meson converse_rtranclp_into_rtranclp rtranclp.rtrancl_into_rtrancl)
  then show ?thesis by (intro exI [of _ "s2\<lparr>V := reg s2 0 + 1, code := (code s2)(0 := [])\<rparr>"]) (simp add: s2(2,3))
qed

end
