(* ===== verification/Io_Cache.thy ===== *)
theory Io_Cache
  imports Byte_Order
begin

text \<open>
  The buffered files of \<open>my_sys.h\<close>: the structure \<open>IO_CACHE\<close> and the macros through which its clients read
  and write. A macro serves a request from the buffer when it fits and otherwise calls one of the functions
  \<open>read_function\<close>, \<open>write_function\<close>, \<open>_my_b_get\<close> and \<open>_my_b_write\<close>. Those are compiled
  into the client library and are parameters here. What is assumed of them is only what a call that reports
  success has done; of a call that does not, and of when one does, nothing is.

  Pointers, offsets and lengths are 64 bits wide and wrap; memory is a function of such addresses.
\<close>

section \<open>Memory\<close>

type_synonym pointer = "64 word"
type_synonym memory = "pointer \<Rightarrow> byte"

text \<open>The addresses of an area, and its contents.\<close>

definition area :: "pointer \<Rightarrow> 64 word \<Rightarrow> pointer set" where
  "area a n = {x. x - a < n}"

definition bytes :: "memory \<Rightarrow> pointer \<Rightarrow> 64 word \<Rightarrow> byte list" where
  "bytes m a n = map (\<lambda>i. m (a + of_nat i)) [0..<unat n]"

definition memcpy :: "pointer \<Rightarrow> pointer \<Rightarrow> 64 word \<Rightarrow> memory \<Rightarrow> memory" where
  "memcpy dst src n m = (\<lambda>x. if x - dst < n then m (src + (x - dst)) else m x)"

lemma length_bytes [simp]: "length (bytes m a n) = unat n"
  by (simp add: bytes_def)

lemma nth_bytes: "i < unat n \<Longrightarrow> bytes m a n ! i = m (a + of_nat i)"
  by (simp add: bytes_def)

lemma unat_below: "unat (w :: 64 word) < 2 ^ 64"
  using unsigned_less [of w, where ?'a = nat] by simp

lemma unat_of_index: "i < unat (n :: 64 word) \<Longrightarrow> unat (of_nat i :: 64 word) = i"
  using unat_below [of n] by (simp add: unat_of_nat take_bit_nat_eq_self)

lemma of_nat_less_word: "i < unat (n :: 64 word) \<Longrightarrow> of_nat i < n"
  by (simp add: word_less_nat_alt unat_of_index)

lemma in_area: "i < unat n \<Longrightarrow> a + of_nat i \<in> area a n"
  by (simp add: area_def of_nat_less_word)

lemma memcpy_outside: "x \<notin> area dst n \<Longrightarrow> memcpy dst src n m x = m x"
  by (simp add: memcpy_def area_def)

lemma bytes_memcpy: "bytes (memcpy dst src n m) dst n = bytes m src n"
  by (rule nth_equalityI) (simp_all add: nth_bytes memcpy_def of_nat_less_word)

text \<open>Areas that do not wrap around.\<close>

lemma area_iff:
  assumes "unat a + unat n < 2 ^ 64"
  shows "x \<in> area a n \<longleftrightarrow> unat a \<le> unat x \<and> unat x < unat a + unat n"
proof (cases "a \<le> x")
  case True
  then have "unat (x - a) = unat x - unat a" by (rule unat_sub)
  with True show ?thesis by (auto simp: area_def word_less_nat_alt word_le_nat_alt)
next
  case False
  then have "x < a" by simp
  then have "unat (x - a) = unat x + 2 ^ 64 - unat a"
    using unat_sub_if' [of x a] by (simp add: word_le_nat_alt word_less_nat_alt)
  with assms False show ?thesis by (auto simp: area_def word_less_nat_alt word_le_nat_alt)
qed

lemma areas_apart:
  assumes "unat a + unat n \<le> unat b" and "unat b + unat k < 2 ^ 64"
  shows "area a n \<inter> area b k = {}" and "area b k \<inter> area a n = {}"
  using assms by (auto simp: area_iff)

lemma unat_plus:
  fixes a b :: "64 word"
  assumes "unat a + unat b < 2 ^ 64"
  shows "unat (a + b) = unat a + unat b"
  using assms by (simp add: unat_word_ariths)

lemma unat_minus:
  fixes a b :: "64 word"
  assumes "b \<le> a"
  shows "unat (a - b) = unat a - unat b"
  using assms by (rule unat_sub)

section \<open>The structure\<close>

datatype cache_type = TYPE_NOT_SET | READ_CACHE | WRITE_CACHE | SEQ_READ_APPEND | READ_FIFO | READ_NET | WRITE_NET

text \<open>
  \<open>current_pos\<close> and \<open>current_end\<close> point at two members of the structure itself: those of the write
  buffer or those of the read buffer. The members the macros never use and that belong to the functions behind them
  (lock, share, callbacks, names, descriptor) are part of the world \<open>io_file\<close> below.
\<close>

datatype current = At_read | At_write

record IO_CACHE =
  pos_in_file :: "64 word"
  end_of_file :: "64 word"
  read_pos :: pointer
  read_end :: pointer
  buffer :: pointer
  request_pos :: pointer
  write_buffer :: pointer
  append_read_pos :: pointer
  write_pos :: pointer
  write_end :: pointer
  current :: current
  ic_type :: cache_type
  disk_writes :: "64 word"
  seek_not_done :: "32 word"
  io_error :: "32 word"
  buffer_length :: "64 word"
  read_length :: "64 word"
  alloced_buffer :: bool

definition current_pos :: "IO_CACHE \<Rightarrow> pointer" where
  "current_pos c = (case current c of At_write \<Rightarrow> write_pos c | At_read \<Rightarrow> read_pos c)"

definition current_end :: "IO_CACHE \<Rightarrow> pointer" where
  "current_end c = (case current c of At_write \<Rightarrow> write_end c | At_read \<Rightarrow> read_end c)"

record 'w io =
  io_mem :: memory
  io_cache :: IO_CACHE
  io_file :: 'w

text \<open>\<open>read_function\<close>, \<open>write_function\<close> and \<open>_my_b_write\<close>; and \<open>_my_b_get\<close>.\<close>

type_synonym 'w transfer = "pointer \<Rightarrow> 64 word \<Rightarrow> 'w io \<Rightarrow> 32 word \<times> 'w io"
type_synonym 'w get = "'w io \<Rightarrow> 32 word \<times> 'w io"

section \<open>The macros\<close>

definition my_b_EOF :: "32 word" where "my_b_EOF = 0x80000000"

definition my_b_clear :: "IO_CACHE \<Rightarrow> IO_CACHE" where
  "my_b_clear info = info\<lparr>buffer := 0\<rparr>"

definition my_b_inited :: "IO_CACHE \<Rightarrow> bool" where
  "my_b_inited info \<longleftrightarrow> buffer info \<noteq> 0"

definition my_b_read :: "'w transfer \<Rightarrow> 'w transfer" where
  "my_b_read read_function Buffer Count s =
     (let info = io_cache s
      in if read_pos info + Count \<le> read_end info
         then (0, s\<lparr>io_mem := memcpy Buffer (read_pos info) Count (io_mem s),
                    io_cache := info\<lparr>read_pos := read_pos info + Count\<rparr>\<rparr>)
         else read_function Buffer Count s)"

definition my_b_write :: "'w transfer \<Rightarrow> 'w transfer" where
  "my_b_write write_function Buffer Count s =
     (let info = io_cache s
      in if write_pos info + Count \<le> write_end info
         then (0, s\<lparr>io_mem := memcpy (write_pos info) Buffer Count (io_mem s),
                    io_cache := info\<lparr>write_pos := write_pos info + Count\<rparr>\<rparr>)
         else write_function Buffer Count s)"

definition my_b_get :: "'w get \<Rightarrow> 'w get" where
  "my_b_get b_get s =
     (let info = io_cache s
      in if read_pos info \<noteq> read_end info
         then (let info' = info\<lparr>read_pos := read_pos info + 1\<rparr>
               in (ucast (io_mem s (read_pos info' - 1)), s\<lparr>io_cache := info'\<rparr>))
         else b_get s)"

definition put_byte :: "byte \<Rightarrow> 'w io \<Rightarrow> 'w io" where
  "put_byte chr s = s\<lparr>io_mem := (io_mem s)(write_pos (io_cache s) := chr),
     io_cache := (io_cache s)\<lparr>write_pos := write_pos (io_cache s) + 1\<rparr>\<rparr>"

definition my_b_write_byte :: "'w transfer \<Rightarrow> byte \<Rightarrow> 'w io \<Rightarrow> 'w io" where
  "my_b_write_byte b_write chr s =
     (if write_pos (io_cache s) < write_end (io_cache s) then put_byte chr s
      else put_byte chr (snd (b_write 0 0 s)))"

definition my_b_fill_cache :: "'w transfer \<Rightarrow> 'w get" where
  "my_b_fill_cache read_function s =
     read_function 0 0 (s\<lparr>io_cache := (io_cache s)\<lparr>read_end := read_pos (io_cache s)\<rparr>\<rparr>)"

definition my_b_tell :: "IO_CACHE \<Rightarrow> 64 word" where
  "my_b_tell info = pos_in_file info + (current_pos info - request_pos info)"

definition my_b_get_buffer_start :: "IO_CACHE \<Rightarrow> pointer" where
  "my_b_get_buffer_start info = request_pos info"

definition my_b_get_bytes_in_buffer :: "IO_CACHE \<Rightarrow> 64 word" where
  "my_b_get_bytes_in_buffer info = read_end info - my_b_get_buffer_start info"

definition my_b_get_pos_in_file :: "IO_CACHE \<Rightarrow> 64 word" where
  "my_b_get_pos_in_file info = pos_in_file info"

definition my_b_bytes_in_cache :: "IO_CACHE \<Rightarrow> 64 word" where
  "my_b_bytes_in_cache info = current_end info - current_pos info"

section \<open>Reading\<close>

text \<open>
  A cache for reading is coherent with a file's content when the bytes from \<open>request_pos\<close> to
  \<open>read_end\<close> are the content at \<open>pos_in_file\<close>, within the buffer.
\<close>

definition in_buffer :: "IO_CACHE \<Rightarrow> bool" where
  "in_buffer c \<longleftrightarrow> buffer c \<le> request_pos c \<and> request_pos c \<le> read_pos c \<and> read_pos c \<le> read_end c
     \<and> unat (read_end c) \<le> unat (buffer c) + unat (buffer_length c)"

definition read_coherent :: "byte list \<Rightarrow> 'w io \<Rightarrow> bool" where
  "read_coherent content s \<longleftrightarrow>
     (let c = io_cache s; n = unat (my_b_get_bytes_in_buffer c); p = unat (pos_in_file c)
      in current c = At_read \<and> in_buffer c \<and> p + n \<le> length content
         \<and> (\<forall>i<n. io_mem s (request_pos c + of_nat i) = content ! (p + i)))"

definition same_buffer :: "'w io \<Rightarrow> 'w io \<Rightarrow> bool" where
  "same_buffer s s' \<longleftrightarrow> buffer (io_cache s') = buffer (io_cache s)
     \<and> buffer_length (io_cache s') = buffer_length (io_cache s)"

definition position :: "'w io \<Rightarrow> nat" where
  "position s = unat (my_b_tell (io_cache s))"

text \<open>The caller's area for \<open>n\<close> bytes does not meet the buffer, and the sums of the macros do not wrap.\<close>

definition area_ok :: "'w io \<Rightarrow> pointer \<Rightarrow> 64 word \<Rightarrow> bool" where
  "area_ok s a n \<longleftrightarrow>
     unat (buffer (io_cache s)) + unat (buffer_length (io_cache s)) + unat n < 2 ^ 64
     \<and> area a n \<inter> area (buffer (io_cache s)) (buffer_length (io_cache s)) = {}"

text \<open>
  The laws of the two functions. 0 is success, as in the macros themselves, and \<open>my_b_EOF\<close> is not a byte. A
  transfer that succeeds has given the bytes at the position and moved it behind them; a byte that is got is the
  next one; and the members of the structure are what their comments say. What becomes of the structure, the
  caller's area and the position when a call fails, at the end of the file, partially or with a
  hard error, is open.
\<close>

definition transferred :: "byte list \<Rightarrow> pointer \<Rightarrow> 64 word \<Rightarrow> 'w io \<Rightarrow> 32 word \<times> 'w io \<Rightarrow> bool" where
  "transferred content a n s = (\<lambda>(rc, s'). rc = 0 \<longrightarrow>
     read_coherent content s' \<and> same_buffer s s' \<and> position s + unat n \<le> length content
     \<and> bytes (io_mem s') a n = take (unat n) (drop (position s) content) \<and> position s' = position s + unat n)"

definition got_byte :: "byte list \<Rightarrow> 'w io \<Rightarrow> 32 word \<times> 'w io \<Rightarrow> bool" where
  "got_byte content s = (\<lambda>(r, s'). r \<noteq> my_b_EOF \<longrightarrow>
     read_coherent content s' \<and> same_buffer s s' \<and> position s < length content
     \<and> r = ucast (content ! position s) \<and> position s' = Suc (position s))"

definition read_law :: "byte list \<Rightarrow> 'w transfer \<Rightarrow> bool" where
  "read_law content f \<longleftrightarrow>
     (\<forall>s a n. read_coherent content s \<longrightarrow> area_ok s a n \<longrightarrow> \<not> read_pos (io_cache s) + n \<le> read_end (io_cache s) \<longrightarrow>
        transferred content a n s (f a n s))"

definition get_law :: "byte list \<Rightarrow> 'w get \<Rightarrow> bool" where
  "get_law content f \<longleftrightarrow>
     (\<forall>s. read_coherent content s \<longrightarrow> read_pos (io_cache s) = read_end (io_cache s) \<longrightarrow> got_byte content s (f s))"

text \<open>Functions that fail at the end of the file only.\<close>

definition read_serves :: "byte list \<Rightarrow> 'w transfer \<Rightarrow> bool" where
  "read_serves content f \<longleftrightarrow>
     (\<forall>s a n. read_coherent content s \<longrightarrow> area_ok s a n \<longrightarrow> \<not> read_pos (io_cache s) + n \<le> read_end (io_cache s) \<longrightarrow>
        position s + unat n \<le> length content \<longrightarrow> fst (f a n s) = 0)"

definition get_serves :: "byte list \<Rightarrow> 'w get \<Rightarrow> bool" where
  "get_serves content f \<longleftrightarrow>
     (\<forall>s. read_coherent content s \<longrightarrow> read_pos (io_cache s) = read_end (io_cache s) \<longrightarrow> position s < length content \<longrightarrow>
        fst (f s) \<noteq> my_b_EOF)"

text \<open>The offset of the next byte, without words.\<close>

lemma in_buffer_unat:
  assumes "in_buffer c"
  shows "unat (my_b_get_bytes_in_buffer c) = unat (read_end c) - unat (request_pos c)"
    and "unat (read_pos c - request_pos c) = unat (read_pos c) - unat (request_pos c)"
    and "unat (request_pos c) \<le> unat (read_pos c)" and "unat (read_pos c) \<le> unat (read_end c)"
    and "unat (buffer c) \<le> unat (request_pos c)"
  using assms
  by (auto simp: in_buffer_def my_b_get_bytes_in_buffer_def my_b_get_buffer_start_def unat_minus word_le_nat_alt)

lemma position_eq:
  assumes "read_coherent content s" and "length content < 2 ^ 64"
  shows "position s = unat (pos_in_file (io_cache s))
           + (unat (read_pos (io_cache s)) - unat (request_pos (io_cache s)))"
    and "position s \<le> length content"
proof -
  let ?c = "io_cache s"
  have c: "current ?c = At_read" "in_buffer ?c"
    and n: "unat (pos_in_file ?c) + unat (my_b_get_bytes_in_buffer ?c) \<le> length content"
    using assms by (auto simp: read_coherent_def Let_def)
  note u = in_buffer_unat [OF c(2)]
  have "unat (pos_in_file ?c) + unat (read_pos ?c - request_pos ?c) \<le> length content"
    using n u by linarith
  then show "position s = unat (pos_in_file ?c) + (unat (read_pos ?c) - unat (request_pos ?c))"
    and "position s \<le> length content"
    using assms(2) c(1) u(2) by (simp_all add: position_def my_b_tell_def current_pos_def unat_plus)
qed

text \<open>What lies between \<open>read_pos\<close> and \<open>read_end\<close> is the content from the position on.\<close>

lemma unread:
  assumes s: "read_coherent content s" and len: "length content < 2 ^ 64"
    and n: "unat (read_pos (io_cache s)) + n \<le> unat (read_end (io_cache s))"
  shows "position s + n \<le> length content"
    and "i < n \<Longrightarrow> io_mem s (read_pos (io_cache s) + of_nat i) = content ! (position s + i)"
proof -
  let ?c = "io_cache s" and ?d = "unat (read_pos (io_cache s)) - unat (request_pos (io_cache s))"
  have c: "in_buffer ?c"
    and fits: "unat (pos_in_file ?c) + unat (my_b_get_bytes_in_buffer ?c) \<le> length content"
    and mem: "\<And>i. i < unat (my_b_get_bytes_in_buffer ?c) \<Longrightarrow>
        io_mem s (request_pos ?c + of_nat i) = content ! (unat (pos_in_file ?c) + i)"
    using s by (auto simp: read_coherent_def Let_def)
  note u = in_buffer_unat [OF c]
  note p = position_eq [OF s len]
  show "position s + n \<le> length content" using fits n u p by linarith
  assume i: "i < n"
  have "request_pos ?c + of_nat (?d + i) = read_pos ?c + of_nat i"
    using u(3) by (simp add: of_nat_diff)
  moreover have "io_mem s (request_pos ?c + of_nat (?d + i)) = content ! (unat (pos_in_file ?c) + (?d + i))"
    by (rule mem) (use u n i in linarith)
  ultimately show "io_mem s (read_pos ?c + of_nat i) = content ! (position s + i)"
    by (simp add: p(1) ac_simps)
qed

text \<open>Moving \<open>read_pos\<close> ahead within the buffer, with memory changed outside of it.\<close>

lemma advance:
  assumes s: "read_coherent content s" and len: "length content < 2 ^ 64"
    and n: "unat (read_pos (io_cache s)) + unat n \<le> unat (read_end (io_cache s))"
    and m: "\<And>x. x \<in> area (buffer (io_cache s)) (buffer_length (io_cache s)) \<Longrightarrow> m x = io_mem s x"
    and b: "unat (buffer (io_cache s)) + unat (buffer_length (io_cache s)) < 2 ^ 64"
    and s': "s' = s\<lparr>io_mem := m, io_cache := (io_cache s)\<lparr>read_pos := read_pos (io_cache s) + n\<rparr>\<rparr>"
  shows "read_coherent content s'" and "same_buffer s s'" and "position s' = position s + unat n"
proof -
  let ?c = "io_cache s"
  have c: "in_buffer ?c" "current ?c = At_read"
    and mem: "\<And>i. i < unat (my_b_get_bytes_in_buffer ?c) \<Longrightarrow>
        io_mem s (request_pos ?c + of_nat i) = content ! (unat (pos_in_file ?c) + i)"
    and fits: "unat (pos_in_file ?c) + unat (my_b_get_bytes_in_buffer ?c) \<le> length content"
    using s by (auto simp: read_coherent_def Let_def)
  note u = in_buffer_unat [OF c(1)]
  have e: "unat (read_pos ?c + n) = unat (read_pos ?c) + unat n"
    using n unat_below [of "read_end ?c"] by (intro unat_plus) simp
  have c': "in_buffer (io_cache s')"
    using c(1) n e by (simp add: s' in_buffer_def word_le_nat_alt)
  have same: "my_b_get_bytes_in_buffer (io_cache s') = my_b_get_bytes_in_buffer ?c"
    by (simp add: s' my_b_get_bytes_in_buffer_def my_b_get_buffer_start_def)
  have "request_pos ?c + of_nat i \<in> area (buffer ?c) (buffer_length ?c)"
    if "i < unat (my_b_get_bytes_in_buffer ?c)" for i
  proof -
    have "unat (of_nat i :: 64 word) = i"
      using that by (rule unat_of_index)
    then have "unat (request_pos ?c + of_nat i) = unat (request_pos ?c) + i"
      using that u unat_below [of "read_end ?c"] by (subst unat_plus) simp_all
    then show ?thesis using that u b c(1) by (simp add: area_iff in_buffer_def) linarith
  qed
  then show coh: "read_coherent content s'"
    using c' same c(2) mem fits m by (simp add: read_coherent_def Let_def) (simp add: s')
  show "same_buffer s s'" by (simp add: same_buffer_def s')
  show "position s' = position s + unat n"
    using position_eq(1) [OF coh len] position_eq(1) [OF s len] e u by (simp add: s')
qed

text \<open>The macros satisfy the laws of the functions behind them for every request.\<close>

lemma my_b_read_transfers:
  assumes f: "read_law content f" and s: "read_coherent content s" and a: "area_ok s a n"
    and len: "length content < 2 ^ 64"
  shows "transferred content a n s (my_b_read f a n s)"
proof (cases "read_pos (io_cache s) + n \<le> read_end (io_cache s)")
  case False
  then have "my_b_read f a n s = f a n s" by (simp add: my_b_read_def)
  with f s a False show ?thesis by (simp add: read_law_def)
next
  case True
  let ?c = "io_cache s" and ?m = "memcpy a (read_pos (io_cache s)) n (io_mem s)"
  have c: "in_buffer ?c" using s by (simp add: read_coherent_def Let_def)
  have e: "unat (read_pos ?c + n) = unat (read_pos ?c) + unat n"
    using a c by (intro unat_plus) (auto simp: area_ok_def in_buffer_def word_le_nat_alt)
  have n: "unat (read_pos ?c) + unat n \<le> unat (read_end ?c)"
    using True e by (simp add: word_le_nat_alt)
  have m: "?m x = io_mem s x" if "x \<in> area (buffer ?c) (buffer_length ?c)" for x
    using a that by (auto simp: area_ok_def intro: memcpy_outside)
  have b: "unat (buffer ?c) + unat (buffer_length ?c) < 2 ^ 64" using a by (simp add: area_ok_def)
  have "bytes (io_mem s) (read_pos ?c) n = take (unat n) (drop (position s) content)"
    by (rule nth_equalityI) (use unread [OF s len n] in \<open>auto simp: nth_bytes\<close>)
  with True advance [OF s len n m b refl] unread(1) [OF s len n] show ?thesis
    by (simp add: my_b_read_def transferred_def Let_def bytes_memcpy)
qed

lemma byte_not_EOF: "(ucast (b :: byte) :: 32 word) \<noteq> my_b_EOF"
proof
  assume "(ucast b :: 32 word) = my_b_EOF"
  then have "uint (ucast b :: 32 word) = uint my_b_EOF" by simp
  moreover have "uint (ucast b :: 32 word) < 256" using uint_lt2p [of b] by (simp add: unsigned_ucast_eq take_bit_int_def)
  ultimately show False by (simp add: my_b_EOF_def)
qed

lemma my_b_get_gets:
  assumes f: "get_law content f" and s: "read_coherent content s" and len: "length content < 2 ^ 64"
    and b: "unat (buffer (io_cache s)) + unat (buffer_length (io_cache s)) < 2 ^ 64"
  shows "got_byte content s (my_b_get f s)"
proof (cases "read_pos (io_cache s) = read_end (io_cache s)")
  case True
  then have "my_b_get f s = f s" by (simp add: my_b_get_def)
  with f s True show ?thesis by (simp add: get_law_def)
next
  case False
  let ?c = "io_cache s"
  have "read_pos ?c < read_end ?c"
    using s False by (auto simp: read_coherent_def in_buffer_def Let_def)
  then have n: "unat (read_pos ?c) + unat (1 :: 64 word) \<le> unat (read_end ?c)"
    by (simp add: word_less_nat_alt)
  from n have n': "unat (read_pos ?c) + 1 \<le> unat (read_end ?c)" by simp
  from False advance [OF s len n refl b refl] unread(1) [OF s len n'] unread(2) [OF s len n', of 0]
  show ?thesis by (simp add: my_b_get_def got_byte_def Let_def)
qed

lemma my_b_read_serves:
  assumes "read_serves content f" and "read_coherent content s" and "area_ok s a n" and "position s + unat n \<le> length content"
  shows "fst (my_b_read f a n s) = 0"
  using assms by (simp add: my_b_read_def read_serves_def Let_def)

lemma my_b_get_serves:
  assumes "get_serves content f" and "read_coherent content s" and "position s < length content"
  shows "fst (my_b_get f s) \<noteq> my_b_EOF"
proof (cases "read_pos (io_cache s) = read_end (io_cache s)")
  case True
  with assms show ?thesis by (simp add: my_b_get_def get_serves_def)
next
  case False
  then show ?thesis using byte_not_EOF by (simp add: my_b_get_def Let_def)
qed

text \<open>A client's requests to a cache for reading, and the replies it sees. It stops at the first that fails.\<close>

datatype read_request = Read pointer "64 word" | Get | Read_tell
datatype reply = Got "byte list" | Next "32 word" | At "64 word" | Failed

fun read_step :: "'w transfer \<Rightarrow> 'w get \<Rightarrow> read_request \<Rightarrow> 'w io \<Rightarrow> reply \<times> 'w io" where
  "read_step f g (Read a n) s =
     (let (rc, s') = my_b_read f a n s in (if rc = 0 then Got (bytes (io_mem s') a n) else Failed, s'))"
| "read_step f g Get s = (let (r, s') = my_b_get g s in (if r = my_b_EOF then Failed else Next r, s'))"
| "read_step f g Read_tell s = (At (my_b_tell (io_cache s)), s)"

primrec read_all :: "'w transfer \<Rightarrow> 'w get \<Rightarrow> read_request list \<Rightarrow> 'w io \<Rightarrow> reply list \<times> 'w io" where
  "read_all f g [] s = ([], s)"
| "read_all f g (r # rs) s =
     (let (y, s1) = read_step f g r s
      in if y = Failed then ([Failed], s1) else (let (ys, s2) = read_all f g rs s1 in (y # ys, s2)))"

text \<open>The same requests to the file itself, of which only the position is kept.\<close>

fun file_step :: "byte list \<Rightarrow> read_request \<Rightarrow> nat \<Rightarrow> reply \<times> nat" where
  "file_step content (Read a n) p =
     (if p + unat n \<le> length content then (Got (take (unat n) (drop p content)), p + unat n) else (Failed, p))"
| "file_step content Get p = (if p < length content then (Next (ucast (content ! p)), Suc p) else (Failed, p))"
| "file_step content Read_tell p = (At (of_nat p), p)"

primrec file_all :: "byte list \<Rightarrow> read_request list \<Rightarrow> nat \<Rightarrow> reply list \<times> nat" where
  "file_all content [] p = ([], p)"
| "file_all content (r # rs) p =
     (let (y, p1) = file_step content r p
      in if y = Failed then ([Failed], p1) else (let (ys, p2) = file_all content rs p1 in (y # ys, p2)))"

text \<open>The replies before the failure.\<close>

definition served :: "'r \<Rightarrow> 'r list \<Rightarrow> 'r list" where
  "served failed ys = takeWhile (\<lambda>y. y \<noteq> failed) ys"

lemma served_simps [simp]:
  "served failed [] = []" "served failed (y # ys) = (if y = failed then [] else y # served failed ys)"
  by (simp_all add: served_def)

fun request_ok :: "'w io \<Rightarrow> read_request \<Rightarrow> bool" where
  "request_ok s (Read a n) \<longleftrightarrow> area_ok s a n"
| "request_ok s _ \<longleftrightarrow> unat (buffer (io_cache s)) + unat (buffer_length (io_cache s)) < 2 ^ 64"

lemma request_ok_same: "same_buffer s s' \<Longrightarrow> request_ok s' r = request_ok s r"
  by (cases r) (simp_all add: same_buffer_def area_ok_def)

lemma read_step_refines:
  assumes "read_law content f" and "get_law content g" and "length content < 2 ^ 64"
    and "read_coherent content s" and "request_ok s r" and "read_step f g r s = (y, s')" and "y \<noteq> Failed"
  shows "file_step content r (position s) = (y, position s')" and "read_coherent content s'" and "same_buffer s s'"
proof -
  have "file_step content r (position s) = (y, position s') \<and> read_coherent content s' \<and> same_buffer s s'"
  proof (cases r)
    case (Read a n)
    with assms my_b_read_transfers [of content f s a n] show ?thesis
      by (auto simp: transferred_def Let_def split: prod.splits if_splits)
  next
    case Get
    with assms my_b_get_gets [of content g s] show ?thesis
      by (auto simp: got_byte_def Let_def split: prod.splits if_splits)
  next
    case Read_tell
    with assms show ?thesis by (auto simp: position_def same_buffer_def)
  qed
  then show "file_step content r (position s) = (y, position s')" and "read_coherent content s'"
    and "same_buffer s s'" by auto
qed

lemma read_step_serves:
  assumes "read_serves content f" and "get_serves content g" and "read_coherent content s" and "request_ok s r"
    and "fst (file_step content r (position s)) \<noteq> Failed"
  shows "fst (read_step f g r s) \<noteq> Failed"
  using assms my_b_read_serves [of content f s] my_b_get_serves [of content g s]
  by (cases r) (auto simp: case_prod_unfold Let_def split: if_splits)

lemma read_all_refines:
  assumes "read_law content f" and "get_law content g" and "length content < 2 ^ 64"
  shows "read_coherent content s \<Longrightarrow> \<forall>r\<in>set rs. request_ok s r \<Longrightarrow> read_all f g rs s = (ys, s') \<Longrightarrow>
           prefix (served Failed ys) (fst (file_all content rs (position s))) \<and>
           (Failed \<notin> set ys \<longrightarrow> file_all content rs (position s) = (ys, position s')) \<and>
           (read_serves content f \<and> get_serves content g \<longrightarrow> ys = fst (file_all content rs (position s)))"
proof (induction rs arbitrary: s ys)
  case Nil
  then show ?case by simp
next
  case (Cons r rs)
  obtain y s1 where step: "read_step f g r s = (y, s1)" by fastforce
  obtain zs s2 where rest: "read_all f g rs s1 = (zs, s2)" by fastforce
  have ok: "request_ok s r" using Cons.prems(2) by simp
  show ?case
  proof (cases "y = Failed")
    case True
    then have ys: "ys = [Failed]" using Cons.prems(3) step by simp
    have "fst (file_step content r (position s)) = Failed" if "read_serves content f" "get_serves content g"
      using read_step_serves [OF that Cons.prems(1) ok] step True by auto
    with ys show ?thesis by (auto simp: case_prod_unfold Let_def)
  next
    case False
    have out: "ys = y # zs" "s' = s2" using Cons.prems(3) False by (simp_all add: step rest)
    note one = read_step_refines [OF assms Cons.prems(1) ok step False]
    have "\<forall>r\<in>set rs. request_ok s1 r" using Cons.prems(2) by (simp add: request_ok_same [OF one(3)])
    from Cons.IH [OF one(2) this] rest out have
      "prefix (served Failed zs) (fst (file_all content rs (position s1))) \<and>
       (Failed \<notin> set zs \<longrightarrow> file_all content rs (position s1) = (zs, position s')) \<and>
       (read_serves content f \<and> get_serves content g \<longrightarrow> zs = fst (file_all content rs (position s1)))" by simp
    with one(1) out(1) False show ?thesis by (auto simp: case_prod_unfold Let_def)
  qed
qed

section \<open>Writing\<close>

text \<open>The bytes handed over so far: those in the file and, behind them, those in the buffer.\<close>

definition written :: "('w \<Rightarrow> byte list) \<Rightarrow> 'w io \<Rightarrow> byte list" where
  "written sink s = sink (io_file s)
     @ bytes (io_mem s) (request_pos (io_cache s)) (write_pos (io_cache s) - request_pos (io_cache s))"

definition write_coherent :: "('w \<Rightarrow> byte list) \<Rightarrow> 'w io \<Rightarrow> bool" where
  "write_coherent sink s \<longleftrightarrow>
     (let c = io_cache s
      in current c = At_write \<and> write_buffer c \<le> request_pos c \<and> request_pos c \<le> write_pos c
         \<and> write_pos c \<le> write_end c \<and> unat (write_end c) \<le> unat (write_buffer c) + unat (buffer_length c)
         \<and> 0 < buffer_length c \<and> unat (write_buffer c) + unat (buffer_length c) < 2 ^ 64
         \<and> unat (pos_in_file c) = length (sink (io_file s)))"

definition same_write_buffer :: "'w io \<Rightarrow> 'w io \<Rightarrow> bool" where
  "same_write_buffer s s' \<longleftrightarrow> write_buffer (io_cache s') = write_buffer (io_cache s)
     \<and> buffer_length (io_cache s') = buffer_length (io_cache s)"

definition source_ok :: "'w io \<Rightarrow> pointer \<Rightarrow> 64 word \<Rightarrow> bool" where
  "source_ok s a n \<longleftrightarrow>
     unat (write_buffer (io_cache s)) + unat (buffer_length (io_cache s)) + unat n < 2 ^ 64
     \<and> area a n \<inter> area (write_buffer (io_cache s)) (buffer_length (io_cache s)) = {}"

definition appended :: "('w \<Rightarrow> byte list) \<Rightarrow> byte list \<Rightarrow> 'w io \<Rightarrow> 'w io \<Rightarrow> bool" where
  "appended sink ds s s' \<longleftrightarrow>
     write_coherent sink s' \<and> same_write_buffer s s' \<and> written sink s' = written sink s @ ds"

text \<open>
  The law of \<open>write_function\<close> and \<open>_my_b_write\<close>, which the macros call for bytes that do not fit and, with
  none, on a full buffer: a call that returns 0 has taken its bytes. Whether it then has room for another one is open,
  and so is everything about a call that fails.
\<close>

definition write_called :: "pointer \<Rightarrow> 64 word \<Rightarrow> 'w io \<Rightarrow> bool" where
  "write_called a n s \<longleftrightarrow> \<not> write_pos (io_cache s) + n \<le> write_end (io_cache s)
     \<or> a = 0 \<and> n = 0 \<and> write_pos (io_cache s) = write_end (io_cache s)"

definition write_law :: "('w \<Rightarrow> byte list) \<Rightarrow> 'w transfer \<Rightarrow> bool" where
  "write_law sink f \<longleftrightarrow>
     (\<forall>s a n. write_coherent sink s \<longrightarrow> source_ok s a n \<longrightarrow> length (written sink s) + unat n < 2 ^ 64 \<longrightarrow>
        write_called a n s \<longrightarrow>
        (case f a n s of (rc, s') \<Rightarrow> rc = 0 \<longrightarrow> appended sink (bytes (io_mem s) a n) s s'))"

text \<open>Functions that take every byte, and make room when called for that.\<close>

definition has_room :: "'w io \<Rightarrow> bool" where
  "has_room s \<longleftrightarrow> write_pos (io_cache s) < write_end (io_cache s)"

definition write_serves :: "('w \<Rightarrow> byte list) \<Rightarrow> 'w transfer \<Rightarrow> bool" where
  "write_serves sink f \<longleftrightarrow>
     (\<forall>s a n. write_coherent sink s \<longrightarrow> source_ok s a n \<longrightarrow> length (written sink s) + unat n < 2 ^ 64 \<longrightarrow>
        write_called a n s \<longrightarrow> fst (f a n s) = 0 \<and> (n = 0 \<longrightarrow> has_room (snd (f a n s))))"

lemma bytes_append:
  assumes "unat j + unat k < 2 ^ 64"
  shows "bytes m a (j + k) = bytes m a j @ bytes m (a + j) k"
proof (rule nth_equalityI)
  fix i
  assume "i < length (bytes m a (j + k))"
  then have "i < unat j + unat k" by (simp add: unat_plus [OF assms])
  then show "bytes m a (j + k) ! i = (bytes m a j @ bytes m (a + j) k) ! i"
    by (auto simp: nth_append nth_bytes unat_plus [OF assms] of_nat_diff)
qed (simp add: unat_plus [OF assms])

lemma bytes_cong:
  assumes "\<And>x. x \<in> area a n \<Longrightarrow> m x = m' x"
  shows "bytes m a n = bytes m' a n"
  using assms by (simp add: bytes_def in_area)

text \<open>Putting \<open>n\<close> bytes behind \<open>write_pos\<close>, within the buffer.\<close>

lemma put_behind:
  assumes s: "write_coherent sink s" and n: "unat (write_pos (io_cache s)) + unat n \<le> unat (write_end (io_cache s))"
    and m: "\<And>x. x \<notin> area (write_pos (io_cache s)) n \<Longrightarrow> m x = io_mem s x"
    and s': "s' = s\<lparr>io_mem := m, io_cache := (io_cache s)\<lparr>write_pos := write_pos (io_cache s) + n\<rparr>\<rparr>"
  shows "appended sink (bytes m (write_pos (io_cache s)) n) s s'"
proof -
  let ?c = "io_cache s" and ?k = "write_pos (io_cache s) - request_pos (io_cache s)"
  have c: "request_pos ?c \<le> write_pos ?c" using s by (simp add: write_coherent_def Let_def)
  have wn: "unat (write_pos ?c) + unat n < 2 ^ 64" using n unat_below [of "write_end ?c"] by simp
  note e = unat_plus [OF wn]
  have k: "unat ?k = unat (write_pos ?c) - unat (request_pos ?c)" using c by (rule unat_minus)
  have kn: "unat ?k + unat n < 2 ^ 64" using k wn by linarith
  have le: "unat (request_pos ?c) \<le> unat (write_pos ?c)" using c by (simp add: word_le_nat_alt)
  have "unat (request_pos ?c) + unat ?k \<le> unat (write_pos ?c)" using k le by linarith
  then have "area (request_pos ?c) ?k \<inter> area (write_pos ?c) n = {}" using wn by (rule areas_apart)
  then have old: "bytes m (request_pos ?c) ?k = bytes (io_mem s) (request_pos ?c) ?k"
    by (intro bytes_cong m) auto
  have sum: "write_pos ?c + n - request_pos ?c = ?k + n" by simp
  have "written sink s' = sink (io_file s) @ bytes m (request_pos ?c) (write_pos ?c + n - request_pos ?c)"
    by (simp add: written_def s')
  then have "written sink s' = written sink s @ bytes m (write_pos ?c) n"
    unfolding sum using bytes_append [OF kn, of m "request_pos ?c"] old by (simp add: written_def)
  moreover have "write_coherent sink s'"
    using s n le e by (auto simp: write_coherent_def s' Let_def word_le_nat_alt)
  ultimately show ?thesis by (simp add: appended_def same_write_buffer_def s')
qed

lemma my_b_write_appends:
  assumes f: "write_law sink f" and s: "write_coherent sink s" and a: "source_ok s a n"
    and len: "length (written sink s) + unat n < 2 ^ 64"
  shows "case my_b_write f a n s of (rc, s') \<Rightarrow> (rc = 0 \<longrightarrow> appended sink (bytes (io_mem s) a n) s s') \<and>
      (write_serves sink f \<longrightarrow> rc = 0)"
proof (cases "write_pos (io_cache s) + n \<le> write_end (io_cache s)")
  case False
  then have "my_b_write f a n s = f a n s" by (simp add: my_b_write_def)
  with f s a len False show ?thesis
    by (auto simp: write_law_def write_serves_def write_called_def case_prod_unfold)
next
  case True
  let ?c = "io_cache s"
  have "unat (write_pos ?c + n) = unat (write_pos ?c) + unat n"
    using a s by (intro unat_plus) (auto simp: source_ok_def write_coherent_def word_le_nat_alt Let_def)
  then have n: "unat (write_pos ?c) + unat n \<le> unat (write_end ?c)" using True by (simp add: word_le_nat_alt)
  have m: "memcpy (write_pos ?c) a n (io_mem s) x = io_mem s x" if "x \<notin> area (write_pos ?c) n" for x
    using that by (rule memcpy_outside)
  show ?thesis
    using put_behind [OF s n m refl] True by (simp add: my_b_write_def Let_def bytes_memcpy)
qed

lemma put_byte_appends:
  assumes s: "write_coherent sink s" and room: "write_pos (io_cache s) < write_end (io_cache s)"
  shows "appended sink [chr] s (put_byte chr s)"
proof -
  let ?m = "(io_mem s)(write_pos (io_cache s) := chr)"
  have n: "unat (write_pos (io_cache s)) + unat (1 :: 64 word) \<le> unat (write_end (io_cache s))"
    using room by (simp add: word_less_nat_alt)
  have "appended sink (bytes ?m (write_pos (io_cache s)) 1) s
      (s\<lparr>io_mem := ?m, io_cache := (io_cache s)\<lparr>write_pos := write_pos (io_cache s) + 1\<rparr>\<rparr>)"
    by (rule put_behind [OF s n _ refl]) (auto simp: area_def)
  then show ?thesis by (simp add: put_byte_def bytes_def)
qed

lemma appended_trans:
  "appended sink ds s s1 \<Longrightarrow> appended sink es s1 s2 \<Longrightarrow> appended sink (ds @ es) s s2"
  by (simp add: appended_def same_write_buffer_def)

text \<open>
  Whether \<open>my_b_write_byte\<close> puts its byte into the buffer: there is room, or there is after the call. The macro
  does not find out, and stores the byte in any case.
\<close>

definition byte_fits :: "'w transfer \<Rightarrow> 'w io \<Rightarrow> bool" where
  "byte_fits b_write s \<longleftrightarrow> has_room s \<or> (case b_write 0 0 s of (rc, s') \<Rightarrow> rc = 0 \<and> has_room s')"

lemma full_buffer:
  assumes "write_coherent sink s" and "\<not> has_room s"
  shows "write_called 0 0 s" and "source_ok s 0 0" and "bytes (io_mem s) 0 0 = []"
  using assms by (auto simp: write_called_def has_room_def write_coherent_def source_ok_def area_def bytes_def Let_def)

lemma my_b_write_byte_appends:
  assumes f: "write_law sink f" and s: "write_coherent sink s" and len: "length (written sink s) < 2 ^ 64"
    and fits: "byte_fits f s"
  shows "appended sink [chr] s (my_b_write_byte f chr s)"
proof (cases "has_room s")
  case True
  then show ?thesis using put_byte_appends [OF s] by (simp add: my_b_write_byte_def has_room_def)
next
  case False
  note full = full_buffer [OF s False]
  have room: "fst (f 0 0 s) = 0" "has_room (snd (f 0 0 s))"
    using fits False by (simp_all add: byte_fits_def case_prod_unfold)
  have *: "appended sink [] s (snd (f 0 0 s))"
    using f s full room(1) len unfolding write_law_def case_prod_unfold by (metis add.right_neutral unsigned_0)
  then have "appended sink [chr] (snd (f 0 0 s)) (put_byte chr (snd (f 0 0 s)))"
    using room(2) by (intro put_byte_appends) (auto simp: appended_def has_room_def)
  from appended_trans [OF * this] False show ?thesis by (simp add: my_b_write_byte_def has_room_def)
qed

lemma byte_fits_serves:
  assumes "write_serves sink f" and "write_coherent sink s" and "length (written sink s) < 2 ^ 64"
  shows "byte_fits f s"
proof (cases "has_room s")
  case True
  then show ?thesis by (simp add: byte_fits_def)
next
  case False
  from full_buffer(1,2) [OF assms(2) False] assms show ?thesis
    unfolding byte_fits_def write_serves_def case_prod_unfold by (metis add.right_neutral unsigned_0)
qed

text \<open>
  A client's requests to a cache for writing. To write a text it stores the text in an area of its own first. It stops
  at the first request that fails, also at a byte that went behind the buffer, of which the macro does not tell.
\<close>

datatype write_request = Write pointer "byte list" | Write_byte byte | Write_tell
datatype write_reply = Done | Told "64 word" | Write_failed

definition put_bytes :: "pointer \<Rightarrow> byte list \<Rightarrow> memory \<Rightarrow> memory" where
  "put_bytes a ds m = (\<lambda>x. if unat (x - a) < length ds then ds ! unat (x - a) else m x)"

fun write_step :: "'w transfer \<Rightarrow> 'w transfer \<Rightarrow> write_request \<Rightarrow> 'w io \<Rightarrow> write_reply \<times> 'w io" where
  "write_step f g (Write a ds) s =
     (let (rc, s') = my_b_write f a (of_nat (length ds)) (s\<lparr>io_mem := put_bytes a ds (io_mem s)\<rparr>)
      in (if rc = 0 then Done else Write_failed, s'))"
| "write_step f g (Write_byte chr) s = (if byte_fits g s then Done else Write_failed, my_b_write_byte g chr s)"
| "write_step f g Write_tell s = (Told (my_b_tell (io_cache s)), s)"

primrec write_all :: "'w transfer \<Rightarrow> 'w transfer \<Rightarrow> write_request list \<Rightarrow> 'w io \<Rightarrow> write_reply list \<times> 'w io" where
  "write_all f g [] s = ([], s)"
| "write_all f g (r # rs) s =
     (let (y, s1) = write_step f g r s
      in if y = Write_failed then ([Write_failed], s1) else (let (ys, s2) = write_all f g rs s1 in (y # ys, s2)))"

text \<open>The bytes a request hands over, and its reply if \<open>out\<close> has been handed over before.\<close>

fun handed :: "write_request \<Rightarrow> byte list" where
  "handed (Write a ds) = ds"
| "handed (Write_byte chr) = [chr]"
| "handed Write_tell = []"

fun log_reply :: "write_request \<Rightarrow> byte list \<Rightarrow> write_reply" where
  "log_reply (Write a ds) out = Done"
| "log_reply (Write_byte chr) out = Done"
| "log_reply Write_tell out = Told (of_nat (length out))"

primrec log_all :: "write_request list \<Rightarrow> byte list \<Rightarrow> write_reply list" where
  "log_all [] out = []"
| "log_all (r # rs) out = log_reply r out # log_all rs (out @ handed r)"

fun write_ok :: "'w io \<Rightarrow> write_request \<Rightarrow> bool" where
  "write_ok s (Write a ds) \<longleftrightarrow> length ds < 2 ^ 64 \<and> source_ok s a (of_nat (length ds))"
| "write_ok s _ \<longleftrightarrow> True"

lemma write_ok_same: "same_write_buffer s s' \<Longrightarrow> write_ok s' r = write_ok s r"
  by (cases r) (simp_all add: same_write_buffer_def source_ok_def)

lemma unat_length: "length ds < 2 ^ 64 \<Longrightarrow> unat (of_nat (length ds) :: 64 word) = length ds"
  by (simp add: unat_of_nat take_bit_nat_eq_self)

lemma bytes_put: "length ds < 2 ^ 64 \<Longrightarrow> bytes (put_bytes a ds m) a (of_nat (length ds)) = ds"
  by (rule nth_equalityI) (simp_all add: unat_length nth_bytes put_bytes_def unat_of_nat take_bit_nat_eq_self)

text \<open>The client's own stores do not show in the buffer.\<close>

lemma client_store:
  assumes s: "write_coherent sink s" and ok: "source_ok s a (of_nat (length ds))" and len: "length ds < 2 ^ 64"
  shows "write_coherent sink (s\<lparr>io_mem := put_bytes a ds (io_mem s)\<rparr>)"
    and "written sink (s\<lparr>io_mem := put_bytes a ds (io_mem s)\<rparr>) = written sink s"
proof -
  let ?c = "io_cache s" and ?k = "write_pos (io_cache s) - request_pos (io_cache s)"
  show "write_coherent sink (s\<lparr>io_mem := put_bytes a ds (io_mem s)\<rparr>)"
    using s by (simp add: write_coherent_def Let_def)
  have c: "unat (write_buffer ?c) \<le> unat (request_pos ?c)" "request_pos ?c \<le> write_pos ?c"
      "unat (request_pos ?c) \<le> unat (write_pos ?c)"
      "unat (write_pos ?c) \<le> unat (write_buffer ?c) + unat (buffer_length ?c)"
    using s by (auto simp: write_coherent_def Let_def word_le_nat_alt)
  note k = unat_minus [OF c(2)]
  have "put_bytes a ds (io_mem s) x = io_mem s x" if x: "x \<in> area (request_pos ?c) ?k" for x
  proof -
    have "x \<in> area (write_buffer ?c) (buffer_length ?c)"
      using x c k s unat_below [of "write_pos ?c"] by (simp add: area_iff write_coherent_def Let_def)
    then have "x \<notin> area a (of_nat (length ds))" using ok by (auto simp: source_ok_def)
    then show ?thesis by (simp add: area_def put_bytes_def word_less_nat_alt unat_length [OF len])
  qed
  from bytes_cong [OF this] show "written sink (s\<lparr>io_mem := put_bytes a ds (io_mem s)\<rparr>) = written sink s"
    by (simp add: written_def)
qed

lemma tell_written:
  assumes s: "write_coherent sink s" and len: "length (written sink s) < 2 ^ 64"
  shows "my_b_tell (io_cache s) = of_nat (length (written sink s))"
proof -
  have "unat (my_b_tell (io_cache s)) = length (written sink s)"
    using assms by (simp add: write_coherent_def written_def my_b_tell_def current_pos_def Let_def unat_plus)
  then show ?thesis by (metis of_nat_unat ucast_id)
qed

lemma write_step_logs:
  assumes f: "write_law sink f" and g: "write_law sink g" and s: "write_coherent sink s" and r: "write_ok s r"
    and len: "length (written sink s @ handed r) < 2 ^ 64"
  shows "fst (write_step f g r s) \<noteq> Write_failed \<Longrightarrow>
      fst (write_step f g r s) = log_reply r (written sink s) \<and> appended sink (handed r) s (snd (write_step f g r s))"
    and "write_serves sink f \<Longrightarrow> write_serves sink g \<Longrightarrow> fst (write_step f g r s) \<noteq> Write_failed"
proof -
  have "(fst (write_step f g r s) \<noteq> Write_failed \<longrightarrow>
      fst (write_step f g r s) = log_reply r (written sink s) \<and> appended sink (handed r) s (snd (write_step f g r s))) \<and>
    (write_serves sink f \<and> write_serves sink g \<longrightarrow> fst (write_step f g r s) \<noteq> Write_failed)"
  proof (cases r)
    case (Write a ds)
    let ?s = "s\<lparr>io_mem := put_bytes a ds (io_mem s)\<rparr>"
    have ds: "length ds < 2 ^ 64" and ok: "source_ok s a (of_nat (length ds))" using r Write by auto
    note cs = client_store [OF s ok ds]
    have "source_ok ?s a (of_nat (length ds))" using ok by (simp add: source_ok_def)
    from my_b_write_appends [OF f cs(1) this] len Write show ?thesis
      by (auto simp: cs(2) unat_length [OF ds] bytes_put [OF ds] case_prod_unfold appended_def same_write_buffer_def
          Let_def split: if_splits)
  next
    case (Write_byte chr)
    have l: "length (written sink s) < 2 ^ 64" using len by simp
    from Write_byte my_b_write_byte_appends [OF g s l] byte_fits_serves [OF _ s l] show ?thesis by auto
  next
    case Write_tell
    with tell_written [OF s] len s show ?thesis by (simp add: appended_def same_write_buffer_def)
  qed
  then show "fst (write_step f g r s) \<noteq> Write_failed \<Longrightarrow>
      fst (write_step f g r s) = log_reply r (written sink s) \<and> appended sink (handed r) s (snd (write_step f g r s))"
    and "write_serves sink f \<Longrightarrow> write_serves sink g \<Longrightarrow> fst (write_step f g r s) \<noteq> Write_failed" by auto
qed

lemma write_all_logs:
  assumes f: "write_law sink f" and g: "write_law sink g"
  shows "write_coherent sink s \<Longrightarrow> \<forall>r\<in>set rs. write_ok s r \<Longrightarrow>
           length (written sink s @ concat (map handed rs)) < 2 ^ 64 \<Longrightarrow> write_all f g rs s = (ys, s') \<Longrightarrow>
           prefix (served Write_failed ys) (log_all rs (written sink s)) \<and>
           (Write_failed \<notin> set ys \<longrightarrow> ys = log_all rs (written sink s) \<and> appended sink (concat (map handed rs)) s s') \<and>
           (write_serves sink f \<and> write_serves sink g \<longrightarrow> Write_failed \<notin> set ys)"
proof (induction rs arbitrary: s ys)
  case Nil
  then show ?case by (auto simp: appended_def same_write_buffer_def)
next
  case (Cons r rs)
  obtain y s1 where step: "write_step f g r s = (y, s1)" by fastforce
  obtain zs s2 where rest: "write_all f g rs s1 = (zs, s2)" by fastforce
  have ok: "write_ok s r" and l: "length (written sink s @ handed r) < 2 ^ 64" using Cons.prems(2,3) by simp_all
  note one = write_step_logs [OF f g Cons.prems(1) ok l]
  show ?case
  proof (cases "y = Write_failed")
    case True
    then have "ys = [Write_failed]" using Cons.prems(4) step by simp
    with one(2) step True show ?thesis by auto
  next
    case False
    have out: "ys = y # zs" "s' = s2" using Cons.prems(4) False by (simp_all add: step rest)
    have y: "y = log_reply r (written sink s)" and a: "appended sink (handed r) s s1" using one(1) step False by auto
    then have s1: "write_coherent sink s1" "same_write_buffer s s1" "written sink s1 = written sink s @ handed r"
      by (simp_all add: appended_def)
    have "\<forall>r\<in>set rs. write_ok s1 r" using Cons.prems(2) by (simp add: write_ok_same [OF s1(2)])
    with Cons.IH [OF s1(1) this _ rest [folded out(2)]] s1(3) Cons.prems(3) have
      "prefix (served Write_failed zs) (log_all rs (written sink s @ handed r)) \<and>
       (Write_failed \<notin> set zs \<longrightarrow> zs = log_all rs (written sink s @ handed r) \<and> appended sink (concat (map handed rs)) s1 s') \<and>
       (write_serves sink f \<and> write_serves sink g \<longrightarrow> Write_failed \<notin> set zs)" by simp
    with y False out(1) appended_trans [OF a] show ?thesis by auto
  qed
qed

section \<open>The contract\<close>

text \<open>
  Where it ends: a length whose sum with \<open>read_pos\<close> wraps is taken to fit, whatever the buffer holds; and
  \<open>my_b_write_byte\<close> does not look at what \<open>_my_b_write\<close> returns, so after a flush that fails and leaves
  the cache as it was the byte goes behind \<open>write_end\<close>.
\<close>

lemma my_b_read_wraps:
  "my_b_read f a (- read_pos (io_cache s)) s =
     (0, s\<lparr>io_mem := memcpy a (read_pos (io_cache s)) (- read_pos (io_cache s)) (io_mem s),
           io_cache := (io_cache s)\<lparr>read_pos := 0\<rparr>\<rparr>)"
  by (simp add: my_b_read_def Let_def)

lemma my_b_write_byte_overruns:
  assumes "write_pos (io_cache s) = write_end (io_cache s)" and "f 0 0 s = (rc, s)"
  shows "io_mem (my_b_write_byte f chr s) (write_end (io_cache s)) = chr"
    and "write_pos (io_cache (my_b_write_byte f chr s)) = write_end (io_cache s) + 1"
  using assms by (simp_all add: my_b_write_byte_def put_byte_def)

text \<open>Functions for which the laws hold: they go to the file directly and leave an empty buffer.\<close>

definition direct_read :: "byte list \<Rightarrow> 'w transfer" where
  "direct_read content a n s =
     (let c = io_cache s; p = position s; ds = take (unat n) (drop p content)
      in (if length ds = unat n then 0 else 1,
          s\<lparr>io_mem := put_bytes a ds (io_mem s),
            io_cache := c\<lparr>pos_in_file := of_nat (p + length ds), read_pos := request_pos c, read_end := request_pos c,
                          io_error := of_nat (length ds)\<rparr>\<rparr>))"

definition direct_get :: "byte list \<Rightarrow> 'w get" where
  "direct_get content s =
     (let c = io_cache s; p = position s
      in if p < length content
         then (ucast (content ! p), s\<lparr>io_cache := c\<lparr>pos_in_file := of_nat (Suc p), read_pos := request_pos c,
                                        read_end := request_pos c\<rparr>\<rparr>)
         else (my_b_EOF, s))"

definition direct_write :: "byte list transfer" where
  "direct_write a n s =
     (let c = io_cache s; out = written id s @ bytes (io_mem s) a n
      in (0, s\<lparr>io_file := out,
               io_cache := c\<lparr>pos_in_file := of_nat (length out), request_pos := write_buffer c,
                             write_pos := write_buffer c, write_end := write_buffer c + buffer_length c\<rparr>\<rparr>))"

lemma emptied:
  assumes s: "read_coherent content s" and len: "length content < 2 ^ 64" and q: "q \<le> length content"
    and s': "io_cache s' = (io_cache s)\<lparr>pos_in_file := of_nat q, read_pos := request_pos (io_cache s),
               read_end := request_pos (io_cache s), io_error := e\<rparr>"
  shows "read_coherent content s'" and "same_buffer s s'" and "position s' = q"
proof -
  have u: "unat (of_nat q :: 64 word) = q" using q len by (simp add: unat_of_nat take_bit_nat_eq_self)
  show "read_coherent content s'"
    using s q by (auto simp: read_coherent_def in_buffer_def my_b_get_bytes_in_buffer_def my_b_get_buffer_start_def
        s' u word_le_nat_alt Let_def)
  show "same_buffer s s'" by (simp add: same_buffer_def s')
  show "position s' = q"
    using s by (simp add: position_def my_b_tell_def current_pos_def read_coherent_def s' u Let_def)
qed

lemma direct_read_law:
  assumes len: "length content < 2 ^ 64"
  shows "read_law content (direct_read content)"
  unfolding read_law_def
proof (intro allI impI)
  fix s :: "'w io" and a n :: "64 word"
  assume s: "read_coherent content s"
  let ?ds = "take (unat n) (drop (position s) content)"
  have p: "position s \<le> length content" by (rule position_eq(2) [OF s len])
  have q: "position s + length ?ds \<le> length content" using p by simp
  note e = emptied [OF s len q, of "snd (direct_read content a n s)" "of_nat (length ?ds)"]
  have cache: "io_cache (snd (direct_read content a n s)) =
      (io_cache s)\<lparr>pos_in_file := of_nat (position s + length ?ds), read_pos := request_pos (io_cache s),
        read_end := request_pos (io_cache s), io_error := of_nat (length ?ds)\<rparr>"
    and mem: "io_mem (snd (direct_read content a n s)) = put_bytes a ?ds (io_mem s)"
    and rc: "fst (direct_read content a n s) = (if length ?ds = unat n then 0 else 1)"
    by (simp_all add: direct_read_def Let_def)
  have full: "bytes (put_bytes a ?ds (io_mem s)) a n = ?ds" if "length ?ds = unat n"
    using bytes_put [of ?ds a "io_mem s"] that unat_below [of n] by simp
  show "transferred content a n s (direct_read content a n s)"
    using e(1-2) [OF cache] e(3) [OF cache] p full rc mem cache
    by (auto simp: transferred_def case_prod_unfold Let_def min_def split: if_splits)
qed

lemma direct_read_serves: "read_serves content (direct_read content)"
  by (simp add: read_serves_def direct_read_def Let_def)

lemma direct_get_law:
  assumes len: "length content < 2 ^ 64"
  shows "get_law content (direct_get content)"
  unfolding get_law_def
proof (intro allI impI)
  fix s :: "'w io"
  assume s: "read_coherent content s"
  show "got_byte content s (direct_get content s)"
  proof (cases "position s < length content")
    case True
    then have q: "Suc (position s) \<le> length content" by simp
    have "io_cache (snd (direct_get content s)) = (io_cache s)\<lparr>pos_in_file := of_nat (Suc (position s)),
        read_pos := request_pos (io_cache s), read_end := request_pos (io_cache s), io_error := io_error (io_cache s)\<rparr>"
      using True by (simp add: direct_get_def Let_def)
    from emptied [OF s len q this] True show ?thesis by (simp add: got_byte_def direct_get_def Let_def)
  next
    case False
    then show ?thesis by (simp add: got_byte_def direct_get_def Let_def)
  qed
qed

lemma direct_get_serves: "get_serves content (direct_get content)"
  using byte_not_EOF by (simp add: get_serves_def direct_get_def Let_def)

lemma direct_write_appends:
  assumes s: "write_coherent id s" and len: "length (written id s) + unat n < 2 ^ 64"
    and run: "direct_write a n s = (rc, s')"
  shows "rc = 0" and "appended id (bytes (io_mem s) a n) s s'" and "write_pos (io_cache s') < write_end (io_cache s')"
proof -
  let ?out = "written id s @ bytes (io_mem s) a n"
  have w: "unat (write_buffer (io_cache s) + buffer_length (io_cache s))
      = unat (write_buffer (io_cache s)) + unat (buffer_length (io_cache s))"
    using s by (intro unat_plus) (simp add: write_coherent_def Let_def)
  have l: "unat (of_nat (length ?out) :: 64 word) = length ?out" using len by (intro unat_length) simp
  have s': "rc = 0" "io_file s' = ?out" "io_cache s' = (io_cache s)\<lparr>pos_in_file := of_nat (length ?out),
      request_pos := write_buffer (io_cache s), write_pos := write_buffer (io_cache s),
      write_end := write_buffer (io_cache s) + buffer_length (io_cache s)\<rparr>"
    using run by (auto simp: direct_write_def Let_def)
  have b: "0 < unat (buffer_length (io_cache s))" using s by (simp add: write_coherent_def Let_def word_less_nat_alt)
  show "rc = 0" by (rule s'(1))
  show "write_pos (io_cache s') < write_end (io_cache s')" using w b by (simp add: s'(3) word_less_nat_alt)
  have "written id s' = ?out" by (simp add: written_def [of id s'] s' bytes_def [of _ _ 0])
  moreover have "write_coherent id s'"
    using s w unfolding write_coherent_def Let_def s' by (simp add: l [simplified] word_le_nat_alt)
  ultimately show "appended id (bytes (io_mem s) a n) s s'"
    by (simp add: appended_def same_write_buffer_def s'(3))
qed

lemma direct_write_law: "write_law id direct_write" and direct_write_serves: "write_serves id direct_write"
  unfolding write_law_def write_serves_def has_room_def case_prod_unfold
  using direct_write_appends [OF _ _ prod.collapse [symmetric]] by blast+

text \<open>C38: clients of a buffered file see the file, for every sequence of requests, of whatever sizes and positions
  relative to the buffer, and whatever the functions behind the buffer do about errors, as long as a call of
  theirs that reports success has done what it was called for. A cache for reading: the replies up to the first
  failure are those of the file itself, bytes, order and offsets (\<open>my_b_tell\<close>); without failure the position is
  the file's too; and when the functions fail at the end of the file only, the replies are the file's
  to the last. A cache for writing: the replies up to the first failure are those of a file of all bytes handed over,
  with \<open>my_b_tell\<close> their number; without failure exactly those bytes have been handed over, in order, be they in the
  file or still in the buffer; and nothing fails when the functions take every byte and make room.\<close>

theorem io_cache_contract:
  assumes "read_law content f" and "get_law content g" and "length content < 2 ^ 64"
    and "read_coherent content s" and "\<forall>r\<in>set rs. request_ok s r"
    and "write_law sink h" and "write_law sink k"
    and "write_coherent sink t" and "\<forall>w\<in>set ws. write_ok t w"
    and "length (written sink t @ concat (map handed ws)) < 2 ^ 64"
    and "read_all f g rs s = (ys, s')" and "write_all h k ws t = (zs, t')"
  shows "prefix (served Failed ys) (fst (file_all content rs (position s))) \<and>
    (Failed \<notin> set ys \<longrightarrow> file_all content rs (position s) = (ys, position s')) \<and>
    (read_serves content f \<and> get_serves content g \<longrightarrow> ys = fst (file_all content rs (position s))) \<and>
    prefix (served Write_failed zs) (log_all ws (written sink t)) \<and>
    (Write_failed \<notin> set zs \<longrightarrow>
       zs = log_all ws (written sink t) \<and> written sink t' = written sink t @ concat (map handed ws)) \<and>
    (write_serves sink h \<and> write_serves sink k \<longrightarrow> Write_failed \<notin> set zs)"
  using read_all_refines [OF assms(1-5,11)] write_all_logs [OF assms(6-10,12)] by (simp add: appended_def)

text \<open>A cache of four bytes at address 100.\<close>

definition example_io :: "current \<Rightarrow> byte list io" where
  "example_io cur = \<lparr>io_mem = (\<lambda>x. if x = 100 then 7 else if x = 101 then 8 else 0),
     io_cache = \<lparr>pos_in_file = 0, end_of_file = 3, read_pos = 101, read_end = 102, buffer = 100, request_pos = 100,
       write_buffer = 100, append_read_pos = 0, write_pos = 102, write_end = 104, current = cur, ic_type = READ_CACHE,
       disk_writes = 0, seek_not_done = 0, io_error = 0, buffer_length = 4, read_length = 4, alloced_buffer = True\<rparr>,
     io_file = []\<rparr>"

theorem io_cache_contract_witness:
  "fst (read_all (direct_read [7, 8, 9]) (direct_get [7, 8, 9])
      [Read 200 1, Read_tell, Get, Read 200 2] (example_io At_read))
     = [Got [8], At 2, Next 9, Failed]
   \<and> fst (write_all direct_write direct_write [Write 200 [1, 2, 3], Write_byte 4, Write_tell] (example_io At_write))
     = [Done, Done, Told 6]
   \<and> written id (snd (write_all direct_write direct_write [Write 200 [1, 2, 3], Write_byte 4, Write_tell] (example_io At_write)))
     = [7, 8, 1, 2, 3, 4]"
proof -
  let ?rs = "[Read 200 1, Read_tell, Get, Read 200 2]" and ?ws = "[Write 200 [1, 2, 3], Write_byte 4, Write_tell]"
  have "area 200 n \<inter> area 100 4 = {}" if "n \<le> 3" for n :: "64 word"
    by (rule areas_apart(2)) (use that in \<open>auto simp: word_le_nat_alt\<close>)
  then have *: "area 200 1 \<inter> area 100 4 = {}" "area 200 2 \<inter> area 100 4 = {}" "area 200 3 \<inter> area 100 4 = {}"
    by simp_all
  have two: "(\<forall>i<2. P i) \<longleftrightarrow> P 0 \<and> P (1 :: nat)" for P by (auto simp: less_2_cases_iff)
  have r: "read_coherent [7, 8, 9] (example_io At_read)"
    by (simp add: read_coherent_def in_buffer_def my_b_get_bytes_in_buffer_def my_b_get_buffer_start_def example_io_def
        two)
  have w: "write_coherent id (example_io At_write)" "written id (example_io At_write) = [7, 8]"
    by (simp_all add: write_coherent_def written_def example_io_def bytes_def upt_rec)
  have p: "position (example_io At_read) = 1"
    by (simp add: position_def my_b_tell_def current_pos_def example_io_def)
  have rs: "\<forall>r\<in>set ?rs. request_ok (example_io At_read) r" using * by (simp add: area_ok_def example_io_def)
  have ws: "\<forall>w\<in>set ?ws. write_ok (example_io At_write) w" using * by (simp add: source_ok_def example_io_def)
  obtain ys s' where y: "read_all (direct_read [7, 8, 9]) (direct_get [7, 8, 9]) ?rs (example_io At_read) = (ys, s')" by fastforce
  obtain zs t' where z: "write_all direct_write direct_write ?ws (example_io At_write) = (zs, t')" by fastforce
  have "ys = fst (file_all [7, 8, 9] ?rs 1)" "zs = log_all ?ws [7, 8]" "written id t' = [7, 8, 1, 2, 3, 4]"
    using io_cache_contract [OF direct_read_law [of "[7, 8, 9]"] direct_get_law [of "[7, 8, 9]"] _ r rs direct_write_law
        direct_write_law w(1) ws _ y z]
    by (simp_all add: w(2) p direct_read_serves direct_get_serves direct_write_serves del: read_all.simps write_all.simps)
  then show ?thesis by (simp add: y z del: read_all.simps write_all.simps)
qed

end
