(* ===== verification/Client_Macros.thy ===== *)
theory Client_Macros
  imports Byte_Order
begin

text \<open>
  Small macros of the database client's headers that compute or decide something: rounding up to an alignment
  (\<open>my_global.h\<close>), the character classes (\<open>m_ctype.h\<close>), the classes of column types
  (\<open>mysql.h\<close> over the enumeration of \<open>mysql_com.h\<close>), buffers on the stack or on the heap
  (\<open>my_sys.h\<close>).
\<close>

unbundle bit_operations_syntax

section \<open>Alignment\<close>

definition MY_ALIGN :: "'a::len word \<Rightarrow> 'a word \<Rightarrow> 'a word" where
  "MY_ALIGN A L = (A + L - 1) AND NOT (L - 1)"

text \<open>\<open>sizeof(double)\<close> is 8.\<close>

definition ALIGN_SIZE :: "64 word \<Rightarrow> 64 word" where
  "ALIGN_SIZE A = MY_ALIGN A 8"

definition test_all_bits :: "'a::len word \<Rightarrow> 'a word \<Rightarrow> bool" where
  "test_all_bits a b \<longleftrightarrow> a AND b = b"

lemma test_all_bits_iff: "test_all_bits a b \<longleftrightarrow> (\<forall>i. bit b i \<longrightarrow> bit a i)"
  by (auto simp: test_all_bits_def bit_eq_iff bit_and_iff dest: bit_imp_le_length)

lemma unat_and_not_mask: "unat (w AND NOT (mask k)) = unat w div 2 ^ k * 2 ^ k"
proof -
  have "unat (w AND NOT (mask k)) = push_bit k (drop_bit k (unat w))"
    by (rule bit_eqI) (auto simp: bit_simps dest: bit_imp_le_length)
  then show ?thesis by (simp add: push_bit_eq_mult drop_bit_eq_div)
qed

lemma round_up:
  fixes a l :: nat
  assumes "0 < l"
  shows "a \<le> (a + l - 1) div l * l" and "(a + l - 1) div l * l < a + l"
    and "l dvd b \<Longrightarrow> a \<le> b \<Longrightarrow> (a + l - 1) div l * l \<le> b"
proof -
  have *: "(a + l - 1) div l * l + (a + l - 1) mod l = a + l - 1" by simp
  have "(a + l - 1) mod l < l" using assms by simp
  with * assms show "a \<le> (a + l - 1) div l * l" and lt: "(a + l - 1) div l * l < a + l" by linarith+
  assume "l dvd b" and "a \<le> b"
  then obtain q where q: "b = q * l" by (metis dvd_def mult.commute)
  with lt \<open>a \<le> b\<close> have "(a + l - 1) div l * l < (q + 1) * l" by simp
  then have "(a + l - 1) div l < q + 1" by (simp only: mult_less_cancel2)
  then show "(a + l - 1) div l * l \<le> b" by (simp add: q)
qed

text \<open>
  For a power of two the macro gives the least multiple that is not below its argument, as long as the sum
  does not wrap; in the last few values below the end it gives 0.
\<close>

lemma MY_ALIGN_unat:
  fixes A :: "'a::len word"
  assumes "L = 2 ^ k" and "k < LENGTH('a)" and "unat A + 2 ^ k - 1 < 2 ^ LENGTH('a)"
  shows "unat (MY_ALIGN A L) = (unat A + 2 ^ k - 1) div 2 ^ k * 2 ^ k"
proof -
  have L: "L - 1 = mask k" by (simp add: assms(1) mask_eq_exp_minus_1)
  have "unat (mask k :: 'a word) = mask k"
    by (rule bit_eqI) (use assms(2) in \<open>auto simp: bit_simps\<close>)
  then have "unat (L - 1) = 2 ^ k - 1" by (simp add: L mask_eq_exp_minus_1)
  then have "unat (A + (L - 1)) = unat A + 2 ^ k - 1"
    using assms(3) by (simp add: unat_word_ariths)
  moreover have "MY_ALIGN A L = (A + (L - 1)) AND NOT (mask k)"
    unfolding MY_ALIGN_def L [symmetric] by (simp only: add_diff_eq)
  ultimately show ?thesis by (simp only: unat_and_not_mask)
qed

lemma ALIGN_SIZE_least:
  assumes "unat A + 7 < 2 ^ 64"
  shows "8 dvd unat (ALIGN_SIZE A)" and "unat A \<le> unat (ALIGN_SIZE A)" and "unat (ALIGN_SIZE A) < unat A + 8"
    and "8 dvd b \<Longrightarrow> unat A \<le> b \<Longrightarrow> unat (ALIGN_SIZE A) \<le> b"
proof -
  have *: "unat (ALIGN_SIZE A) = (unat A + 8 - 1) div 8 * 8"
    using MY_ALIGN_unat [of 8 3 A] assms by (simp add: ALIGN_SIZE_def)
  show "8 dvd unat (ALIGN_SIZE A)" by (simp only: *) simp
  show "unat A \<le> unat (ALIGN_SIZE A)" and "unat (ALIGN_SIZE A) < unat A + 8"
    and "8 dvd b \<Longrightarrow> unat A \<le> b \<Longrightarrow> unat (ALIGN_SIZE A) \<le> b"
    unfolding * by (rule round_up; simp)+
qed

lemma ALIGN_SIZE_wraps: "ALIGN_SIZE (- 1) = 0"
  by (simp add: ALIGN_SIZE_def MY_ALIGN_def)

section \<open>Character classes\<close>

text \<open>A character set's table has one entry more than there are characters: the first is for the end of a file.\<close>

definition MY_U :: "8 word" where "MY_U = 0x01"
definition MY_L :: "8 word" where "MY_L = 0x02"
definition MY_NMR :: "8 word" where "MY_NMR = 0x04"
definition MY_SPC :: "8 word" where "MY_SPC = 0x08"
definition MY_PNT :: "8 word" where "MY_PNT = 0x10"
definition MY_CTR :: "8 word" where "MY_CTR = 0x20"
definition MY_B :: "8 word" where "MY_B = 0x40"
definition MY_X :: "8 word" where "MY_X = 0x80"

text \<open>\<open>((s)->ctype+1)[(uchar) (c)] & classes\<close>: an access behind the table is a fault.\<close>

definition ctype_class :: "8 word \<Rightarrow> 8 word list \<Rightarrow> 32 word \<Rightarrow> bool res" where
  "ctype_class classes ctype c =
     (let i = 1 + unat (ucast c :: 8 word)
      in if i < length ctype then Inr (ctype ! i AND classes \<noteq> 0) else Inl OutOfBounds)"

definition my_isascii :: "32 word \<Rightarrow> bool" where "my_isascii c \<longleftrightarrow> c AND NOT 0x7F = 0"
definition my_toascii :: "32 word \<Rightarrow> 32 word" where "my_toascii c = c AND 0x7F"
definition my_tocntrl :: "32 word \<Rightarrow> 32 word" where "my_tocntrl c = c AND 31"
definition my_toprint :: "32 word \<Rightarrow> 32 word" where "my_toprint c = c OR 64"

definition my_isalpha where "my_isalpha = ctype_class (MY_U OR MY_L)"
definition my_isupper where "my_isupper = ctype_class MY_U"
definition my_islower where "my_islower = ctype_class MY_L"
definition my_isdigit where "my_isdigit = ctype_class MY_NMR"
definition my_isxdigit where "my_isxdigit = ctype_class MY_X"
definition my_isalnum where "my_isalnum = ctype_class (MY_U OR MY_L OR MY_NMR)"
definition my_isspace where "my_isspace = ctype_class MY_SPC"
definition my_ispunct where "my_ispunct = ctype_class MY_PNT"
definition my_isprint where "my_isprint = ctype_class (MY_PNT OR MY_U OR MY_L OR MY_NMR OR MY_B)"
definition my_isgraph where "my_isgraph = ctype_class (MY_PNT OR MY_U OR MY_L OR MY_NMR)"
definition my_iscntrl where "my_iscntrl = ctype_class MY_CTR"

definition my_isvar :: "8 word list \<Rightarrow> 32 word \<Rightarrow> bool res" where
  "my_isvar s c = map_sum id (\<lambda>b. b \<or> c = 0x5F) (my_isalnum s c)"

definition my_isvar_start :: "8 word list \<Rightarrow> 32 word \<Rightarrow> bool res" where
  "my_isvar_start s c = map_sum id (\<lambda>b. b \<or> c = 0x5F) (my_isalpha s c)"

lemmas ctype_defs = my_isalpha_def my_isupper_def my_islower_def my_isdigit_def my_isxdigit_def my_isalnum_def
  my_isspace_def my_ispunct_def my_isprint_def my_isgraph_def my_iscntrl_def

text \<open>
  With a table of 257 entries no character is out of bounds. The composite classes are the unions the names suggest;
  the macros cast to an unsigned character, so a signed character and its promoted value get the same answer.
\<close>

lemma ctype_class_in_bounds:
  assumes "length ctype = 257"
  shows "ctype_class k ctype c = Inr (ctype ! (1 + unat (ucast c :: 8 word)) AND k \<noteq> 0)"
  using unsigned_less [of "ucast c :: 8 word", where ?'a = nat] assms by (simp add: ctype_class_def Let_def)

lemma and_or_eq_0: "(x :: 'a::len word) AND (j OR k) = 0 \<longleftrightarrow> x AND j = 0 \<and> x AND k = 0"
  by (simp add: bit.conj_disj_distrib bit_eq_iff bit_simps) blast

lemma composite_classes:
  assumes "my_isalpha s c = Inr a" and "my_isdigit s c = Inr d" and "my_ispunct s c = Inr p"
  shows "my_isalnum s c = Inr (a \<or> d)" and "my_isgraph s c = Inr (p \<or> a \<or> d)"
    and "my_isvar s c = Inr (a \<or> d \<or> c = 0x5F)" and "my_isvar_start s c = Inr (a \<or> c = 0x5F)"
  using assms
  by (auto simp: ctype_defs my_isvar_def my_isvar_start_def ctype_class_def and_or_eq_0 Let_def split: if_splits)

lemma ctype_class_signed: "ctype_class k ctype (scast (ch :: 8 word)) = ctype_class k ctype (ucast ch)"
proof -
  have "ucast (scast ch :: 32 word) = ch"
  proof (rule bit_word_eqI)
    fix n
    assume n: "n < LENGTH(8)"
    then consider "n = 7" | "n < 7" by fastforce
    then show "bit (ucast (scast ch :: 32 word) :: 8 word) n = bit ch n"
      by cases (simp_all add: bit_simps min_def)
  qed
  moreover have "ucast (ucast ch :: 32 word) = ch"
    by (rule bit_word_eqI) (simp add: bit_simps)
  ultimately show ?thesis by (simp add: ctype_class_def)
qed

section \<open>Column types\<close>

datatype (plugins only: ) enum_field_types =
    MYSQL_TYPE_DECIMAL | MYSQL_TYPE_TINY | MYSQL_TYPE_SHORT | MYSQL_TYPE_LONG | MYSQL_TYPE_FLOAT | MYSQL_TYPE_DOUBLE
  | MYSQL_TYPE_NULL | MYSQL_TYPE_TIMESTAMP | MYSQL_TYPE_LONGLONG | MYSQL_TYPE_INT24 | MYSQL_TYPE_DATE | MYSQL_TYPE_TIME
  | MYSQL_TYPE_DATETIME | MYSQL_TYPE_YEAR | MYSQL_TYPE_NEWDATE | MYSQL_TYPE_VARCHAR | MYSQL_TYPE_BIT
  | MYSQL_TYPE_TIMESTAMP2 | MYSQL_TYPE_DATETIME2 | MYSQL_TYPE_TIME2 | MYSQL_TYPE_NEWDECIMAL | MYSQL_TYPE_ENUM
  | MYSQL_TYPE_SET | MYSQL_TYPE_TINY_BLOB | MYSQL_TYPE_MEDIUM_BLOB | MYSQL_TYPE_LONG_BLOB | MYSQL_TYPE_BLOB
  | MYSQL_TYPE_VAR_STRING | MYSQL_TYPE_STRING | MYSQL_TYPE_GEOMETRY

primrec field_type_code :: "enum_field_types \<Rightarrow> nat" where
  "field_type_code MYSQL_TYPE_DECIMAL = 0" | "field_type_code MYSQL_TYPE_TINY = 1"
| "field_type_code MYSQL_TYPE_SHORT = 2" | "field_type_code MYSQL_TYPE_LONG = 3"
| "field_type_code MYSQL_TYPE_FLOAT = 4" | "field_type_code MYSQL_TYPE_DOUBLE = 5"
| "field_type_code MYSQL_TYPE_NULL = 6" | "field_type_code MYSQL_TYPE_TIMESTAMP = 7"
| "field_type_code MYSQL_TYPE_LONGLONG = 8" | "field_type_code MYSQL_TYPE_INT24 = 9"
| "field_type_code MYSQL_TYPE_DATE = 10" | "field_type_code MYSQL_TYPE_TIME = 11"
| "field_type_code MYSQL_TYPE_DATETIME = 12" | "field_type_code MYSQL_TYPE_YEAR = 13"
| "field_type_code MYSQL_TYPE_NEWDATE = 14" | "field_type_code MYSQL_TYPE_VARCHAR = 15"
| "field_type_code MYSQL_TYPE_BIT = 16" | "field_type_code MYSQL_TYPE_TIMESTAMP2 = 17"
| "field_type_code MYSQL_TYPE_DATETIME2 = 18" | "field_type_code MYSQL_TYPE_TIME2 = 19"
| "field_type_code MYSQL_TYPE_NEWDECIMAL = 246" | "field_type_code MYSQL_TYPE_ENUM = 247"
| "field_type_code MYSQL_TYPE_SET = 248" | "field_type_code MYSQL_TYPE_TINY_BLOB = 249"
| "field_type_code MYSQL_TYPE_MEDIUM_BLOB = 250" | "field_type_code MYSQL_TYPE_LONG_BLOB = 251"
| "field_type_code MYSQL_TYPE_BLOB = 252" | "field_type_code MYSQL_TYPE_VAR_STRING = 253"
| "field_type_code MYSQL_TYPE_STRING = 254" | "field_type_code MYSQL_TYPE_GEOMETRY = 255"

definition IS_PRI_KEY :: "32 word \<Rightarrow> bool" where "IS_PRI_KEY n \<longleftrightarrow> n AND 2 \<noteq> 0"
definition IS_NOT_NULL :: "32 word \<Rightarrow> bool" where "IS_NOT_NULL n \<longleftrightarrow> n AND 1 \<noteq> 0"
definition IS_BLOB :: "32 word \<Rightarrow> bool" where "IS_BLOB n \<longleftrightarrow> n AND 16 \<noteq> 0"

text \<open>The type is an \<open>enum\<close> in the client's structures; the macros compare its value.\<close>

definition IS_NUM :: "enum_field_types \<Rightarrow> bool" where
  "IS_NUM t \<longleftrightarrow> field_type_code t \<le> field_type_code MYSQL_TYPE_INT24 \<and> field_type_code t \<noteq> field_type_code MYSQL_TYPE_TIMESTAMP
     \<or> field_type_code t = field_type_code MYSQL_TYPE_YEAR \<or> field_type_code t = field_type_code MYSQL_TYPE_NEWDECIMAL"

definition IS_LONGDATA :: "enum_field_types \<Rightarrow> bool" where
  "IS_LONGDATA t \<longleftrightarrow> field_type_code MYSQL_TYPE_TINY_BLOB \<le> field_type_code t
     \<and> field_type_code t \<le> field_type_code MYSQL_TYPE_STRING"

text \<open>
  The types whose values the comment on \<open>IS_NUM\<close> calls numbers that need no quotes: all the numeric ones but
  \<open>MYSQL_TYPE_BIT\<close>, and \<open>NULL\<close>; none of them is long data.
\<close>

lemma IS_NUM_iff:
  "IS_NUM t \<longleftrightarrow> t \<in> {MYSQL_TYPE_DECIMAL, MYSQL_TYPE_TINY, MYSQL_TYPE_SHORT, MYSQL_TYPE_LONG, MYSQL_TYPE_FLOAT,
     MYSQL_TYPE_DOUBLE, MYSQL_TYPE_NULL, MYSQL_TYPE_LONGLONG, MYSQL_TYPE_INT24, MYSQL_TYPE_YEAR,
     MYSQL_TYPE_NEWDECIMAL}"
  by (cases t) (simp_all add: IS_NUM_def)

lemma IS_LONGDATA_iff:
  "IS_LONGDATA t \<longleftrightarrow> t \<in> {MYSQL_TYPE_TINY_BLOB, MYSQL_TYPE_MEDIUM_BLOB, MYSQL_TYPE_LONG_BLOB, MYSQL_TYPE_BLOB,
     MYSQL_TYPE_VAR_STRING, MYSQL_TYPE_STRING}"
  by (cases t) (simp_all add: IS_LONGDATA_def)

section \<open>Buffers on the stack or on the heap\<close>

text \<open>
  What the macros call. \<open>have_alloca\<close> is the build option; without it every buffer comes from the heap.
\<close>

datatype alloc_call = Alloca "64 word" | My_malloc "64 word" "32 word" | My_free "nat option"

definition MY_FAE :: "32 word" where "MY_FAE = 8"

definition my_alloca :: "bool \<Rightarrow> 64 word \<Rightarrow> alloc_call" where
  "my_alloca have_alloca sz = (if have_alloca then Alloca sz else My_malloc sz MY_FAE)"

definition my_afree :: "bool \<Rightarrow> nat option \<Rightarrow> alloc_call list" where
  "my_afree have_alloca p = (if have_alloca then [] else [My_free p])"

definition my_safe_alloca :: "bool \<Rightarrow> 64 word \<Rightarrow> 64 word \<Rightarrow> alloc_call" where
  "my_safe_alloca have_alloca sz max_alloca_sz =
     (if \<not> have_alloca then my_alloca have_alloca sz
      else if sz \<le> max_alloca_sz then my_alloca have_alloca sz else My_malloc sz 0)"

definition my_safe_afree :: "bool \<Rightarrow> nat option \<Rightarrow> 64 word \<Rightarrow> 64 word \<Rightarrow> alloc_call list" where
  "my_safe_afree have_alloca p sz max_alloca_sz =
     (if \<not> have_alloca then my_afree have_alloca p
      else if sz > max_alloca_sz then [My_free p] else [])"

text \<open>With the same sizes in both, a buffer is freed exactly when it came from the heap, and once.\<close>

lemma safe_alloca_paired:
  "my_safe_afree have_alloca p sz mx = [My_free p] \<and> (\<exists>flags. my_safe_alloca have_alloca sz mx = My_malloc sz flags)
   \<or> my_safe_afree have_alloca p sz mx = [] \<and> my_safe_alloca have_alloca sz mx = Alloca sz"
  by (auto simp: my_safe_afree_def my_safe_alloca_def my_alloca_def my_afree_def)

text \<open>\<open>strdup_root\<close>, a function of the client library, is only called for a string.\<close>

definition safe_strdup_root :: "(nat \<Rightarrow> string \<Rightarrow> 'w \<Rightarrow> nat option \<times> 'w) \<Rightarrow> nat \<Rightarrow> string option \<Rightarrow> 'w \<Rightarrow> nat option \<times> 'w" where
  "safe_strdup_root strdup_root root str w = (case str of Some t \<Rightarrow> strdup_root root t w | None \<Rightarrow> (None, w))"

text \<open>The members of \<open>MEM_ROOT\<close> that tell whether it has been set up.\<close>

record MEM_ROOT =
  mr_free :: "nat option"
  mr_used :: "nat option"
  mr_pre_alloc :: "nat option"
  mr_min_malloc :: "64 word"
  mr_block_size :: "64 word"
  mr_block_num :: "32 word"
  mr_first_block_usage :: "32 word"

definition alloc_root_inited :: "MEM_ROOT \<Rightarrow> bool" where
  "alloc_root_inited A \<longleftrightarrow> mr_min_malloc A \<noteq> 0"

definition clear_alloc_root :: "MEM_ROOT \<Rightarrow> MEM_ROOT" where
  "clear_alloc_root A = A\<lparr>mr_free := None, mr_used := None, mr_pre_alloc := None, mr_min_malloc := 0\<rparr>"

lemma cleared_not_inited: "\<not> alloc_root_inited (clear_alloc_root A)"
  by (simp add: alloc_root_inited_def clear_alloc_root_def)

section \<open>Strings with their length\<close>

record LEX_STRING =
  lex_str :: string
  lex_length :: "64 word"

definition lex_string_set :: "LEX_STRING \<Rightarrow> string \<Rightarrow> LEX_STRING" where
  "lex_string_set l c = l\<lparr>lex_str := c, lex_length := of_nat (length (c_str c))\<rparr>"

lemma lex_string_set_length:
  assumes "length (c_str c) < 2 ^ 64"
  shows "take (unat (lex_length (lex_string_set l c))) (lex_str (lex_string_set l c)) = c_str c"
proof -
  have "take (length (c_str c)) c = c_str c" unfolding c_str_def by (rule takeWhile_eq_take [symmetric])
  with assms show ?thesis by (simp add: lex_string_set_def unat_of_nat take_bit_nat_eq_self)
qed

end
