(* ===== verification/Spec2Isabelle.thy ===== *)
theory Spec2Isabelle
  imports Helpers_Correct Provider_Correct Sample_Credential_Session Login_Crossing Login_Buffers Trailing_Space Psi_File Psi_Thread Psi_Socket
    Psi_Server Timespec Counters Io_Cache Client_Macros
begin

text \<open>
  This library models a Windows credential provider, a DLL that LogonUI loads, extended with a
  login by smart card (directory \<open>src/SampleHardwareEventCredentialProvider\<close>; the paths below are relative to
  it). What the program does: LogonUI asks the provider for tiles; the provider asks its command window whether the
  system is connected; that call does not come back before somebody has presented a card to a reader on a
  serial line, has been found in a database, and has entered a password (or has one stored) that the network's
  audit gateway accepts. The tile then submits a logon for one configured account.

  \<^bold>\<open>How the parts interact.\<close> Three threads share global variables without locks: the thread LogonUI calls
  \<open>GetConnectedStatus\<close> on (the login thread), the window's thread with the buttons, and the serial line's
  reader thread. The login thread polls the reader's \<open>Readinfo\<close> and waits on \<open>empPWCT\<close>, which
  the button handlers write together with \<open>boolGetBack\<close>. The provider only sees the value
  \<open>GetConnectedStatus\<close> returns, the tile only the variable \<open>strUser\<close>.

  \<^bold>\<open>Theories, and what they model.\<close>
  \<^item> \<open>Prelude\<close>: \<open>HRESULT\<close> and strings, faults as values (\<open>res\<close>: a null
    dereference, an access out of bounds, the runtime's invalid-parameter handler, undefined behaviour, the end of the
    process), the C library functions the source calls; \<open>Task_Memory\<close>: the COM task allocator as a store of
    blocks in which every allocation may fail and double frees are faults.
  \<^item> \<open>Refcount\<close>, \<open>Dll\<close> (\<open>Dll.cpp\<close>, \<open>guid.h\<close>): the locale
    \<open>com_refcount\<close> of objects with the program's \<open>AddRef\<close> and \<open>Release\<close>, interpreted by the
    class factory, the provider and both tiles; the DLL's entry points.
  \<^item> \<open>Common\<close> (\<open>common.h\<close>), \<open>Helpers\<close> and \<open>Helpers_Correct\<close>
    (\<open>helpers.cpp\<close>): the field tables; packing a logon, protecting a password, copying descriptors.
  \<^item> \<open>Tile\<close>, \<open>Sample_Credential\<close>, \<open>Message_Credential\<close> with \<open>_Correct\<close> and
    \<open>_Props\<close> (\<open>CSampleCredential.cpp\<close>, \<open>MessageCredential.cpp\<close>): the two tiles; the
    locale \<open>safe_object\<close> (an object whose client may call its operations in any order) is interpreted
    by both. \<open>Tile_Accounts\<close> keeps account of the blocks a tile does not own, and
    \<open>Sample_Credential_Session\<close> follows the user tile from its constructor to its destructor.
  \<^item> \<open>Sample_Provider\<close>, \<open>Provider_Correct\<close> (\<open>CSampleProvider.cpp\<close>, \<open>.h\<close>).
  \<^item> \<open>Com_Asy\<close> (\<open>ComAsy.cpp\<close>, \<open>Global.cpp\<close>), \<open>Http_Connect\<close>
    (\<open>HttpConnect.cpp\<close>), \<open>MySql_Conn\<close> and \<open>MySql_Correct\<close>
    (\<open>MySqlConn.cpp\<close>): the reader, the gateway's client, the database's client, with what they prove.
  \<^item> \<open>CommandWindow.cpp\<close> by function: \<open>Machine_Info\<close> (\<open>AnalysisFile\<close>,
    \<open>MachineInfo\<close>, \<open>GetProgramDir\<close>), \<open>Globals\<close> (the variables, as one record),
    \<open>Command_Window\<close> (\<open>Initialize\<close>), \<open>Window_Proc\<close> (the window's thread),
    \<open>Login_Loop\<close> (the sections of \<open>GetConnectedStatus\<close> as functions in the code's order), with
    \<open>Machine_Info_Correct\<close>, \<open>Window_Correct\<close>, \<open>Login_Records\<close>.
  \<^item> \<open>Login_Steps\<close>: the threads together, as the step relation \<open>login_step\<close>;
    \<open>Login_Examples\<close>, \<open>Login_Correct\<close>, \<open>Login_Races\<close>, \<open>Login_Crossing\<close>,
    \<open>Login_Buffers\<close> prove about its runs. This file composes them with the provider and the tile.
  \<^item> The headers of the database client's library that hold code, under \<open>include/\<close>. \<open>Byte_Order\<close>
    (\<open>my_byteorder.h\<close>, \<open>byte_order_generic*.h\<close>, \<open>big_endian.h\<close>,
    \<open>little_endian.h\<close>): the macros that read and write integers and floats in a given order of bytes;
    \<open>Trailing_Space\<close> (\<open>m_string.h\<close>): \<open>skip_trailing_space\<close>; \<open>Timespec\<close> (\<open>my_pthread.h\<close>): the deadlines of timed waits;
    \<open>Counters\<close> (\<open>my_pthread.h\<close>): the counters threads share, as a step relation of their instructions;
    \<open>Io_Cache\<close> (\<open>my_sys.h\<close>): the buffered files, with the state that the macros share with the functions
    behind them; \<open>Client_Macros\<close> (\<open>my_global.h\<close>, \<open>m_ctype.h\<close>, \<open>mysql.h\<close>,
    \<open>mysql_com.h\<close>, \<open>my_sys.h\<close>, \<open>my_alloc.h\<close>, \<open>m_string.h\<close>): alignment, character classes, column
    types, buffers on the stack or the heap. \<open>Psi\<close>
    (\<open>mysql/psi/psi.h\<close>): the instrumentation's interface, a history of calls with the protocol its handles
    follow, and the locale \<open>instrumentation\<close> of components that can be compiled with it and without; it is
    interpreted by \<open>Psi_File\<close> (\<open>mysql_file.h\<close>), \<open>Psi_Thread\<close>
    (\<open>mysql_thread.h\<close>), \<open>Psi_Socket\<close> (\<open>mysql_socket.h\<close>) and \<open>Psi_Server\<close>
    (\<open>mysql_statement.h\<close>, \<open>mysql_stage.h\<close>, \<open>mysql_table.h\<close>, \<open>mysql_idle.h\<close>).

  \<^bold>\<open>The step relation.\<close> The login thread's code between two points where it waits is one step
  (its pieces can fail or not return; then there is no step), and each step takes the answers of the
  outside world as it likes. Between showing the password controls and setting \<open>empPWCT\<close> the
  login thread can be interrupted, and so it can between reading the two flags. A handler runs up to its writes of the
  flags, which are then steps of their own; the login button's handler can also be interrupted behind the
  gateway's answer, and so can the login thread's check of a stored password. Three parameters make these atomic again, to say which synchronisation a theorem needs. The
  fields \<open>accepted\<close> (has a password been accepted for the card) and \<open>inputs\<close> (all that the user has
  clicked, pressed and typed) are the specification's, not the program's. A new reader thread, after \<open>Initialize\<close> or a
  reconnection, clears the pending text and \<open>Readinfo\<close> in a step of its own, whenever it gets to run. What is shown is set before the flags are
  written, although in some branches of the source flags are written first: no thread reads what is shown.

  \<^bold>\<open>What is proved.\<close> For the login: with all three synchronisations nobody gets in without an accepted
  password; without any one of them there is a run, constructed in the model, in which somebody does, by one click on the back button and nothing else if the flags are written one by one; a click can be lost
  and the login thread left waiting; in every run the shared buffers hold what they can, the tile shown is the user
  tile, and the logon submitted is for the configured account with the literal password. For the parts: the session safety
  of the tiles, with an account of their memory, and the reference counts (objects are never deleted by well-behaved clients, since \<open>Release\<close>
  compares the old count); round trips of the packed logon, the configuration, the machine information, the HTTP
  request, the hexadecimal output; every statement that is sent to the database, with the limits of its buffer and the card
  numbers that a server with the literals of the MySQL manual reads as they are; the gateway replies that count as an acceptance; the
  refinement of the reader thread to the cutting of its stream into cards; the error paths of every
  initialisation. For the library's headers: the three variants of the byte-order macros agree and read back what they
  write; the search for trailing spaces by words is safe and finds what a search by bytes finds; deadlines are
  the moments asked for, and so are their order and differences; a client of a buffered file gets and hands over the bytes it would without the buffer, whatever
  the sizes of its requests, up to the first failure of the functions behind it; thread-safe counters are exact under every interleaving; an instrumented file, lock,
  socket or statement behaves as one that is not, for every instrumentation, and keeps to its protocol.

  \<^bold>\<open>Fuel and bounds.\<close> The receive loop of \<open>HttpConnect::socketHttp\<close> may run for ever; it has
  fuel, \<open>None\<close> meaning that it did not suffice. The theorem on \<open>postData\<close> shows that fuel above the number of
  calls of \<open>recv\<close> before the end of the reply is enough, and another that no fuel is enough
  for a socket with a lasting error. Handlers and sections that post take the fuel from their environment
  (\<open>ck_fuel\<close>), arbitrary in every theorem. The plus-sign loop ends and is a \<open>function\<close> with its
  measure. Reference counts, lengths in the packed logon and \<open>HRESULT\<close> values are words of their width.

  \<^bold>\<open>Not modelled.\<close> Of the MySQL client library's headers under \<open>include/\<close> those not named
  above, and in \<open>my_global.h\<close>, \<open>my_sys.h\<close>, \<open>m_ctype.h\<close>, \<open>mysql.h\<close>,
  \<open>mysql_com.h\<close> and \<open>my_list.h\<close> all but the macros named there: they declare functions that are in its binary, configure platforms or number errors.
  The functions a buffered file calls are parameters with laws (\<open>read_law\<close>, \<open>get_law\<close>,
  \<open>write_law\<close>) that only say what a call that reports success has done: delivered or taken the bytes it was
  called for, in the file's order, and kept the structure's pointers in step. Of a call that fails nothing is assumed, nor
  that a call on a full buffer makes room; the theorem says separately what functions give that fail at the end of a
  file only (\<open>read_serves\<close>, \<open>get_serves\<close>, \<open>write_serves\<close>). \<open>my_b_fill_cache\<close> is
  defined but not among the requests, since what becomes of unread bytes is decided behind it. The functions the program
  calls are the parameter \<open>db_server\<close>; those the modelled headers call, and the instrumentation behind
  its table of function pointers, are the parameter \<open>build\<close>. Addresses, buffers and
  locker states are passed on unread. The variables a caller keeps lockers in hold null at first, although the macro that
  declares a table's locker leaves it without a value. How the database reads a string literal is the parameter of the
  theorem on card numbers, with the rules of the MySQL manual as hypothesis. The switches of the interface's parts (mutexes, files, statements and so on) are one
  per build, and \<open>mysql_thread_create\<close> is not among the requests of the contract, since an
  instrumented build lets the instrumentation make the thread. LSA,
  CredProtect, the network, the serial driver, the file system and the window system are parameters as well.
  A \<open>new\<close> that fails gives null, as the code expects, and not the exception of standard C++; the offset of the receive
  loop is unbounded, as explained there; of the reader threads of a serial line that is closed and opened again
  only the newest is followed.
  Message boxes, debug output, sleeps, fonts and layout have no effect on the state and are left
  out, as are \<open>DCB\<close> fields, timeouts and purging, which configure the driver. Of
  \<open>Register.reg\<close> only the class identifier is there. \<open>KerbInteractiveUnlockLogonUnpackInPlace\<close> is
  declared in \<open>helpers.h\<close> but defined nowhere. A gateway call and the assignment of its answer to \<open>BoolHttpback\<close>
  are one step, so runs in which the two threads' calls overlap are not covered.
\<close>

section \<open>The provider and the login loop together\<close>

text \<open>C4: one account for all cards. However the threads are interleaved, whichever card is presented,
  whatever is typed and whatever the gateway and the database answer: when the login loop returns, the
  provider announces the fields of the user tile and hands that tile out, and the logon the tile then submits is
  for the account that \<open>strUser\<close> named when the loop was entered, with the literal password. The
  card's user decides nothing but whether the loop returns.\<close>

theorem one_account_for_all_cards:
  assumes "login_steps sy (login_start g) c" and "pc c = Returned b"
    and "pr_window p \<noteq> None" "pr_cred p = Some a" "ob_sample ob a = Some cred"
    and "tile_ok SFI_NUM_FIELDS h cred" "sample_typed cred" "sc_cpus cred = Some cp"
    and "logon_env_ok env" "le_strUser env = strUser (glob c)"
  shows "\<exists>ob' cred' hr out cred'' h'.
    CSampleProvider_GetFieldDescriptorCount (Inr b) p = Inr (S_OK, SFI_NUM_FIELDS) \<and>
    CSampleProvider_GetCredentialAt (Inr b) 0 True p ob = Inr (S_OK, Some (SampleCredential a), ob') \<and>
    ob_sample ob' a = Some cred' \<and>
    CSampleCredential_GetSerialization env (cred', h) = Inr (hr, out, cred'', h') \<and>
    (SUCCEEDED hr \<longrightarrow> (\<exists>wsz mt. le_computer env = Inl wsz \<and>
       submits (le_sizeof env) (logon_domain env wsz) (wcs (widen (strUser g)))
         (wcs (protected_text (le_cred env) cp
            (if hp_fails h (Suc (hp_next h)) then None else Some password_literal))) mt out))"
proof -
  have b: "b" using steps_return_true [OF assms(1)] assms(2) by blast
  let ?cred = "cred\<lparr>tl_cRef := tl_cRef cred + 1\<rparr>"
  let ?ob = "ob\<lparr>ob_sample := (ob_sample ob)(a \<mapsto> ?cred)\<rparr>"
  have "CSampleProvider_GetFieldDescriptorCount (Inr b) p = Inr (S_OK, SFI_NUM_FIELDS)"
    "CSampleProvider_GetCredentialAt (Inr b) 0 True p ob = Inr (S_OK, Some (SampleCredential a), ?ob)"
    using b assms(3-5)
    by (simp_all add: CSampleProvider_GetFieldDescriptorCount_def CSampleProvider_GetCredentialAt_def ask_window_def
        CSampleCredential_QueryInterface_def tile_QueryInterface_def tile_AddRef_def)
  moreover have "tile_ok SFI_NUM_FIELDS h ?cred" "sample_typed ?cred" "sc_cpus ?cred = Some cp"
    using assms(6-8) by (simp_all add: tile_ok_def tile_ptrs_def sample_typed_def)
  note GetSerialization_typed [OF this(1,2) assms(9) this(3)]
  moreover have "strUser (glob c) = strUser g" using steps_account [OF assms(1)] by (simp add: login_start_def)
  ultimately show ?thesis using assms(10)
    by (intro exI [of _ ?ob] exI [of _ ?cred]) fastforce
qed

text \<open>A provider with its credential, and the run of the example world.\<close>

definition example_provider :: provider where
  "example_provider = \<lparr>pr_cRef = 2, pr_window = Some True, pr_cred = Some 0, pr_msg = None, pr_pcpe = None,
     pr_context = None, pr_cpus = Some CPUS_LOGON\<rparr>"

theorem one_account_for_all_cards_witness:
  "\<exists>c ob' cred' hr out cred'' h'. login_steps unsynchronised (login_start card_there) c \<and> pc c = Returned True \<and>
    CSampleProvider_GetCredentialAt (Inr True) 0 True example_provider
      (example_objects\<lparr>ob_sample := [0 \<mapsto> example_tile]\<rparr>) = Inr (S_OK, Some (SampleCredential 0), ob') \<and>
    CSampleCredential_GetSerialization (example_env\<lparr>le_strUser := strUser (glob c)\<rparr>) (cred', example_heap []) =
      Inr (hr, out, cred'', h') \<and>
    (SUCCEEDED hr \<longrightarrow> (\<exists>mt. submits 64 [80, 67] [] (wcs (rev password_literal)) mt out))"
proof -
  obtain c where c: "login_steps unsynchronised (login_start card_there) c" "pc c = Returned True"
    using easy_run by blast
  let ?env = "example_env\<lparr>le_strUser := strUser (glob c)\<rparr>"
  have p: "pr_window example_provider \<noteq> None" "pr_cred example_provider = Some 0"
    "ob_sample (example_objects\<lparr>ob_sample := [0 \<mapsto> example_tile]\<rparr>) 0 = Some example_tile"
    by (simp_all add: example_provider_def)
  have e: "logon_env_ok ?env" "le_strUser ?env = strUser (glob c)"
    using example_env_ok by (simp_all add: logon_env_ok_def)
  have u: "wcs (widen (strUser card_there)) = []"
    by (simp add: card_there_def open_window_def globals_init_def widen_def c_str_def wcs_def)
  have "protected_text example_cred_api CPUS_LOGON (Some password_literal) = rev password_literal"
    by (simp add: protected_text_def password_literal_def wide_def already_encrypted_def)
       (simp add: example_cred_api_def)
  then show ?thesis
    using one_account_for_all_cards [OF c p example_tile_ok example_tile_typed e] c u
    by (auto simp: logon_domain_def example_env_def example_heap_def) blast
qed

end
